(* ===== verification/GoPrelude.thy ===== *)
theory GoPrelude
  imports Main "HOL-Library.AList"
begin

text \<open>
  Shared notions of the development.

  \<^item> \<open>'a go\<close> is the outcome of running a piece of Go code: it returns a value, panics, or leaves
    the process through \<open>log.Fatal\<close> (zap's \<open>Fatal\<close> calls \<open>os.Exit(1)\<close>, which no \<open>recover\<close> stops).
  \<^item> \<open>gerr\<close> is a non-nil Go \<open>error\<close>: one made by \<open>errors.New\<close>/\<open>fmt.Errorf\<close>, or one that carries a
    gRPC status. A nil error is \<open>None\<close> of \<open>gerr option\<close>.
  \<^item> a Go \<open>map\<close> that the code ranges over is an association list. Go leaves the order of a \<open>range\<close>
    unspecified; the list's order is the order in which this particular \<open>range\<close> visits the keys, and
    theorems quantify over every list. A map that is only looked up and stored into is
    \<open>'k \<rightharpoonup> 'v\<close>.
\<close>

named_theorems go_simps \<open>evaluation rules of outcomes\<close>
named_theorems gomap_simps \<open>lookups in Go maps after updates\<close>

section \<open>Outcomes\<close>

datatype fault =
    NilDeref            \<comment> \<open>method call or field access through nil\<close>
  | IndexOutOfRange     \<comment> \<open>\<open>s[i]\<close>\<close>
  | SliceOutOfRange     \<comment> \<open>\<open>s[a:b]\<close>\<close>
  | CloseOfClosed       \<comment> \<open>\<open>close\<close> of a closed channel\<close>
  | SendOnClosed        \<comment> \<open>send on a closed channel\<close>
  | NilMapWrite         \<comment> \<open>assignment to an entry of a nil map\<close>
  | NilContext          \<comment> \<open>\<open>context.WithValue\<close> on a nil parent\<close>
  | ReflectFault        \<comment> \<open>misuse of package \<open>reflect\<close>\<close>
  | TypeAssertFault     \<comment> \<open>failed single-value type assertion\<close>
  | UserPanic string    \<comment> \<open>an explicit \<open>panic(v)\<close>\<close>

datatype 'a go = Ret 'a | Panic fault | Exit string

primrec go_bind :: "'a go \<Rightarrow> ('a \<Rightarrow> 'b go) \<Rightarrow> 'b go" where
  "go_bind (Ret a) k = k a"
| "go_bind (Panic p) k = Panic p"
| "go_bind (Exit m) k = Exit m"

primrec go_map :: "('a \<Rightarrow> 'b) \<Rightarrow> 'a go \<Rightarrow> 'b go" where
  "go_map f (Ret a) = Ret (f a)"
| "go_map f (Panic p) = Panic p"
| "go_map f (Exit m) = Exit m"

primrec go_returns :: "'a go \<Rightarrow> bool" where
  "go_returns (Ret a) = True"
| "go_returns (Panic p) = False"
| "go_returns (Exit m) = False"

lemma go_bind_Ret_iff [go_simps]: "go_bind m k = Ret b \<longleftrightarrow> (\<exists>a. m = Ret a \<and> k a = Ret b)"
  by (cases m) auto

lemma go_bind_assoc: "go_bind (go_bind m k) h = go_bind m (\<lambda>x. go_bind (k x) h)"
  by (cases m) auto

lemma go_bind_Ret_right [simp]: "go_bind m Ret = m"
  by (cases m) auto

lemma go_map_Ret_iff [go_simps]: "go_map f m = Ret b \<longleftrightarrow> (\<exists>a. m = Ret a \<and> b = f a)"
  by (cases m) auto

lemma go_returns_iff: "go_returns m \<longleftrightarrow> (\<exists>a. m = Ret a)"
  by (cases m) auto

text \<open>A loop over a list whose body may panic.\<close>

fun go_fold :: "('a \<Rightarrow> 's \<Rightarrow> 's go) \<Rightarrow> 'a list \<Rightarrow> 's \<Rightarrow> 's go" where
  "go_fold f [] s = Ret s"
| "go_fold f (x # xs) s = go_bind (f x s) (go_fold f xs)"

lemma go_fold_append: "go_fold f (xs @ ys) s = go_bind (go_fold f xs s) (go_fold f ys)"
proof (induction xs arbitrary: s)
  case (Cons x xs)
  then have "go_fold f (xs @ ys) = (\<lambda>s. go_bind (go_fold f xs s) (go_fold f ys))"
    by (simp add: fun_eq_iff)
  then show ?case by (simp add: go_bind_assoc)
qed simp

lemma go_fold_invariant:
  assumes "go_fold f xs s = Ret s'" and "P s"
    and "\<And>x s s'. x \<in> set xs \<Longrightarrow> P s \<Longrightarrow> f x s = Ret s' \<Longrightarrow> P s'"
  shows "P s'"
  using assms
proof (induction xs arbitrary: s)
  case (Cons x xs)
  then show ?case by (auto simp: go_simps)
qed simp

section \<open>Errors\<close>

datatype gerr =
    PlainErr string          \<comment> \<open>\<open>errors.New\<close>, \<open>fmt.Errorf\<close>: the text\<close>
  | StatusErr int string     \<comment> \<open>\<open>status.Errorf\<close>: the gRPC code and the description\<close>

text \<open>
  \<open>err.Error()\<close>. The text of a status error is made by the gRPC library from code and description;
  that formatting is the parameter \<open>fmt_status\<close>.
\<close>

primrec err_text :: "(int \<Rightarrow> string \<Rightarrow> string) \<Rightarrow> gerr \<Rightarrow> string" where
  "err_text fmt_status (PlainErr m) = m"
| "err_text fmt_status (StatusErr c d) = fmt_status c d"

section \<open>Go maps as association lists\<close>

type_synonym ('k, 'v) gomap = "('k \<times> 'v) list"

lemma map_of_update [gomap_simps]: "map_of (AList.update k v m) = (map_of m)(k \<mapsto> v)"
  by (rule update_conv')

lemma map_of_delete [gomap_simps]: "map_of (AList.delete k m) = (map_of m)(k := None)"
  by (rule delete_conv')

lemma map_of_perm_eq:
  assumes "distinct (map fst xs)" and "distinct (map fst ys)" and "set xs = set ys"
  shows "map_of xs = map_of ys"
  using assms by (simp add: map_of_inject_set)

lemma set_delete: "(k', v) \<in> set (AList.delete k m) \<longleftrightarrow> k' \<noteq> k \<and> (k', v) \<in> set m"
  by (auto simp: AList.delete_eq)

lemma fst_notin_map_of_None [simp]: "k \<notin> fst ` set m \<Longrightarrow> map_of m k = None"
  by (simp add: map_of_eq_None_iff)

text \<open>
  A map value that may be nil: reading a nil map finds nothing, writing to it panics.
\<close>

type_synonym ('k, 'v) nilable_map = "('k \<rightharpoonup> 'v) option"

primrec nmap_get :: "('k, 'v) nilable_map \<Rightarrow> 'k \<Rightarrow> 'v option" where
  "nmap_get None k = None"
| "nmap_get (Some m) k = m k"

primrec nmap_put :: "'k \<Rightarrow> 'v \<Rightarrow> ('k, 'v) nilable_map \<Rightarrow> ('k, 'v) nilable_map go" where
  "nmap_put k v None = Panic NilMapWrite"
| "nmap_put k v (Some m) = Ret (Some (m(k \<mapsto> v)))"

end
