(* ===== verification/GoStrings.thy ===== *)
theory GoStrings
  imports GoPrelude "HOL-Library.Sublist"
begin

text \<open>
  The parts of Go's standard library on strings that the repository uses: package \<open>strings\<close>
  (\<open>HasPrefix\<close>, \<open>HasSuffix\<close>, \<open>TrimPrefix\<close>, \<open>TrimSuffix\<close>, \<open>Split\<close> at a one-byte separator, \<open>Repeat\<close>,
  \<open>Replace\<close> with count 1, \<open>EqualFold\<close>) and the conversions between \<open>string\<close> and \<open>[]rune\<close>.

  A Go string is a sequence of bytes, so it is a \<open>char list\<close>; \<open>len\<close> counts bytes. A rune is a \<open>nat\<close>.
  The Unicode tables beyond Latin-1 (upper case, lower case, simple folding) are data the Go
  runtime ships; they are a parameter, the record \<open>unicode_tables\<close>.
\<close>

section \<open>Prefixes and suffixes\<close>

definition HasPrefix :: "string \<Rightarrow> string \<Rightarrow> bool" where
  "HasPrefix s p \<longleftrightarrow> take (length p) s = p"

definition HasSuffix :: "string \<Rightarrow> string \<Rightarrow> bool" where
  "HasSuffix s p \<longleftrightarrow> length p \<le> length s \<and> drop (length s - length p) s = p"

definition TrimPrefix :: "string \<Rightarrow> string \<Rightarrow> string" where
  "TrimPrefix s p = (if HasPrefix s p then drop (length p) s else s)"

definition TrimSuffix :: "string \<Rightarrow> string \<Rightarrow> string" where
  "TrimSuffix s p = (if HasSuffix s p then take (length s - length p) s else s)"

lemma HasPrefix_append [simp]: "HasPrefix (p @ s) p"
  by (simp add: HasPrefix_def)

lemma HasPrefix_iff: "HasPrefix s p \<longleftrightarrow> (\<exists>t. s = p @ t)"
  unfolding HasPrefix_def by (metis append_eq_conv_conj append_take_drop_id)

lemma HasSuffix_append [simp]: "HasSuffix (s @ p) p"
  by (simp add: HasSuffix_def)

lemma HasSuffix_iff: "HasSuffix s p \<longleftrightarrow> (\<exists>t. s = t @ p)"
proof
  assume "HasSuffix s p"
  then have "s = take (length s - length p) s @ p"
    by (metis HasSuffix_def append_take_drop_id)
  then show "\<exists>t. s = t @ p" by blast
qed auto

lemma TrimPrefix_append [simp]: "TrimPrefix (p @ s) p = s"
  by (simp add: TrimPrefix_def)

lemma TrimSuffix_append [simp]: "TrimSuffix (s @ p) p = s"
  by (simp add: TrimSuffix_def)

lemma TrimSuffix_no_suffix: "\<not> HasSuffix s p \<Longrightarrow> TrimSuffix s p = s"
  by (simp add: TrimSuffix_def)

section \<open>Split at a one-byte separator\<close>

fun split_byte :: "char \<Rightarrow> string \<Rightarrow> string list" where
  "split_byte c [] = [[]]"
| "split_byte c (x # xs) =
     (if x = c then [] # split_byte c xs
      else (case split_byte c xs of
              [] \<Rightarrow> [[x]]
            | w # ws \<Rightarrow> (x # w) # ws))"

lemma split_byte_not_Nil [simp]: "split_byte c s \<noteq> []"
  by (induction s) (auto split: list.splits)

lemma split_byte_no_sep [simp]: "c \<notin> set s \<Longrightarrow> split_byte c s = [s]"
  by (induction s) auto

lemma split_byte_append:
  "c \<notin> set s \<Longrightarrow> split_byte c (s @ c # t) = s # split_byte c t"
  by (induction s) auto

lemma length_split_byte: "length (split_byte c s) = Suc (count_list s c)"
proof (induction s)
  case (Cons x s)
  then show ?case by (cases "split_byte c s") auto
qed simp

lemma split_byte_parts: "w \<in> set (split_byte c s) \<Longrightarrow> c \<notin> set w"
proof (induction s arbitrary: w)
  case (Cons x s)
  show ?case
  proof (cases "split_byte c s")
    case Nil
    then show ?thesis by simp
  next
    case (Cons v vs)
    then show ?thesis using Cons.prems Cons.IH by (auto split: if_splits)
  qed
qed simp

lemma split_byte_singleton: "split_byte c s = [w] \<longleftrightarrow> c \<notin> set s \<and> w = s"
proof
  assume split: "split_byte c s = [w]"
  then have "length (split_byte c s) = Suc 0" by simp
  then have "c \<notin> set s" by (simp add: length_split_byte count_list_0_iff)
  with split show "c \<notin> set s \<and> w = s" by simp
qed auto

lemma split_byte_two_iff:
  "split_byte c s = [a, b] \<longleftrightarrow> c \<notin> set a \<and> c \<notin> set b \<and> s = a @ c # b"
proof
  assume "split_byte c s = [a, b]"
  then show "c \<notin> set a \<and> c \<notin> set b \<and> s = a @ c # b"
  proof (induction s arbitrary: a)
    case (Cons x s)
    show ?case
    proof (cases "x = c")
      case True
      with Cons.prems show ?thesis by (auto simp: split_byte_singleton)
    next
      case False
      with Cons.prems obtain v where "split_byte c s = [v, b]" and "a = x # v"
        by (auto split: list.splits)
      with Cons.IH[of v] False show ?thesis by auto
    qed
  qed simp
next
  assume "c \<notin> set a \<and> c \<notin> set b \<and> s = a @ c # b"
  then show "split_byte c s = [a, b]" by (simp add: split_byte_append)
qed

section \<open>Replacing the first occurrence\<close>

text \<open>\<open>strings.Replace(s, old, new, 1)\<close> for a non-empty \<open>old\<close>: the leftmost occurrence, wherever it is.\<close>

fun Replace1 :: "string \<Rightarrow> string \<Rightarrow> string \<Rightarrow> string" where
  "Replace1 [] old new = (if old = [] then new else [])"
| "Replace1 (x # xs) old new =
     (if HasPrefix (x # xs) old then new @ drop (length old) (x # xs)
      else x # Replace1 xs old new)"

lemma Replace1_prefix: "old \<noteq> [] \<Longrightarrow> Replace1 (old @ s) old new = new @ s"
  by (cases old) (simp_all add: HasPrefix_def)

lemma Replace1_absent: "\<not> sublist old s \<Longrightarrow> Replace1 s old new = s"
proof (induction s)
  case (Cons x xs)
  then have "\<not> HasPrefix (x # xs) old" and "\<not> sublist old xs"
    by (simp_all add: HasPrefix_iff sublist_Cons_right prefix_def)
  with Cons.IH show ?case by simp
qed auto

section \<open>Runes: UTF-8 decoding and encoding\<close>

definition RuneError :: nat where "RuneError = 65533"

definition cont_byte :: "nat \<Rightarrow> bool" where
  "cont_byte b \<longleftrightarrow> 128 \<le> b \<and> b < 192"

text \<open>
  One decoding step on a non-empty byte sequence: the rune and the number of bytes it takes. An
  ill-formed sequence gives \<open>RuneError\<close> and one byte, as \<open>utf8.DecodeRune\<close> does.
\<close>

definition decode2 :: "nat \<Rightarrow> nat \<Rightarrow> nat" where
  "decode2 b0 b1 = (b0 - 192) * 64 + (b1 - 128)"

definition decode3 :: "nat \<Rightarrow> nat \<Rightarrow> nat \<Rightarrow> nat" where
  "decode3 b0 b1 b2 = (b0 - 224) * 4096 + (b1 - 128) * 64 + (b2 - 128)"

definition decode4 :: "nat \<Rightarrow> nat \<Rightarrow> nat \<Rightarrow> nat \<Rightarrow> nat" where
  "decode4 b0 b1 b2 b3 =
     (b0 - 240) * 262144 + (b1 - 128) * 4096 + (b2 - 128) * 64 + (b3 - 128)"

fun decode_step :: "nat list \<Rightarrow> nat \<times> nat" where
  "decode_step [] = (RuneError, 0)"
| "decode_step (b0 # bs) =
     (if b0 < 128 then (b0, 1)
      else if 194 \<le> b0 \<and> b0 < 224 then
        (case bs of
           b1 # _ \<Rightarrow> if cont_byte b1 then (decode2 b0 b1, 2) else (RuneError, 1)
         | [] \<Rightarrow> (RuneError, 1))
      else if 224 \<le> b0 \<and> b0 < 240 then
        (case bs of
           b1 # b2 # _ \<Rightarrow>
             if cont_byte b1 \<and> (b0 = 224 \<longrightarrow> 160 \<le> b1) \<and> (b0 = 237 \<longrightarrow> b1 < 160) \<and> cont_byte b2
             then (decode3 b0 b1 b2, 3) else (RuneError, 1)
         | _ \<Rightarrow> (RuneError, 1))
      else if 240 \<le> b0 \<and> b0 < 245 then
        (case bs of
           b1 # b2 # b3 # _ \<Rightarrow>
             if cont_byte b1 \<and> (b0 = 240 \<longrightarrow> 144 \<le> b1) \<and> (b0 = 244 \<longrightarrow> b1 < 144)
                \<and> cont_byte b2 \<and> cont_byte b3
             then (decode4 b0 b1 b2 b3, 4) else (RuneError, 1)
         | _ \<Rightarrow> (RuneError, 1))
      else (RuneError, 1))"

lemma decode_step_width: "1 \<le> snd (decode_step (b # bs))"
  by (auto split: list.splits)

lemma decode_step_ascii [simp]: "b < 128 \<Longrightarrow> decode_step (b # bs) = (b, 1)"
  by simp

declare decode_step.simps(2) [simp del]

function decode_bytes :: "nat list \<Rightarrow> nat list" where
  "decode_bytes [] = []"
| "decode_bytes (b # bs) =
     (let (r, w) = decode_step (b # bs) in r # decode_bytes (drop w (b # bs)))"
  by pat_completeness auto
termination
proof (relation "measure length")
  fix b bs x r w
  assume "x = decode_step (b # bs)" and "(r, w) = x"
  then have "1 \<le> w" using decode_step_width[of b bs] by (metis snd_conv)
  then show "(drop w (b # bs), b # bs) \<in> measure length" by auto
qed simp

text \<open>Runes of a string, with the byte index at which each starts: what \<open>range s\<close> visits.\<close>

function decode_indexed :: "nat \<Rightarrow> nat list \<Rightarrow> (nat \<times> nat) list" where
  "decode_indexed i [] = []"
| "decode_indexed i (b # bs) =
     (let (r, w) = decode_step (b # bs) in (i, r) # decode_indexed (i + w) (drop w (b # bs)))"
  by pat_completeness auto
termination
proof (relation "measure (length \<circ> snd)")
  fix i :: nat and b bs x r w
  assume "x = decode_step (b # bs)" and "(r, w) = x"
  then have "1 \<le> w" using decode_step_width[of b bs] by (metis snd_conv)
  then show "((i + w, drop w (b # bs)), i, b # bs) \<in> measure (length \<circ> snd)" by auto
qed simp

lemma decode_indexed_snd: "map snd (decode_indexed i bs) = decode_bytes bs"
proof (induction i bs rule: decode_indexed.induct)
  case (2 i b bs)
  then show ?case by (cases "decode_step (b # bs)") simp
qed simp

lemma decode_indexed_fst_ge: "(j, r) \<in> set (decode_indexed i bs) \<Longrightarrow> i \<le> j"
proof (induction i bs rule: decode_indexed.induct)
  case (2 i b bs)
  then show ?case by (cases "decode_step (b # bs)") fastforce
qed simp

definition bytes_of :: "string \<Rightarrow> nat list" where
  "bytes_of s = map of_char s"

definition string_of_bytes :: "nat list \<Rightarrow> string" where
  "string_of_bytes bs = map char_of bs"

definition runes :: "string \<Rightarrow> nat list" where    \<comment> \<open>\<open>[]rune(s)\<close>\<close>
  "runes s = decode_bytes (bytes_of s)"

definition range_string :: "string \<Rightarrow> (nat \<times> nat) list" where    \<comment> \<open>\<open>for i, r := range s\<close>\<close>
  "range_string s = decode_indexed 0 (bytes_of s)"

definition valid_rune :: "nat \<Rightarrow> bool" where
  "valid_rune r \<longleftrightarrow> r < 55296 \<or> 57344 \<le> r \<and> r < 1114112"

definition encode_rune :: "nat \<Rightarrow> nat list" where
  "encode_rune r0 =
     (let r = (if valid_rune r0 then r0 else RuneError) in
      if r < 128 then [r]
      else if r < 2048 then [192 + r div 64, 128 + r mod 64]
      else if r < 65536 then [224 + r div 4096, 128 + (r div 64) mod 64, 128 + r mod 64]
      else [240 + r div 262144, 128 + (r div 4096) mod 64, 128 + (r div 64) mod 64, 128 + r mod 64])"

definition string_of_runes :: "nat list \<Rightarrow> string" where    \<comment> \<open>\<open>string(rs)\<close>\<close>
  "string_of_runes rs = string_of_bytes (concat (map encode_rune rs))"

section \<open>ASCII strings\<close>

definition ascii :: "string \<Rightarrow> bool" where
  "ascii s \<longleftrightarrow> list_all (\<lambda>c. (of_char c :: nat) < 128) s"

lemma ascii_simps [simp]:
  "ascii []" "ascii (c # s) \<longleftrightarrow> (of_char c :: nat) < 128 \<and> ascii s"
  "ascii (s @ t) \<longleftrightarrow> ascii s \<and> ascii t"
  by (auto simp: ascii_def)

lemma decode_bytes_ascii: "list_all (\<lambda>b. b < 128) bs \<Longrightarrow> decode_bytes bs = bs"
  by (induction bs) auto

lemma runes_ascii: "ascii s \<Longrightarrow> runes s = bytes_of s"
  unfolding runes_def by (rule decode_bytes_ascii) (auto simp: ascii_def bytes_of_def list_all_iff)

lemma decode_indexed_ascii:
  "list_all (\<lambda>b. b < 128) bs \<Longrightarrow> decode_indexed i bs = zip [i..<i + length bs] bs"
proof (induction bs arbitrary: i)
  case (Cons b bs)
  then show ?case by (simp add: upt_conv_Cons del: upt_Suc)
qed simp

lemma encode_rune_ascii: "r < 128 \<Longrightarrow> encode_rune r = [r]"
  by (simp add: encode_rune_def valid_rune_def)

lemma string_of_runes_ascii: "list_all (\<lambda>r. r < 128) rs \<Longrightarrow> string_of_runes rs = map char_of rs"
  by (induction rs) (auto simp: string_of_runes_def string_of_bytes_def encode_rune_ascii)

lemma string_runes_ascii: "ascii s \<Longrightarrow> string_of_runes (runes s) = s"
  by (simp add: runes_ascii string_of_runes_ascii bytes_of_def ascii_def list_all_iff comp_def)

section \<open>Decoding undoes encoding\<close>

lemma decode2_encode: "r < 2048 \<Longrightarrow> decode2 (192 + r div 64) (128 + r mod 64) = r"
  by (simp add: decode2_def)

lemma base64_digits:
  fixes r :: nat
  shows "r = 64 * (r div 64) + r mod 64" and "r mod 64 < 64"
    and "r div 4096 = r div 64 div 64" and "r div 262144 = r div 4096 div 64"
  using div_mult2_eq[of r 64 64] div_mult2_eq[of r 4096 64] by simp_all

lemma decode3_digits:
  "r = 64 * q1 + m1 \<Longrightarrow> q1 = 64 * q2 + m2 \<Longrightarrow> decode3 (224 + q2) (128 + m2) (128 + m1) = r"
  by (simp add: decode3_def)

lemma decode4_digits:
  "r = 64 * q1 + m1 \<Longrightarrow> q1 = 64 * q2 + m2 \<Longrightarrow> q2 = 64 * q3 + m3 \<Longrightarrow>
   decode4 (240 + q3) (128 + m3) (128 + m2) (128 + m1) = r"
  by (simp add: decode4_def)

lemma decode3_encode: "decode3 (224 + r div 4096) (128 + (r div 64) mod 64) (128 + r mod 64) = r"
  unfolding base64_digits(3)
  by (rule decode3_digits[OF base64_digits(1) base64_digits(1)])

lemma decode4_encode:
  "decode4 (240 + r div 262144) (128 + (r div 4096) mod 64) (128 + (r div 64) mod 64) (128 + r mod 64) = r"
  unfolding base64_digits(3,4)
  by (rule decode4_digits[OF base64_digits(1) base64_digits(1) base64_digits(1)])

lemma cont_byte_low [simp]: "cont_byte (128 + n mod 64)"
proof -
  have "n mod 64 < 64" by simp
  then show ?thesis by (simp add: cont_byte_def)
qed

lemma decode_step_encode:
  assumes "valid_rune r"
  shows "decode_step (encode_rune r @ bs) = (r, length (encode_rune r))"
proof -
  consider "r < 128" | "128 \<le> r" "r < 2048" | "2048 \<le> r" "r < 65536" | "65536 \<le> r" "r < 1114112"
    using assms by (fastforce simp: valid_rune_def)
  then show ?thesis
  proof cases
    case 1
    then show ?thesis using assms by (simp add: encode_rune_def)
  next
    case 2
    then have "194 \<le> 192 + r div 64" "192 + r div 64 < 224" by auto
    then show ?thesis using assms 2
      by (simp add: encode_rune_def decode_step.simps(2) decode2_encode)
  next
    case 3
    obtain q1 m1 q2 m2 where d: "r = 64 * q1 + m1" "m1 < 64" "q1 = 64 * q2 + m2" "m2 < 64"
      "r div 4096 = q2" "(r div 64) mod 64 = m2" "r mod 64 = m1"
      using base64_digits[of r] base64_digits(1,2)[of "r div 64"] by metis
    have "224 + q2 < 240" "224 + q2 = 224 \<longrightarrow> 160 \<le> 128 + m2" "224 + q2 = 237 \<longrightarrow> 128 + m2 < 160"
      using assms 3 d(1-4) unfolding valid_rune_def by auto
    moreover have "decode3 (224 + q2) (128 + m2) (128 + m1) = r"
      using d by (intro decode3_digits)
    moreover have "cont_byte (128 + m1)" "cont_byte (128 + m2)"
      using d by (simp_all add: cont_byte_def)
    moreover have "encode_rune r = [224 + q2, 128 + m2, 128 + m1]"
      using assms 3 by (simp add: encode_rune_def d(5-7))
    ultimately show ?thesis by (simp add: decode_step.simps(2))
  next
    case 4
    obtain q1 m1 q2 m2 q3 m3 where d: "r = 64 * q1 + m1" "m1 < 64" "q1 = 64 * q2 + m2" "m2 < 64"
      "q2 = 64 * q3 + m3" "m3 < 64"
      "r div 262144 = q3" "(r div 4096) mod 64 = m3" "(r div 64) mod 64 = m2" "r mod 64 = m1"
      using base64_digits[of r] base64_digits(1,2)[of "r div 64"] base64_digits(1,2)[of "r div 4096"]
      by metis
    have "240 + q3 < 245" "240 + q3 = 240 \<longrightarrow> 144 \<le> 128 + m3" "240 + q3 = 244 \<longrightarrow> 128 + m3 < 144"
      using 4 d(1-6) by auto
    moreover have "decode4 (240 + q3) (128 + m3) (128 + m2) (128 + m1) = r"
      using d by (intro decode4_digits)
    moreover have "cont_byte (128 + m1)" "cont_byte (128 + m2)" "cont_byte (128 + m3)"
      using d by (simp_all add: cont_byte_def)
    moreover have "encode_rune r = [240 + q3, 128 + m3, 128 + m2, 128 + m1]"
      using assms 4 by (simp add: encode_rune_def d(7-10))
    ultimately show ?thesis by (simp add: decode_step.simps(2))
  qed
qed

lemma encode_rune_not_Nil [simp]: "encode_rune r \<noteq> []"
  by (simp add: encode_rune_def Let_def)

lemma decode_bytes_encode:
  "list_all valid_rune rs \<Longrightarrow> decode_bytes (concat (map encode_rune rs)) = rs"
proof (induction rs)
  case (Cons r rs)
  obtain b bs where enc: "encode_rune r = b # bs" by (cases "encode_rune r") auto
  have "decode_step (b # bs @ concat (map encode_rune rs)) = (r, length (encode_rune r))"
    using decode_step_encode[of r "concat (map encode_rune rs)"] Cons.prems enc by simp
  then show ?case using Cons enc by simp
qed simp

lemma encode_rune_byte: "b \<in> set (encode_rune r) \<Longrightarrow> b < 256"
  by (auto simp: encode_rune_def Let_def valid_rune_def RuneError_def split: if_splits)

lemma bytes_of_string_of_bytes: "list_all (\<lambda>b. b < 256) bs \<Longrightarrow> bytes_of (string_of_bytes bs) = bs"
  by (induction bs) (simp_all add: bytes_of_def string_of_bytes_def)

lemma runes_string_of_runes:
  assumes "list_all valid_rune rs"
  shows "runes (string_of_runes rs) = rs"
proof -
  have "list_all (\<lambda>b. b < 256) (concat (map encode_rune rs))"
    by (auto simp: list_all_iff dest: encode_rune_byte)
  with assms show ?thesis
    by (simp add: runes_def string_of_runes_def bytes_of_string_of_bytes decode_bytes_encode)
qed

lemma valid_rune_RuneError [simp]: "valid_rune RuneError"
  by (simp add: valid_rune_def RuneError_def)

lemma cont_byteE:
  assumes "cont_byte b" obtains x where "b = 128 + x" and "x < 64"
  using assms unfolding cont_byte_def by (auto dest: le_Suc_ex)

lemma decode2_valid: "192 \<le> b0 \<Longrightarrow> b0 < 224 \<Longrightarrow> cont_byte b1 \<Longrightarrow> valid_rune (decode2 b0 b1)"
  by (auto elim!: cont_byteE dest!: le_Suc_ex simp: valid_rune_def decode2_def)

lemma decode3_valid:
  assumes "224 \<le> b0" "b0 < 240" and "cont_byte b1" and "cont_byte b2" and "b0 = 237 \<longrightarrow> b1 < 160"
  shows "valid_rune (decode3 b0 b1 b2)"
proof -
  obtain x0 where x0: "b0 = 224 + x0" using assms(1) by (auto dest: le_Suc_ex)
  obtain x1 where x1: "b1 = 128 + x1" "x1 < 64" using assms(3) by (rule cont_byteE)
  obtain x2 where x2: "b2 = 128 + x2" "x2 < 64" using assms(4) by (rule cont_byteE)
  have v: "decode3 b0 b1 b2 = 4096 * x0 + 64 * x1 + x2" by (simp add: decode3_def x0 x1 x2)
  consider "x0 \<le> 12" | "x0 = 13" | "14 \<le> x0" by linarith
  then show ?thesis unfolding valid_rune_def v
    by cases (use assms x0 x1 x2 in simp_all)
qed

lemma decode4_valid:
  assumes "240 \<le> b0" "b0 < 245" and "cont_byte b1" "cont_byte b2" "cont_byte b3"
    and "b0 = 240 \<longrightarrow> 144 \<le> b1" and "b0 = 244 \<longrightarrow> b1 < 144"
  shows "valid_rune (decode4 b0 b1 b2 b3)"
proof -
  obtain x0 where x0: "b0 = 240 + x0" using assms(1) by (auto dest: le_Suc_ex)
  obtain x1 where x1: "b1 = 128 + x1" "x1 < 64" using assms(3) by (rule cont_byteE)
  obtain x2 where x2: "b2 = 128 + x2" "x2 < 64" using assms(4) by (rule cont_byteE)
  obtain x3 where x3: "b3 = 128 + x3" "x3 < 64" using assms(5) by (rule cont_byteE)
  have v: "decode4 b0 b1 b2 b3 = 262144 * x0 + 4096 * x1 + 64 * x2 + x3"
    by (simp add: decode4_def x0 x1 x2 x3)
  consider "x0 = 0" | "1 \<le> x0" "x0 \<le> 3" | "x0 = 4" using assms x0 by linarith
  then show ?thesis unfolding valid_rune_def v
    by cases (use assms x0 x1 x2 x3 in simp_all)
qed

lemma decode_step_valid: "valid_rune (fst (decode_step (b # bs)))"
proof -
  consider "b < 128" | "194 \<le> b" "b < 224" | "224 \<le> b" "b < 240" | "240 \<le> b" "b < 245"
    | "128 \<le> b" "b < 194 \<or> 245 \<le> b" by linarith
  then show ?thesis
  proof cases
    case 1
    then show ?thesis by (simp add: valid_rune_def)
  next
    case 2
    then show ?thesis by (cases bs) (simp_all add: decode_step.simps(2) decode2_valid)
  next
    case 3
    then show ?thesis
      by (simp add: decode_step.simps(2) decode3_valid split: list.split)
  next
    case 4
    then show ?thesis
      by (simp add: decode_step.simps(2) decode4_valid split: list.split)
  next
    case 5
    then show ?thesis by (auto simp: decode_step.simps(2))
  qed
qed

lemma decode_bytes_valid: "list_all valid_rune (decode_bytes bs)"
proof (induction bs rule: decode_bytes.induct)
  case (2 b bs)
  then show ?case
    using decode_step_valid[of b bs] by (cases "decode_step (b # bs)") simp
qed simp

lemma runes_valid [simp]: "list_all valid_rune (runes s)"
  by (simp add: runes_def decode_bytes_valid)

section \<open>Letter case\<close>

record unicode_tables =
  u_upper :: "nat \<Rightarrow> bool"     \<comment> \<open>\<open>unicode.IsUpper\<close> beyond ASCII\<close>
  u_lower :: "nat \<Rightarrow> nat"      \<comment> \<open>\<open>unicode.ToLower\<close> beyond ASCII\<close>
  u_fold :: "nat \<Rightarrow> nat"       \<comment> \<open>the representative of a rune's simple-folding orbit, beyond ASCII\<close>

definition IsUpper :: "unicode_tables \<Rightarrow> nat \<Rightarrow> bool" where
  "IsUpper U r = (if r < 128 then 65 \<le> r \<and> r \<le> 90 else u_upper U r)"

definition ToLower :: "unicode_tables \<Rightarrow> nat \<Rightarrow> nat" where
  "ToLower U r = (if r < 128 then (if 65 \<le> r \<and> r \<le> 90 then r + 32 else r) else u_lower U r)"

definition fold_rune :: "unicode_tables \<Rightarrow> nat \<Rightarrow> nat" where
  "fold_rune U r = (if r < 128 then (if 65 \<le> r \<and> r \<le> 90 then r + 32 else r) else u_fold U r)"

definition EqualFold :: "unicode_tables \<Rightarrow> string \<Rightarrow> string \<Rightarrow> bool" where
  "EqualFold U s t \<longleftrightarrow> map (fold_rune U) (runes s) = map (fold_rune U) (runes t)"

lemma EqualFold_refl [simp]: "EqualFold U s s"
  by (simp add: EqualFold_def)

lemma EqualFold_sym: "EqualFold U s t \<longleftrightarrow> EqualFold U t s"
  by (auto simp: EqualFold_def)

lemma EqualFold_trans: "EqualFold U s t \<Longrightarrow> EqualFold U t u \<Longrightarrow> EqualFold U s u"
  by (simp add: EqualFold_def)

text \<open>Instance of the tables used to evaluate examples: no letters beyond ASCII.\<close>

definition ascii_tables :: unicode_tables where
  "ascii_tables = \<lparr>u_upper = (\<lambda>_. False), u_lower = id, u_fold = id\<rparr>"

section \<open>Decimal text: \<open>%d\<close>\<close>

fun nat_text :: "nat \<Rightarrow> string" where
  "nat_text n = (if n < 10 then [char_of (48 + n)] else nat_text (n div 10) @ [char_of (48 + n mod 10)])"

declare nat_text.simps [simp del]

definition int_text :: "int \<Rightarrow> string" where
  "int_text i = (if i < 0 then ''-'' @ nat_text (nat (- i)) else nat_text (nat i))"

lemma nat_text_not_Nil [simp]: "nat_text n \<noteq> []"
  by (subst nat_text.simps) simp

lemma nat_text_digits: "c \<in> set (nat_text n) \<Longrightarrow> 48 \<le> (of_char c :: nat) \<and> (of_char c :: nat) \<le> 57"
proof (induction n rule: nat_text.induct)
  case (1 n)
  have m: "(48 + n mod 10) mod 256 = 48 + n mod 10" by (rule mod_less) (use mod_less_divisor[of 10 n] in linarith)
  show ?case
  proof (cases "n < 10")
    case True
    with 1(2) show ?thesis by (subst (asm) nat_text.simps) simp
  next
    case False
    with 1(2) have "c \<in> set (nat_text (n div 10)) \<or> c = char_of (48 + n mod 10)"
      by (subst (asm) nat_text.simps) auto
    then show ?thesis
    proof
      assume "c = char_of (48 + n mod 10)"
      then have "(of_char c :: nat) = 48 + n mod 10" by (simp add: m)
      then show ?thesis using mod_less_divisor[of 10 n] by simp
    qed (rule 1(1)[OF False])
  qed
qed

end
