(* ===== verification/SyncMap.thy ===== *)
theory SyncMap
  imports GoStrings
begin

text \<open>
  \<open>sync.Map\<close> of the Go standard library, as the repository uses it, the helpers of
  \<open>common/utils/utils.go\<close> over it (\<open>ClearSyncMap\<close>, \<open>StorSyncMapFromNormalMap\<close>,
  \<open>GetNormalMapFromSyncMap\<close>), and the interface \<open>kv_store\<close> that these maps and the connection
  storage provide to their clients.

  \<open>Load\<close> is \<open>map_of\<close>, \<open>Store\<close> is \<open>AList.update\<close> and \<open>Delete\<close> is \<open>AList.delete\<close>; \<open>Range\<close> visits the
  entries present when it starts, in the order of the list. Keys and values of a \<open>sync.Map\<close> have type
  \<open>any\<close>; where the code asserts their dynamic type they are \<open>any_val\<close>.
\<close>

datatype any_val = StrVal string | OtherVal nat

type_synonym any_map = "(any_val, any_val) gomap"

section \<open>The interface\<close>

locale kv_store =
  fixes lookup :: "'m \<Rightarrow> 'k \<Rightarrow> 'v option"
    and store :: "'k \<Rightarrow> 'v \<Rightarrow> 'm \<Rightarrow> 'm"
    and delete :: "'k \<Rightarrow> 'm \<Rightarrow> 'm"
    and inv :: "'m \<Rightarrow> bool"
  assumes lookup_store: "inv m \<Longrightarrow> lookup (store k v m) = (lookup m)(k \<mapsto> v)"
    and lookup_delete: "inv m \<Longrightarrow> lookup (delete k m) = (lookup m)(k := None)"
    and inv_store: "inv m \<Longrightarrow> inv (store k v m)"
    and inv_delete: "inv m \<Longrightarrow> inv (delete k m)"
begin

lemmas kv_laws = lookup_store lookup_delete inv_store inv_delete

lemma inv_store_all: "inv m \<Longrightarrow> inv (fold (\<lambda>(k, v). store k v) kvs m)"
  by (induction kvs arbitrary: m) (auto simp: kv_laws)

lemma lookup_store_all:
  "inv m \<Longrightarrow> lookup (fold (\<lambda>(k, v). store k v) kvs m) = lookup m ++ map_of (rev kvs)"
  by (induction kvs arbitrary: m) (auto simp: kv_laws map_add_def fun_eq_iff split: option.splits)

lemma inv_delete_all: "inv m \<Longrightarrow> inv (fold delete ks m)"
  by (induction ks arbitrary: m) (auto simp: kv_laws)

lemma lookup_delete_all: "inv m \<Longrightarrow> lookup (fold delete ks m) = (lookup m) |` (- set ks)"
  by (induction ks arbitrary: m) (auto simp: kv_laws restrict_map_def fun_eq_iff)

lemma lookup_delete_all_dom: "inv m \<Longrightarrow> dom (lookup m) \<subseteq> set ks \<Longrightarrow> lookup (fold delete ks m) = Map.empty"
  by (auto simp: lookup_delete_all restrict_map_def fun_eq_iff)

end

section \<open>\<open>sync.Map\<close>\<close>

definition sm_Load :: "('k, 'v) gomap \<Rightarrow> 'k \<Rightarrow> 'v option" where
  "sm_Load m k = map_of m k"

definition sm_Store :: "'k \<Rightarrow> 'v \<Rightarrow> ('k, 'v) gomap \<Rightarrow> ('k, 'v) gomap" where
  "sm_Store k v m = AList.update k v m"

definition sm_Delete :: "'k \<Rightarrow> ('k, 'v) gomap \<Rightarrow> ('k, 'v) gomap" where
  "sm_Delete k m = AList.delete k m"

definition sm_ok :: "('k, 'v) gomap \<Rightarrow> bool" where
  "sm_ok m \<longleftrightarrow> distinct (map fst m)"

lemma sm_Load_map_of: "sm_Load m = map_of m"
  by (simp add: sm_Load_def fun_eq_iff)

lemma sm_ok_Nil [simp]: "sm_ok []"
  by (simp add: sm_ok_def)

interpretation sm: kv_store sm_Load sm_Store sm_Delete sm_ok
  by unfold_locales
    (auto simp: sm_Load_map_of sm_Store_def sm_Delete_def sm_ok_def gomap_simps
      distinct_update distinct_delete)

section \<open>Helpers of \<open>utils.go\<close>\<close>

definition ClearSyncMap :: "('k, 'v) gomap \<Rightarrow> ('k, 'v) gomap" where
  "ClearSyncMap m = fold (\<lambda>(key, _). sm_Delete key) m m"

definition StorSyncMapFromNormalMap :: "(string, string) gomap \<Rightarrow> any_map \<Rightarrow> any_map" where
  "StorSyncMapFromNormalMap normalMap m =
     fold (\<lambda>(key, val). sm_Store (StrVal key) (StrVal val)) normalMap m"

definition normal_entry :: "any_val \<times> any_val \<Rightarrow> (string, string) gomap \<Rightarrow> (string, string) gomap" where
  "normal_entry kv normalMap =
     (case kv of
        (StrVal keyStr, StrVal valStr) \<Rightarrow> AList.update keyStr valStr normalMap
      | _ \<Rightarrow> normalMap)"

definition GetNormalMapFromSyncMap :: "any_map \<Rightarrow> (string, string) gomap" where
  "GetNormalMapFromSyncMap m = fold normal_entry m []"

lemma ClearSyncMap_fold: "ClearSyncMap m = fold sm_Delete (map fst m) m"
proof -
  have "fold (\<lambda>(key, _). sm_Delete key) xs m' = fold sm_Delete (map fst xs) m'"
    for xs :: "('a \<times> 'b) list" and m' :: "('a, 'b) gomap"
    by (induction xs arbitrary: m') auto
  then show ?thesis by (simp add: ClearSyncMap_def)
qed

lemma ClearSyncMap_empty:
  assumes "sm_ok m"
  shows "sm_Load (ClearSyncMap m) = Map.empty"
  unfolding ClearSyncMap_fold using assms
  by (rule sm.lookup_delete_all_dom) (simp add: sm_Load_map_of dom_map_of_conv_image_fst)

lemma normal_entry_simps [simp]:
  "normal_entry (StrVal k, StrVal v) n = AList.update k v n"
  "normal_entry (OtherVal i, b) n = n"
  "normal_entry (a, OtherVal j) n = n"
  by (simp_all add: normal_entry_def split: any_val.split)

lemma StorSyncMap_fold:
  "StorSyncMapFromNormalMap n m = fold (\<lambda>(k, v). sm_Store k v) (map (\<lambda>(k, v). (StrVal k, StrVal v)) n) m"
  unfolding StorSyncMapFromNormalMap_def
  by (induction n arbitrary: m) auto

lemma StorSyncMap_ok: "sm_ok m \<Longrightarrow> sm_ok (StorSyncMapFromNormalMap n m)"
  by (simp add: StorSyncMap_fold sm.inv_store_all)

lemma map_of_StrVal_map:
  "map_of (map (\<lambda>(k, v). (StrVal k, StrVal v)) n) (StrVal k) = map_option StrVal (map_of n k)"
  by (induction n) auto

lemma StorSyncMap_lookup:
  assumes "sm_ok m" and "distinct (map fst n)"
  shows "sm_Load (StorSyncMapFromNormalMap n m) (StrVal k) =
         (case map_of n k of None \<Rightarrow> sm_Load m (StrVal k) | Some v \<Rightarrow> Some (StrVal v))"
proof -
  have "map_of (rev n) = map_of n"
    using assms(2) by (intro map_of_perm_eq) (auto simp: rev_map[symmetric])
  then show ?thesis using assms(1)
    by (simp add: StorSyncMap_fold sm.lookup_store_all rev_map map_of_StrVal_map map_add_def
        split: option.splits)
qed

lemma StorSyncMap_lookup_other:
  "sm_ok m \<Longrightarrow> sm_Load (StorSyncMapFromNormalMap n m) (OtherVal i) = sm_Load m (OtherVal i)"
proof -
  have "map_of (map (\<lambda>(k, v). (StrVal k, StrVal v)) xs) (OtherVal i) = None" for xs
    by (induction xs) auto
  then show "sm_ok m \<Longrightarrow> ?thesis"
    by (simp add: StorSyncMap_fold sm.lookup_store_all rev_map map_add_def)
qed

lemma normal_fold_distinct: "distinct (map fst n) \<Longrightarrow> distinct (map fst (fold normal_entry m n))"
  by (induction m arbitrary: n)
    (auto simp: normal_entry_def distinct_update split: any_val.splits)

lemma GetNormalMap_distinct: "distinct (map fst (GetNormalMapFromSyncMap m))"
  by (simp add: GetNormalMapFromSyncMap_def normal_fold_distinct)

definition str_view :: "any_map \<Rightarrow> string \<Rightarrow> string option" where
  "str_view m k = (case sm_Load m (StrVal k) of Some (StrVal v) \<Rightarrow> Some v | _ \<Rightarrow> None)"

lemma normal_fold_lookup:
  "sm_ok m \<Longrightarrow> map_of (fold normal_entry m n) k =
     (case str_view m k of None \<Rightarrow> map_of n k | Some v \<Rightarrow> Some v)"
proof (induction m arbitrary: n)
  case Nil
  then show ?case by (simp add: str_view_def sm_Load_map_of)
next
  case (Cons kv m)
  obtain a b where kv: "kv = (a, b)" by (cases kv)
  have ok: "sm_ok m" and fresh: "map_of m a = None"
    using Cons.prems by (auto simp: kv sm_ok_def)
  have IH: "map_of (fold normal_entry m n') k =
     (case str_view m k of None \<Rightarrow> map_of n' k | Some v \<Rightarrow> Some v)" for n'
    using Cons.IH ok by blast
  show ?case
  proof (cases "a = StrVal k")
    case True
    with fresh have "str_view m k = None" by (simp add: str_view_def sm_Load_map_of)
    with True IH show ?thesis
      by (cases b) (simp_all add: kv str_view_def sm_Load_map_of gomap_simps)
  next
    case False
    then have "str_view (kv # m) k = str_view m k" by (simp add: kv str_view_def sm_Load_map_of)
    moreover have "map_of (normal_entry kv n) k = map_of n k"
      using False by (auto simp: kv normal_entry_def gomap_simps split: any_val.splits)
    ultimately show ?thesis using IH by (simp split: option.split)
  qed
qed

lemma GetNormalMap_lookup: "sm_ok m \<Longrightarrow> map_of (GetNormalMapFromSyncMap m) = str_view m"
  by (rule ext) (simp add: GetNormalMapFromSyncMap_def normal_fold_lookup split: option.split)

end
