(* ===== verification/NacosClient.thy ===== *)
theory NacosClient
  imports SyncMap
begin

text \<open>
  \<open>component/nacos/base/nacos-client.go\<close>: the Nacos configuration client.

  \<open>ConfigParam\<close> is the repository's parameter struct and \<open>vo_ConfigParam\<close> the SDK's, which has one
  field more, the \<open>OnChange\<close> callback. The callback that \<open>WatchConfig\<close> installs is a closure over the
  caller's parameter and handler, so it is the pair of these two; its body is \<open>OnChange_body\<close>.

  The Nacos SDK is not part of the repository. It is the record \<open>config_client\<close> of the three calls the
  code makes, each a function on an opaque outside world \<open>'w\<close>. \<open>retry.Do\<close> of \<open>avast/retry-go\<close> is the
  parameter \<open>R\<close>; what the code relies on is \<open>retry_law\<close>: with \<open>Attempts(2)\<close> and
  \<open>LastErrorOnly(true)\<close> a failed first attempt is followed by a second one, whose result stands.

  A handler acts on the application's state \<open>'a\<close> and may panic. Logging is not modelled here.
\<close>

section \<open>Parameters and environment\<close>

record ConfigParam =
  cp_DataId :: string
  cp_Group :: string
  cp_Content :: string
  cp_Tag :: string
  cp_AppName :: string
  cp_BetaIps :: string
  cp_CasMd5 :: string
  cp_Type :: string
  cp_SrcUser :: string
  cp_EncryptedDataKey :: string
  cp_KmsKeyId :: string
  cp_UsageType :: string

definition zero_ConfigParam :: ConfigParam where
  "zero_ConfigParam =
     \<lparr>cp_DataId = [], cp_Group = [], cp_Content = [], cp_Tag = [], cp_AppName = [], cp_BetaIps = [],
      cp_CasMd5 = [], cp_Type = [], cp_SrcUser = [], cp_EncryptedDataKey = [], cp_KmsKeyId = [],
      cp_UsageType = []\<rparr>"

type_synonym 'a Handler = "string \<Rightarrow> string \<Rightarrow> 'a \<Rightarrow> 'a go"

record 'a vo_ConfigParam =
  vo_DataId :: string
  vo_Group :: string
  vo_Content :: string
  vo_Tag :: string
  vo_AppName :: string
  vo_BetaIps :: string
  vo_CasMd5 :: string
  vo_Type :: string
  vo_SrcUser :: string
  vo_EncryptedDataKey :: string
  vo_KmsKeyId :: string
  vo_UsageType :: string
  vo_OnChange :: "(ConfigParam \<times> 'a Handler) option"

definition changeOwnConfigParam2vo :: "ConfigParam \<Rightarrow> 'a vo_ConfigParam" where
  "changeOwnConfigParam2vo inParam =
     \<lparr>vo_DataId = cp_DataId inParam,
      vo_Group = cp_Group inParam,
      vo_Content = cp_Content inParam,
      vo_Tag = cp_Tag inParam,
      vo_AppName = cp_AppName inParam,
      vo_BetaIps = cp_BetaIps inParam,
      vo_CasMd5 = cp_CasMd5 inParam,
      vo_Type = cp_Type inParam,
      vo_SrcUser = cp_SrcUser inParam,
      vo_EncryptedDataKey = cp_EncryptedDataKey inParam,
      vo_KmsKeyId = cp_KmsKeyId inParam,
      vo_UsageType = cp_UsageType inParam,
      vo_OnChange = None\<rparr>"

record nacos_env =
  ServerName :: string
  NamespaceEnv :: string
  PodName :: string

text \<open>The package's \<open>init\<close>: defaults for the variables read from the environment.\<close>

definition init_nacos_env :: "nacos_env \<Rightarrow> nacos_env" where
  "init_nacos_env E =
     (let E = (if ServerName E = [] then E\<lparr>ServerName := ''common''\<rparr> else E) in
      if NamespaceEnv E = [] then E\<lparr>NamespaceEnv := ''DEFAULT_GROUP''\<rparr> else E)"

record ('w, 'a) config_client =
  cc_PublishConfig :: "'a vo_ConfigParam \<Rightarrow> 'w \<Rightarrow> (bool \<times> gerr option) \<times> 'w"
  cc_ListenConfig :: "'a vo_ConfigParam \<Rightarrow> 'w \<Rightarrow> gerr option \<times> 'w"
  cc_GetConfig :: "'a vo_ConfigParam \<Rightarrow> 'w \<Rightarrow> (string \<times> gerr option) \<times> 'w"

type_synonym 's retry = "nat \<Rightarrow> ('s \<Rightarrow> gerr option \<times> 's) \<Rightarrow> 's \<Rightarrow> gerr option \<times> 's"

definition retry_law :: "'s retry \<Rightarrow> bool" where
  "retry_law R \<longleftrightarrow>
     (\<forall>f s s1. f s = (None, s1) \<longrightarrow> R 2 f s = (None, s1)) \<and>
     (\<forall>f s e s1. f s = (Some e, s1) \<longrightarrow> R 2 f s = f s1)"

text \<open>An instance of the law, used by the examples.\<close>

fun retry_twice :: "'s retry" where
  "retry_twice n f s = (case f s of (None, s1) \<Rightarrow> (None, s1) | (Some e, s1) \<Rightarrow> f s1)"

lemma retry_twice_law: "retry_law retry_twice"
  by (simp add: retry_law_def)

lemma retry_eq:
  "retry_law R \<Longrightarrow> R 2 f s = (case f s of (None, s1) \<Rightarrow> (None, s1) | (Some e, s1) \<Rightarrow> f s1)"
  by (cases "f s") (auto simp: retry_law_def split: option.split)

text \<open>An invariant of one attempt is an invariant of the retried call.\<close>

lemma retry_invariant:
  assumes "retry_law R" and "P s" and "\<And>s. P s \<Longrightarrow> P (snd (f s))"
  shows "P (snd (R 2 f s))"
  using assms(2,3) by (auto simp: retry_eq[OF assms(1)] split: prod.split option.split) (metis snd_conv)+

section \<open>The client's state\<close>

record ('w, 'a) nacos_client =
  nc_world :: 'w
  ConfigCacheMap :: "(ConfigParam, string) gomap"
  ConfigWatchHandleMap :: "(ConfigParam, 'a Handler) gomap"
  nc_app :: 'a

definition nacos_ok :: "('w, 'a) nacos_client \<Rightarrow> bool" where
  "nacos_ok c \<longleftrightarrow> sm_ok (ConfigCacheMap c) \<and> sm_ok (ConfigWatchHandleMap c)"

section \<open>Publishing\<close>

definition publish_attempt ::
    "nacos_env \<Rightarrow> (string \<Rightarrow> string) \<Rightarrow> ('w, 'a) config_client \<Rightarrow> string \<Rightarrow>
     ConfigParam \<times> bool \<times> 'w \<Rightarrow> gerr option \<times> ConfigParam \<times> bool \<times> 'w" where
  "publish_attempt E md5hex C oldData = (\<lambda>(configParam, success, w).
     let configParam = (if oldData \<noteq> [] then configParam\<lparr>cp_CasMd5 := md5hex oldData\<rparr> else configParam);
         configParam = (if cp_Group configParam = [] then configParam\<lparr>cp_Group := NamespaceEnv E\<rparr>
                        else configParam);
         configParam = (if cp_AppName configParam = [] then configParam\<lparr>cp_AppName := ServerName E\<rparr>
                        else configParam);
         ((success, err), w) = cc_PublishConfig C (changeOwnConfigParam2vo configParam) w
     in (err, configParam, success, w))"

text \<open>Results: success and error, the caller's \<open>*configParam\<close> afterwards, and the world.\<close>

definition PublishConfig ::
    "(ConfigParam \<times> bool \<times> 'w) retry \<Rightarrow> nacos_env \<Rightarrow> (string \<Rightarrow> string) \<Rightarrow> ('w, 'a) config_client \<Rightarrow>
     ConfigParam \<Rightarrow> string \<Rightarrow> 'w \<Rightarrow> (bool \<times> gerr option) \<times> ConfigParam \<times> 'w" where
  "PublishConfig R E md5hex C configParam oldData w =
     (let (err, configParam, success, w) =
            R 2 (publish_attempt E md5hex C oldData) (configParam, False, w)
      in ((success, err), configParam, w))"

section \<open>Reading\<close>

definition default_group :: "nacos_env \<Rightarrow> 'a vo_ConfigParam \<Rightarrow> 'a vo_ConfigParam" where
  "default_group E p = (if vo_Group p = [] then p\<lparr>vo_Group := NamespaceEnv E\<rparr> else p)"

definition get_attempt ::
    "nacos_env \<Rightarrow> ('w, 'a) config_client \<Rightarrow> ConfigParam \<Rightarrow>
     'a vo_ConfigParam \<times> string \<times> ('w, 'a) nacos_client \<Rightarrow>
     gerr option \<times> 'a vo_ConfigParam \<times> string \<times> ('w, 'a) nacos_client" where
  "get_attempt E C inParam = (\<lambda>(configParam, data, c).
     let configParam = default_group E configParam;
         ((content, err), w) = cc_GetConfig C configParam (nc_world c);
         c = c\<lparr>nc_world := w\<rparr>
     in case err of
          Some e \<Rightarrow> (Some e, configParam, data, c)
        | None \<Rightarrow> (None, configParam, content,
                   c\<lparr>ConfigCacheMap := sm_Store inParam content (ConfigCacheMap c)\<rparr>))"

type_synonym ('w, 'a) get_retry = "('a vo_ConfigParam \<times> string \<times> ('w, 'a) nacos_client) retry"

definition GetConfig ::
    "('w, 'a) get_retry \<Rightarrow> nacos_env \<Rightarrow> ('w, 'a) config_client \<Rightarrow> ConfigParam \<Rightarrow>
     ('w, 'a) nacos_client \<Rightarrow> (string \<times> gerr option) \<times> ('w, 'a) nacos_client" where
  "GetConfig R E C inParam c =
     (let (err, _, data, c) = R 2 (get_attempt E C inParam) (changeOwnConfigParam2vo inParam, [], c)
      in ((data, err), c))"

section \<open>Watching\<close>

definition OnChange_body ::
    "ConfigParam \<Rightarrow> 'a Handler \<Rightarrow> string \<Rightarrow> string \<Rightarrow> ('w, 'a) nacos_client \<Rightarrow> ('w, 'a) nacos_client go" where
  "OnChange_body inParam handler dataId data c =
     go_bind (handler dataId data (nc_app c)) (\<lambda>a.
       Ret (c\<lparr>nc_app := a, ConfigCacheMap := sm_Store inParam data (ConfigCacheMap c)\<rparr>))"

definition watch_attempt ::
    "nacos_env \<Rightarrow> ('w, 'a) config_client \<Rightarrow> ConfigParam \<Rightarrow> 'a Handler \<Rightarrow>
     'a vo_ConfigParam \<times> ('w, 'a) nacos_client \<Rightarrow>
     gerr option \<times> 'a vo_ConfigParam \<times> ('w, 'a) nacos_client" where
  "watch_attempt E C inParam handler = (\<lambda>(configParam, c).
     let configParam = (default_group E configParam)\<lparr>vo_OnChange := Some (inParam, handler)\<rparr>;
         (err, w) = cc_ListenConfig C configParam (nc_world c);
         c = c\<lparr>nc_world := w\<rparr>
     in case err of
          Some e \<Rightarrow> (Some e, configParam, c)
        | None \<Rightarrow> (None, configParam,
                   c\<lparr>ConfigWatchHandleMap := sm_Store inParam handler (ConfigWatchHandleMap c)\<rparr>))"

type_synonym ('w, 'a) watch_retry = "('a vo_ConfigParam \<times> ('w, 'a) nacos_client) retry"

definition WatchConfig ::
    "('w, 'a) watch_retry \<Rightarrow> nacos_env \<Rightarrow> ('w, 'a) config_client \<Rightarrow> ConfigParam \<Rightarrow> 'a Handler \<Rightarrow>
     ('w, 'a) nacos_client \<Rightarrow> gerr option \<times> ('w, 'a) nacos_client" where
  "WatchConfig R E C inParam handler c =
     (let (err, _, c) = R 2 (watch_attempt E C inParam handler) (changeOwnConfigParam2vo inParam, c)
      in (err, c))"

definition GetAndWatchConfig ::
    "('w, 'a) get_retry \<Rightarrow> ('w, 'a) watch_retry \<Rightarrow> nacos_env \<Rightarrow> ('w, 'a) config_client \<Rightarrow> string \<Rightarrow>
     'a Handler \<Rightarrow> ('w, 'a) nacos_client \<Rightarrow> (gerr option \<times> ('w, 'a) nacos_client) go" where
  "GetAndWatchConfig R RW E C key handler c =
     (let param = zero_ConfigParam\<lparr>cp_Group := NamespaceEnv E, cp_DataId := key\<rparr>;
          ((cfg, err), c) = GetConfig R E C param c
      in go_bind
           (case err of
              Some e \<Rightarrow> Ret c
            | None \<Rightarrow> go_map (\<lambda>a. c\<lparr>nc_app := a\<rparr>) (handler key cfg (nc_app c)))
           (\<lambda>c. Ret (err, snd (WatchConfig RW E C param handler c))))"

section \<open>Refreshing\<close>

definition refresh_entry ::
    "('w, 'a) get_retry \<Rightarrow> nacos_env \<Rightarrow> ('w, 'a) config_client \<Rightarrow> ConfigParam \<times> 'a Handler \<Rightarrow>
     ('w, 'a) nacos_client \<Rightarrow> ('w, 'a) nacos_client go" where
  "refresh_entry R E C = (\<lambda>(configParam, handler) c.
     let ((data, err), c) = GetConfig R E C configParam c in
     if err \<noteq> None then Ret c
     else if sm_Load (ConfigCacheMap c) configParam = Some data then Ret c
     else go_map (\<lambda>a. c\<lparr>ConfigCacheMap := sm_Store configParam data (ConfigCacheMap c), nc_app := a\<rparr>)
            (handler (cp_DataId configParam) data (nc_app c)))"

definition refresh_tick ::
    "('w, 'a) get_retry \<Rightarrow> nacos_env \<Rightarrow> ('w, 'a) config_client \<Rightarrow>
     ('w, 'a) nacos_client \<Rightarrow> ('w, 'a) nacos_client go" where
  "refresh_tick R E C c = go_fold (refresh_entry R E C) (ConfigWatchHandleMap c) c"

text \<open>The goroutine of \<open>RefreshConfig\<close>, driven by what its \<open>select\<close> receives.\<close>

datatype refresh_event = CtxDone | Ticker

fun RefreshConfig ::
    "('w, 'a) get_retry \<Rightarrow> nacos_env \<Rightarrow> ('w, 'a) config_client \<Rightarrow> refresh_event list \<Rightarrow>
     ('w, 'a) nacos_client \<Rightarrow> ('w, 'a) nacos_client go" where
  "RefreshConfig R E C [] c = Ret c"
| "RefreshConfig R E C (CtxDone # evs) c = Ret c"
| "RefreshConfig R E C (Ticker # evs) c = go_bind (refresh_tick R E C c) (RefreshConfig R E C evs)"

section \<open>What one attempt does\<close>

lemma get_attempt_effect:
  assumes "get_attempt E C p (v, d, c) = (err, v', d', c')"
  shows "nc_app c' = nc_app c" and "ConfigWatchHandleMap c' = ConfigWatchHandleMap c"
    and "err = None \<Longrightarrow> ConfigCacheMap c' = sm_Store p d' (ConfigCacheMap c)"
    and "err \<noteq> None \<Longrightarrow> ConfigCacheMap c' = ConfigCacheMap c \<and> d' = d"
  using assms by (auto simp: get_attempt_def Let_def split: prod.splits option.splits)

lemma watch_attempt_effect:
  assumes "watch_attempt E C p h (v, c) = (err, v', c')"
  shows "nc_app c' = nc_app c" and "ConfigCacheMap c' = ConfigCacheMap c"
    and "ConfigWatchHandleMap c' =
         (if err = None then sm_Store p h (ConfigWatchHandleMap c) else ConfigWatchHandleMap c)"
  using assms by (auto simp: watch_attempt_def Let_def split: prod.splits option.splits)

lemma sm_Load_Store: "sm_Load (sm_Store k v m) = (sm_Load m)(k \<mapsto> v)"
  by (simp add: sm_Load_map_of sm_Store_def gomap_simps)

text \<open>The effect of \<open>GetConfig\<close>, once and for all: both outcomes, and what never changes.\<close>

lemma GetConfig_effect:
  assumes R: "retry_law R" and g: "GetConfig R E C p c = ((data, err), c')"
  shows "nc_app c' = nc_app c" and "ConfigWatchHandleMap c' = ConfigWatchHandleMap c"
    and "err = None \<Longrightarrow> ConfigCacheMap c' = sm_Store p data (ConfigCacheMap c)"
    and "err \<noteq> None \<Longrightarrow> ConfigCacheMap c' = ConfigCacheMap c \<and> data = []"
proof -
  obtain e1 v1 d1 c1 where a1: "get_attempt E C p (changeOwnConfigParam2vo p, [], c) = (e1, v1, d1, c1)"
    by (metis prod.exhaust)
  have "nc_app c' = nc_app c \<and> ConfigWatchHandleMap c' = ConfigWatchHandleMap c \<and>
    (err = None \<longrightarrow> ConfigCacheMap c' = sm_Store p data (ConfigCacheMap c)) \<and>
    (err \<noteq> None \<longrightarrow> ConfigCacheMap c' = ConfigCacheMap c \<and> data = [])"
  proof (cases e1)
    case None
    with g a1 get_attempt_effect[OF a1] show ?thesis
      by (simp add: GetConfig_def retry_eq[OF R])
  next
    case (Some e)
    obtain e2 v2 d2 c2 where a2: "get_attempt E C p (v1, d1, c1) = (e2, v2, d2, c2)"
      by (metis prod.exhaust)
    from g a1 a2 Some get_attempt_effect[OF a1] get_attempt_effect[OF a2] show ?thesis
      by (simp add: GetConfig_def retry_eq[OF R])
  qed
  then show "nc_app c' = nc_app c" "ConfigWatchHandleMap c' = ConfigWatchHandleMap c"
    "err = None \<Longrightarrow> ConfigCacheMap c' = sm_Store p data (ConfigCacheMap c)"
    "err \<noteq> None \<Longrightarrow> ConfigCacheMap c' = ConfigCacheMap c \<and> data = []"
    by blast+
qed

lemma GetConfig_cached:
  assumes "retry_law R" and "GetConfig R E C p c = ((data, None), c')"
  shows "sm_Load (ConfigCacheMap c') p = Some data"
  using GetConfig_effect(3)[OF assms] by (simp add: sm_Load_Store)

lemma GetConfig_ok:
  assumes "retry_law R" and "GetConfig R E C p c = (r, c')" and "nacos_ok c"
  shows "nacos_ok c'"
proof (cases r)
  case (Pair data err)
  then show ?thesis
    using GetConfig_effect[OF assms(1)] assms(2,3)
    by (cases err) (fastforce simp: nacos_ok_def sm.inv_store)+
qed

lemma WatchConfig_effect:
  assumes R: "retry_law R" and w: "WatchConfig R E C p h c = (err, c')"
  shows "nc_app c' = nc_app c" and "ConfigCacheMap c' = ConfigCacheMap c"
    and "ConfigWatchHandleMap c' =
         (if err = None then sm_Store p h (ConfigWatchHandleMap c) else ConfigWatchHandleMap c)"
proof -
  obtain e1 v1 c1 where a1: "watch_attempt E C p h (changeOwnConfigParam2vo p, c) = (e1, v1, c1)"
    by (metis prod.exhaust)
  have "nc_app c' = nc_app c \<and> ConfigCacheMap c' = ConfigCacheMap c \<and> ConfigWatchHandleMap c' =
         (if err = None then sm_Store p h (ConfigWatchHandleMap c) else ConfigWatchHandleMap c)"
  proof (cases e1)
    case None
    with w a1 watch_attempt_effect[OF a1] show ?thesis
      by (simp add: WatchConfig_def retry_eq[OF R])
  next
    case (Some e)
    obtain e2 v2 c2 where a2: "watch_attempt E C p h (v1, c1) = (e2, v2, c2)"
      by (metis prod.exhaust)
    from w a1 a2 Some watch_attempt_effect[OF a1] watch_attempt_effect[OF a2] show ?thesis
      by (simp add: WatchConfig_def retry_eq[OF R])
  qed
  then show "nc_app c' = nc_app c" "ConfigCacheMap c' = ConfigCacheMap c"
    "ConfigWatchHandleMap c' =
       (if err = None then sm_Store p h (ConfigWatchHandleMap c) else ConfigWatchHandleMap c)"
    by blast+
qed

lemma WatchConfig_ok:
  assumes "retry_law R" and "WatchConfig R E C p h c = (err, c')" and "nacos_ok c"
  shows "nacos_ok c'"
  using WatchConfig_effect[OF assms(1,2)] assms(3) by (simp add: nacos_ok_def sm.inv_store)

section \<open>The refresh never reaches a handler\<close>

lemma refresh_entry_returns:
  assumes "retry_law R"
  obtains c' where "refresh_entry R E C ph c = Ret c'" and "nc_app c' = nc_app c"
    and "ConfigWatchHandleMap c' = ConfigWatchHandleMap c"
proof -
  obtain p h where ph: "ph = (p, h)" by (cases ph)
  obtain data err c1 where g: "GetConfig R E C p c = ((data, err), c1)"
    by (metis prod.exhaust_sel)
  have "refresh_entry R E C ph c = Ret c1"
    using GetConfig_cached[OF assms] g by (auto simp: refresh_entry_def ph)
  then show thesis using GetConfig_effect(1,2)[OF assms g] that by blast
qed

lemma refresh_fold_returns:
  assumes "retry_law R"
  shows "\<exists>c'. go_fold (refresh_entry R E C) phs c = Ret c' \<and> nc_app c' = nc_app c \<and>
              ConfigWatchHandleMap c' = ConfigWatchHandleMap c"
proof (induction phs arbitrary: c)
  case (Cons ph phs)
  obtain c1 where "refresh_entry R E C ph c = Ret c1" "nc_app c1 = nc_app c"
    "ConfigWatchHandleMap c1 = ConfigWatchHandleMap c"
    using refresh_entry_returns[OF assms] by blast
  then show ?case using Cons[of c1] by auto
qed simp

lemma RefreshConfig_returns:
  assumes "retry_law R"
  shows "\<exists>c'. RefreshConfig R E C evs c = Ret c' \<and> nc_app c' = nc_app c \<and>
              ConfigWatchHandleMap c' = ConfigWatchHandleMap c"
proof (induction evs arbitrary: c)
  case (Cons ev evs)
  show ?case
  proof (cases ev)
    case Ticker
    obtain c1 where "refresh_tick R E C c = Ret c1" "nc_app c1 = nc_app c"
      "ConfigWatchHandleMap c1 = ConfigWatchHandleMap c"
      using refresh_fold_returns[OF assms] unfolding refresh_tick_def by blast
    with Ticker Cons[of c1] show ?thesis by auto
  qed simp
qed simp

text \<open>
  C17: However often the ticker of \<open>RefreshConfig\<close> fires, and whatever configuration the server
  returns, the goroutine finishes every tick without running a handler: the application state is
  the one it started from. (\<open>GetConfig\<close> has already stored the new content in the cache that
  the refresh compares it with.)
\<close>

theorem refresh_never_runs_handler:
  assumes "retry_law R"
  shows "\<exists>c'. RefreshConfig R E C evs c = Ret c' \<and> nc_app c' = nc_app c \<and>
              ConfigWatchHandleMap c' = ConfigWatchHandleMap c"
  using assms by (rule RefreshConfig_returns)

section \<open>Specifications of publishing and reading\<close>

text \<open>The parameter that a publish sends: the caller's, with the empty fields filled in.\<close>

definition published_param :: "nacos_env \<Rightarrow> (string \<Rightarrow> string) \<Rightarrow> string \<Rightarrow> ConfigParam \<Rightarrow> ConfigParam" where
  "published_param E md5hex oldData p = p
     \<lparr>cp_CasMd5 := (if oldData = [] then cp_CasMd5 p else md5hex oldData),
      cp_Group := (if cp_Group p = [] then NamespaceEnv E else cp_Group p),
      cp_AppName := (if cp_AppName p = [] then ServerName E else cp_AppName p)\<rparr>"

lemma published_param_idem: "published_param E m d (published_param E m d p) = published_param E m d p"
  by (simp add: published_param_def)

lemma publish_attempt_eq:
  "publish_attempt E m C d (p, s, w) =
     (let ((ok, err), w') = cc_PublishConfig C (changeOwnConfigParam2vo (published_param E m d p)) w
      in (err, published_param E m d p, ok, w'))"
  by (simp add: publish_attempt_def published_param_def Let_def)

lemma PublishConfig_eq:
  assumes "retry_law R"
  shows "PublishConfig R E md5hex C p oldData w =
    (let q = published_param E md5hex oldData p in
     case cc_PublishConfig C (changeOwnConfigParam2vo q) w of
       ((ok, None), w1) \<Rightarrow> ((ok, None), q, w1)
     | ((ok, Some e), w1) \<Rightarrow>
         (case cc_PublishConfig C (changeOwnConfigParam2vo q) w1 of (r, w2) \<Rightarrow> (r, q, w2)))"
  unfolding PublishConfig_def retry_eq[OF assms] publish_attempt_eq
  by (simp add: Let_def publish_attempt_eq published_param_idem split: prod.split option.split)

text \<open>
  C25: \<open>PublishConfig\<close> sends the caller's parameter with the empty group and application name filled in
  from the environment, and with the MD5 of \<open>oldData\<close> as the compare-and-set guard exactly when
  \<open>oldData\<close> is non-empty. It sends it once, or twice when the first call reports an error; success
  and error are those of the last call, and the caller's struct is left filled in.
\<close>

theorem PublishConfig_spec:
  assumes "retry_law R"
  shows "PublishConfig R E md5hex C p oldData w =
    (let q = published_param E md5hex oldData p in
     case cc_PublishConfig C (changeOwnConfigParam2vo q) w of
       ((ok, None), w1) \<Rightarrow> ((ok, None), q, w1)
     | ((ok, Some e), w1) \<Rightarrow>
         (case cc_PublishConfig C (changeOwnConfigParam2vo q) w1 of (r, w2) \<Rightarrow> (r, q, w2)))"
  using assms by (rule PublishConfig_eq)

definition example_env :: nacos_env where
  "example_env = \<lparr>ServerName = ''panda-auth'', NamespaceEnv = ''prod'', PodName = ''pod-1''\<rparr>"

text \<open>An SDK whose world counts the calls made and which fails the first one.\<close>

definition flaky_client :: "(nat, 'a) config_client" where
  "flaky_client =
     \<lparr>cc_PublishConfig = (\<lambda>p n. ((n \<noteq> 0, if n = 0 then Some (PlainErr ''timeout'') else None), n + 1)),
      cc_ListenConfig = (\<lambda>p n. (if n = 0 then Some (PlainErr ''timeout'') else None, n + 1)),
      cc_GetConfig = (\<lambda>p n. ((vo_Group p, if n = 0 then Some (PlainErr ''timeout'') else None), n + 1))\<rparr>"

lemma PublishConfig_spec_witness:
  "PublishConfig retry_twice example_env rev (flaky_client :: (nat, nat) config_client)
     (zero_ConfigParam\<lparr>cp_DataId := ''k''\<rparr>) ''old'' 0 =
   ((True, None), zero_ConfigParam\<lparr>cp_DataId := ''k'', cp_CasMd5 := ''dlo'', cp_Group := ''prod'',
      cp_AppName := ''panda-auth''\<rparr>, 2)"
  by (subst PublishConfig_spec[OF retry_twice_law])
    (simp add: flaky_client_def example_env_def published_param_def zero_ConfigParam_def)

lemma get_attempt_eq:
  "get_attempt E C p (v, d, c) =
     (case cc_GetConfig C (default_group E v) (nc_world c) of
        ((content, None), w) \<Rightarrow> (None, default_group E v, content,
           c\<lparr>nc_world := w, ConfigCacheMap := sm_Store p content (ConfigCacheMap c)\<rparr>)
      | ((content, Some e), w) \<Rightarrow> (Some e, default_group E v, d, c\<lparr>nc_world := w\<rparr>))"
  by (simp add: get_attempt_def Let_def split: prod.split option.split)

lemma default_group_idem [simp]: "default_group E (default_group E v) = default_group E v"
  by (simp add: default_group_def)

text \<open>
  \<open>GetConfig\<close> asks the server with the group defaulted to the namespace, at most twice. A content
  obtained is returned and cached under the caller's own parameter (its group not defaulted); when
  both calls fail the second error is returned with the empty string, and the cache is unchanged.
\<close>

lemma GetConfig_spec:
  assumes "retry_law R"
  shows "GetConfig R E C p c =
    (let q = default_group E (changeOwnConfigParam2vo p);
         got = (\<lambda>content w. ((content, None),
            c\<lparr>nc_world := w, ConfigCacheMap := sm_Store p content (ConfigCacheMap c)\<rparr>)) in
     case cc_GetConfig C q (nc_world c) of
       ((content, None), w1) \<Rightarrow> got content w1
     | ((_, Some _), w1) \<Rightarrow>
         (case cc_GetConfig C q w1 of
            ((content, None), w2) \<Rightarrow> got content w2
          | ((_, Some e), w2) \<Rightarrow> (([], Some e), c\<lparr>nc_world := w2\<rparr>)))"
  unfolding GetConfig_def retry_eq[OF assms] get_attempt_eq
  by (simp add: Let_def get_attempt_eq split: prod.split option.split)

definition example_client :: "(nat, nat) nacos_client" where
  "example_client = \<lparr>nc_world = 0, ConfigCacheMap = [], ConfigWatchHandleMap = [], nc_app = 0\<rparr>"

lemma GetConfig_spec_witness:
  "GetConfig retry_twice example_env flaky_client zero_ConfigParam example_client =
     ((''prod'', None), example_client\<lparr>nc_world := 2, ConfigCacheMap := [(zero_ConfigParam, ''prod'')]\<rparr>)"
  by (subst GetConfig_spec[OF retry_twice_law])
    (simp add: flaky_client_def example_env_def zero_ConfigParam_def example_client_def
      default_group_def changeOwnConfigParam2vo_def sm_Store_def)

lemma refresh_never_runs_handler_witness:
  "\<exists>c'. RefreshConfig retry_twice example_env flaky_client [Ticker, Ticker, CtxDone]
      (example_client\<lparr>ConfigWatchHandleMap := [(zero_ConfigParam, \<lambda>_ _ a. Ret (a + 1))]\<rparr>) = Ret c' \<and>
    nc_app c' = nc_app example_client"
  using refresh_never_runs_handler[OF retry_twice_law, of example_env flaky_client
      "[Ticker, Ticker, CtxDone]"
      "example_client\<lparr>ConfigWatchHandleMap := [(zero_ConfigParam, \<lambda>_ _ a. Ret (a + 1))]\<rparr>"]
  by (auto simp: example_client_def)

section \<open>The contract of a configuration handler\<close>

text \<open>
  What a client of this component provides: a handler that keeps an invariant of the application
  state. Every path by which the component runs a handler then keeps it too.
\<close>

locale config_handler =
  fixes handler :: "'a Handler" and inv :: "'a \<Rightarrow> bool"
  assumes handler_inv: "inv a \<Longrightarrow> handler key data a = Ret a' \<Longrightarrow> inv a'"
begin

lemma OnChange_inv:
  assumes "inv (nc_app c)" and "OnChange_body p handler key data c = Ret c'"
  shows "inv (nc_app c')" and "sm_Load (ConfigCacheMap c') p = Some data"
  using assms by (auto simp: OnChange_body_def go_simps sm_Load_Store intro: handler_inv)

lemma GetAndWatch_inv:
  assumes R: "retry_law R" "retry_law RW" and i: "inv (nc_app c)"
    and g: "GetAndWatchConfig R RW E C key handler c = Ret (err, c')"
  shows "inv (nc_app c')"
proof -
  define p where "p = zero_ConfigParam\<lparr>cp_Group := NamespaceEnv E, cp_DataId := key\<rparr>"
  obtain cfg e c1 where get: "GetConfig R E C p c = ((cfg, e), c1)" by (metis prod.exhaust_sel)
  have i1: "inv (nc_app c1)" using i GetConfig_effect(1)[OF R(1) get] by simp
  obtain c2 where c2: "c' = snd (WatchConfig RW E C p handler c2)" and i2: "inv (nc_app c2)"
    using g get i1
    by (auto simp: GetAndWatchConfig_def go_simps p_def[symmetric] split: option.splits
        dest: handler_inv)
  show ?thesis
    using WatchConfig_effect(1)[OF R(2), of E C p handler c2 "fst (WatchConfig RW E C p handler c2)" c']
      c2 i2 by simp
qed

end

locale total_config_handler = config_handler +
  assumes handler_total: "inv a \<Longrightarrow> \<exists>a'. handler key data a = Ret a'"
begin

lemma GetAndWatch_returns:
  assumes R: "retry_law R" and i: "inv (nc_app c)"
  shows "\<exists>err c'. GetAndWatchConfig R RW E C key handler c = Ret (err, c')"
proof -
  define p where "p = zero_ConfigParam\<lparr>cp_Group := NamespaceEnv E, cp_DataId := key\<rparr>"
  obtain cfg e c1 where get: "GetConfig R E C p c = ((cfg, e), c1)" by (metis prod.exhaust_sel)
  obtain a' where "handler key cfg (nc_app c1) = Ret a'"
    using handler_total i GetConfig_effect(1)[OF R get] by metis
  with get show ?thesis
    by (auto simp: GetAndWatchConfig_def p_def[symmetric] split: option.splits)
qed

lemma OnChange_returns:
  "inv (nc_app c) \<Longrightarrow> \<exists>c'. OnChange_body p handler key data c = Ret c' \<and> inv (nc_app c')"
  using handler_total[of "nc_app c" key data]
  by (auto simp: OnChange_body_def intro: handler_inv)

end

text \<open>
  \<open>GetAndWatchConfig\<close> hands the fetched content to the handler exactly when the fetch succeeds, and
  registers the watch in either case; the error it returns is the fetch's, so a failed
  registration is not reported.
\<close>

lemma GetAndWatchConfig_spec:
  assumes "retry_law R"
    and "p = zero_ConfigParam\<lparr>cp_Group := NamespaceEnv E, cp_DataId := key\<rparr>"
    and "GetConfig R E C p c = ((cfg, err), c1)"
  shows "GetAndWatchConfig R RW E C key handler c =
    (if err = None
     then go_map (\<lambda>a. (None, snd (WatchConfig RW E C p handler (c1\<lparr>nc_app := a\<rparr>))))
            (handler key cfg (nc_app c))
     else Ret (err, snd (WatchConfig RW E C p handler c1)))"
proof (cases err)
  case None
  then show ?thesis
    using assms GetConfig_effect(1)[OF assms(1,3)]
    by (cases "handler key cfg (nc_app c)") (simp_all add: GetAndWatchConfig_def)
next
  case (Some e)
  with assms show ?thesis by (simp add: GetAndWatchConfig_def)
qed

lemma GetAndWatchConfig_spec_witness:
  "GetAndWatchConfig retry_twice retry_twice example_env flaky_client ''key'' (\<lambda>k d a. Ret (a + 1))
     example_client =
   Ret (None, snd (WatchConfig retry_twice example_env flaky_client
      (zero_ConfigParam\<lparr>cp_Group := ''prod'', cp_DataId := ''key''\<rparr>) (\<lambda>k d a. Ret (a + 1))
      (example_client\<lparr>nc_world := 2,
         ConfigCacheMap := [(zero_ConfigParam\<lparr>cp_Group := ''prod'', cp_DataId := ''key''\<rparr>, ''prod'')],
         nc_app := 1\<rparr>)))"
proof -
  have get: "GetConfig retry_twice example_env flaky_client
      (zero_ConfigParam\<lparr>cp_Group := NamespaceEnv example_env, cp_DataId := ''key''\<rparr>) example_client =
    ((''prod'', None), example_client\<lparr>nc_world := 2,
       ConfigCacheMap := [(zero_ConfigParam\<lparr>cp_Group := ''prod'', cp_DataId := ''key''\<rparr>, ''prod'')]\<rparr>)"
    by (simp add: GetConfig_def get_attempt_eq flaky_client_def zero_ConfigParam_def example_env_def
        example_client_def default_group_def changeOwnConfigParam2vo_def sm_Store_def)
  show ?thesis
    using GetAndWatchConfig_spec[OF retry_twice_law refl, where E = example_env and key = "''key''"
        and C = flaky_client and c = example_client and RW = retry_twice
        and handler = "\<lambda>k d a. Ret (a + 1)", OF get]
    by (simp add: example_env_def example_client_def)
qed

end
