(* ===== verification/NacosApi.thy ===== *)
theory NacosApi
  imports Complex_Main "HOL-Library.Word" NacosClient
begin

text \<open>
  The management calls of \<open>component/nacos/base/nacos-client.go\<close>: history, listeners, namespaces,
  services, instances, subscribers and configuration details, with their response structs, and
  \<open>GetNacosClient\<close>, which builds the one client of the process.

  \<open>nacos_server.ReqConfigApi\<close> of the SDK is the parameter \<open>srv\<close>, a function of the request and the
  outside world; the SDK's path constants are the record \<open>nacos_consts\<close>; \<open>json.Unmarshal\<close> into a
  response struct is a function \<open>dec\<close> from the text to the struct it leaves and the error it returns.
  The caller's \<open>params\<close> map may be nil, and the methods write into it; its content afterwards is
  part of the result.
\<close>

section \<open>Response structs\<close>

datatype json =
  JNull | JBool bool | JNum real | JStr string | JArr "json list" | JObj "(string \<times> json) list"

record Namespace =
  nsp_Namespace :: string
  nsp_NamespaceShowName :: string
  nsp_Quota :: int
  nsp_ConfigCount :: int
  nsp_Type :: "8 word"

record SearchNamespaceRsp =
  snr_Code :: int
  snr_Message :: string
  snr_Data :: "Namespace list"

record SearchListenConfigRsp =
  slc_CollectStatus :: int
  slc_LisentersGroupkeyStatus :: "(string, string) gomap"

record HistoryConfigItem =
  hci_Id :: string
  hci_LastId :: "32 word"
  hci_DataId :: string
  hci_Group :: string
  hci_Tenant :: string
  hci_AppName :: string
  hci_Md5 :: string
  hci_Content :: string
  hci_SrcIp :: string
  hci_SrcUser :: string
  hci_OpType :: string
  hci_CreatedTime :: string
  hci_LastModifiedTime :: string

record SearchHistoryNacosConfigRsp =
  shc_TotalCount :: "32 word"
  shc_PageNumber :: "32 word"
  shc_PagesAvailable :: "32 word"
  shc_PageItems :: "HistoryConfigItem list"

record NacosService =
  svc_Name :: string
  svc_GroupName :: string
  svc_ClusterCount :: "32 word"
  svc_IpCount :: "32 word"
  svc_HealthyInstanceCount :: "32 word"
  svc_TriggerFlag :: string

record SearchNacosServiceListRsp =
  sns_Count :: "32 word"
  sns_ServiceList :: "NacosService list"

record service_info =
  si_Name :: string
  si_GroupName :: string
  si_ProtectThreshold :: real
  si_SelectorType :: string
  si_Metadata :: "(string \<times> json) list"

record cluster_info =
  ci_ServiceName :: string
  ci_Name :: string
  ci_HealthCheckerType :: string
  ci_DefaultPort :: "32 word"
  ci_DefaultCheckPort :: "32 word"
  ci_UseIPPort4Check :: bool
  ci_Metadata :: "(string \<times> json) list"

record GetNacosServiceInfoRsp =
  gsi_Service :: service_info
  gsi_Clusters :: "cluster_info list"

record NacosServiceInstance =
  nsi_Ip :: string
  nsi_Port :: "32 word"
  nsi_Weight :: real
  nsi_Healthy :: bool
  nsi_Enabled :: bool
  nsi_Ephemeral :: bool
  nsi_ClusterName :: string
  nsi_ServiceName :: string
  nsi_Metadata :: "(string \<times> json) list"
  nsi_InstanceHeartBeatInterval :: "32 word"
  nsi_InstanceHeartBeatTimeOut :: "32 word"
  nsi_IpDeleteTimeout :: "32 word"

record ListNacosServiceInstanceRsp =
  lsi_List :: "NacosServiceInstance list"
  lsi_Count :: "32 word"

record NacosSubscriber =
  sub_AddrStr :: string
  sub_Agent :: string
  sub_App :: string
  sub_Ip :: string
  sub_Port :: "32 word"
  sub_NamespaceId :: string
  sub_ServiceName :: string
  sub_Cluster :: string

record SearchNacosSubscriberListRsp =
  ssl_NacosSubscribers :: "NacosSubscriber list"
  ssl_Count :: "32 word"

record NacosConfigDetail =
  ncd_Id :: string
  ncd_DataId :: string
  ncd_Group :: string
  ncd_Content :: string
  ncd_Md5 :: string
  ncd_Tenant :: string
  ncd_AppName :: string
  ncd_Type :: string
  ncd_CreateTime :: "64 word"
  ncd_ModifyTime :: "64 word"
  ncd_CreateUser :: json
  ncd_CreateIp :: string
  ncd_Desc :: json
  ncd_Use :: json
  ncd_Effect :: json
  ncd_Schema :: json
  ncd_ConfigTags :: json

section \<open>Requests\<close>

datatype http_method = MethodGet | MethodPost | MethodPut | MethodDelete

record ClientConfig =
  NamespaceId :: string
  AccessKey :: string
  SecretKey :: string
  TimeoutMs :: "64 word"
  BeatInterval :: "64 word"
  NotLoadCacheAtStart :: bool
  UpdateCacheWhenEmpty :: bool
  CacheDir :: string
  LogDir :: string
  cfg_AppName :: string

record nacos_consts =
  SERVICE_BASE_PATH :: string
  SERVICE_PATH :: string
  SERVICE_INFO_PATH :: string
  CONFIG_BASE_PATH :: string
  CONFIG_PATH :: string
  CONFIG_LISTEN_PATH :: string
  NAMESPACE_PATH :: string

record api_request =
  rq_path :: string
  rq_params :: "(string, string) nilable_map"
  rq_headers :: "string \<rightharpoonup> string"
  rq_method :: http_method
  rq_timeout :: "64 word"

type_synonym params = "(string, string) nilable_map"
type_synonym 'w config_api = "api_request \<Rightarrow> 'w \<Rightarrow> (gerr + string) \<times> 'w"
type_synonym 'r unmarshal = "string \<Rightarrow> 'r \<times> gerr option"

definition auth_headers :: "ClientConfig \<Rightarrow> string \<rightharpoonup> string" where
  "auth_headers cfg = [''accessKey'' \<mapsto> AccessKey cfg, ''secretKey'' \<mapsto> SecretKey cfg]"

definition put_tenant_namespace :: "ClientConfig \<Rightarrow> params \<Rightarrow> params go" where
  "put_tenant_namespace cfg params =
     (if NamespaceId cfg \<noteq> []
      then go_bind (nmap_put ''tenant'' (NamespaceId cfg) params)
             (nmap_put ''namespaceId'' (NamespaceId cfg))
      else Ret params)"

definition request ::
    "ClientConfig \<Rightarrow> 'w config_api \<Rightarrow> string \<Rightarrow> http_method \<Rightarrow> params \<Rightarrow> 'w \<Rightarrow> (gerr + string) \<times> 'w" where
  "request cfg srv path method params w =
     srv \<lparr>rq_path = path, rq_params = params, rq_headers = auth_headers cfg, rq_method = method,
          rq_timeout = TimeoutMs cfg\<rparr> w"

text \<open>The three ways a method finishes after the request.\<close>

definition decode_reply :: "'r unmarshal \<Rightarrow> gerr + string \<Rightarrow> gerr + 'r" where
  "decode_reply dec reply =
     (case reply of
        Inl e \<Rightarrow> Inl e
      | Inr content \<Rightarrow> (case dec content of (_, Some e) \<Rightarrow> Inl e | (r, None) \<Rightarrow> Inr r))"

definition decode_reply_unchecked :: "'r unmarshal \<Rightarrow> gerr + string \<Rightarrow> gerr + 'r" where
  "decode_reply_unchecked dec reply =
     (case reply of Inl e \<Rightarrow> Inl e | Inr content \<Rightarrow> Inr (fst (dec content)))"

definition expect_reply :: "string \<Rightarrow> gerr + string \<Rightarrow> gerr option" where
  "expect_reply expected reply =
     (case reply of
        Inl e \<Rightarrow> Some e
      | Inr content \<Rightarrow> if content \<noteq> expected then Some (PlainErr content) else None)"

text \<open>The UTF-8 bytes of the message that asks for the \<open>nid\<close>.\<close>

definition missing_nid_text :: string where
  "missing_nid_text = map char_of [232, 175, 183, 232, 190, 147, 229, 133, 165 :: nat] @ ''nid''"

definition GetHistoryNacosConfigDetail ::
    "nacos_consts \<Rightarrow> ClientConfig \<Rightarrow> 'w config_api \<Rightarrow> HistoryConfigItem unmarshal \<Rightarrow> params \<Rightarrow> 'w \<Rightarrow>
     ((gerr + HistoryConfigItem) \<times> params \<times> 'w) go" where
  "GetHistoryNacosConfigDetail K cfg srv dec params w =
     (if nmap_get params ''nid'' = None
      then Ret (Inl (PlainErr missing_nid_text), params, w)
      else go_bind (put_tenant_namespace cfg params) (\<lambda>params.
        let (reply, w) = request cfg srv (CONFIG_BASE_PATH K @ ''/history'') MethodGet params w
        in Ret (decode_reply dec reply, params, w)))"

definition SearchHistoryNacosConfig ::
    "nacos_consts \<Rightarrow> ClientConfig \<Rightarrow> 'w config_api \<Rightarrow> SearchHistoryNacosConfigRsp unmarshal \<Rightarrow> params \<Rightarrow>
     'w \<Rightarrow> ((gerr + SearchHistoryNacosConfigRsp) \<times> params \<times> 'w) go" where
  "SearchHistoryNacosConfig K cfg srv dec params w =
     go_bind (put_tenant_namespace cfg params) (\<lambda>params.
     go_bind (nmap_put ''search'' ''accurate'' params) (\<lambda>params.
       let (reply, w) = request cfg srv (CONFIG_BASE_PATH K @ ''/history'') MethodGet params w
       in Ret (decode_reply dec reply, params, w)))"

definition SearchListenConfig ::
    "nacos_consts \<Rightarrow> ClientConfig \<Rightarrow> 'w config_api \<Rightarrow> SearchListenConfigRsp unmarshal \<Rightarrow> params \<Rightarrow> bool \<Rightarrow>
     'w \<Rightarrow> ((gerr + SearchListenConfigRsp) \<times> params \<times> 'w) go" where
  "SearchListenConfig K cfg srv dec params isIp w =
     go_bind (if NamespaceId cfg \<noteq> [] then nmap_put ''tenant'' (NamespaceId cfg) params
              else Ret params) (\<lambda>params.
       let path = (if isIp then CONFIG_BASE_PATH K @ ''/listener'' else CONFIG_LISTEN_PATH K);
           (reply, w) = request cfg srv path MethodGet params w
       in Ret (decode_reply dec reply, params, w))"

definition SearchNamespaces ::
    "nacos_consts \<Rightarrow> ClientConfig \<Rightarrow> 'w config_api \<Rightarrow> SearchNamespaceRsp unmarshal \<Rightarrow> 'w \<Rightarrow>
     (gerr + SearchNamespaceRsp) \<times> 'w" where
  "SearchNamespaces K cfg srv dec w =
     (let (reply, w) = request cfg srv (NAMESPACE_PATH K) MethodGet (Some Map.empty) w
      in (decode_reply dec reply, w))"

definition SearchNacosServiceList ::
    "nacos_consts \<Rightarrow> ClientConfig \<Rightarrow> 'w config_api \<Rightarrow> SearchNacosServiceListRsp unmarshal \<Rightarrow> params \<Rightarrow>
     'w \<Rightarrow> ((gerr + SearchNacosServiceListRsp) \<times> params \<times> 'w) go" where
  "SearchNacosServiceList K cfg srv dec params w =
     go_bind (put_tenant_namespace cfg params) (\<lambda>params.
       let (reply, w) = request cfg srv (SERVICE_BASE_PATH K @ ''/catalog/services'') MethodGet params w
       in Ret (decode_reply dec reply, params, w))"

definition GetNacosServiceInfo ::
    "nacos_consts \<Rightarrow> ClientConfig \<Rightarrow> 'w config_api \<Rightarrow> GetNacosServiceInfoRsp unmarshal \<Rightarrow> params \<Rightarrow>
     'w \<Rightarrow> ((gerr + GetNacosServiceInfoRsp) \<times> params \<times> 'w) go" where
  "GetNacosServiceInfo K cfg srv dec params w =
     go_bind (put_tenant_namespace cfg params) (\<lambda>params.
       let (reply, w) = request cfg srv (SERVICE_BASE_PATH K @ ''/catalog/service'') MethodGet params w
       in Ret (decode_reply dec reply, params, w))"

definition UpdateNacosServiceInstance ::
    "nacos_consts \<Rightarrow> ClientConfig \<Rightarrow> 'w config_api \<Rightarrow> params \<Rightarrow> 'w \<Rightarrow> (gerr option \<times> params \<times> 'w) go" where
  "UpdateNacosServiceInstance K cfg srv params w =
     go_bind (put_tenant_namespace cfg params) (\<lambda>params.
       let (reply, w) = request cfg srv (SERVICE_PATH K) MethodPut params w
       in Ret (expect_reply ''ok'' reply, params, w))"

definition ListNacosServiceInstance ::
    "nacos_consts \<Rightarrow> ClientConfig \<Rightarrow> 'w config_api \<Rightarrow> ListNacosServiceInstanceRsp unmarshal \<Rightarrow> params \<Rightarrow>
     'w \<Rightarrow> ((gerr + ListNacosServiceInstanceRsp) \<times> params \<times> 'w) go" where
  "ListNacosServiceInstance K cfg srv dec params w =
     go_bind (put_tenant_namespace cfg params) (\<lambda>params.
       let (reply, w) = request cfg srv (SERVICE_BASE_PATH K @ ''/catalog/instances'') MethodGet params w
       in Ret (decode_reply dec reply, params, w))"

definition SearchNacosSubscriberList ::
    "nacos_consts \<Rightarrow> ClientConfig \<Rightarrow> 'w config_api \<Rightarrow> SearchNacosSubscriberListRsp unmarshal \<Rightarrow> params \<Rightarrow>
     'w \<Rightarrow> ((gerr + SearchNacosSubscriberListRsp) \<times> params \<times> 'w) go" where
  "SearchNacosSubscriberList K cfg srv dec params w =
     go_bind (put_tenant_namespace cfg params) (\<lambda>params.
       let (reply, w) = request cfg srv (SERVICE_INFO_PATH K @ ''/subscribers'') MethodGet params w
       in Ret (decode_reply dec reply, params, w))"

definition CreateNacosService ::
    "nacos_consts \<Rightarrow> ClientConfig \<Rightarrow> 'w config_api \<Rightarrow> params \<Rightarrow> 'w \<Rightarrow> (gerr option \<times> params \<times> 'w) go" where
  "CreateNacosService K cfg srv params w =
     go_bind (put_tenant_namespace cfg params) (\<lambda>params.
       let (reply, w) = request cfg srv (SERVICE_INFO_PATH K) MethodPost params w
       in Ret (expect_reply ''ok'' reply, params, w))"

definition UpdateNacosService ::
    "nacos_consts \<Rightarrow> ClientConfig \<Rightarrow> 'w config_api \<Rightarrow> params \<Rightarrow> 'w \<Rightarrow> (gerr option \<times> params \<times> 'w) go" where
  "UpdateNacosService K cfg srv params w =
     go_bind (put_tenant_namespace cfg params) (\<lambda>params.
       let (reply, w) = request cfg srv (SERVICE_INFO_PATH K) MethodPut params w
       in Ret (expect_reply ''ok'' reply, params, w))"

definition DeleteNacosService ::
    "nacos_consts \<Rightarrow> ClientConfig \<Rightarrow> 'w config_api \<Rightarrow> params \<Rightarrow> 'w \<Rightarrow> (gerr option \<times> params \<times> 'w) go" where
  "DeleteNacosService K cfg srv params w =
     go_bind (put_tenant_namespace cfg params) (\<lambda>params.
       let (reply, w) = request cfg srv (SERVICE_INFO_PATH K) MethodDelete params w
       in Ret (expect_reply ''ok'' reply, params, w))"

definition GetNacosConfigDetail ::
    "nacos_consts \<Rightarrow> ClientConfig \<Rightarrow> 'w config_api \<Rightarrow> NacosConfigDetail unmarshal \<Rightarrow> params \<Rightarrow>
     'w \<Rightarrow> ((gerr + NacosConfigDetail) \<times> params \<times> 'w) go" where
  "GetNacosConfigDetail K cfg srv dec params w =
     go_bind (put_tenant_namespace cfg params) (\<lambda>params.
       let (reply, w) = request cfg srv (CONFIG_PATH K) MethodGet params w
       in Ret (decode_reply_unchecked dec reply, params, w))"

definition EditNacosConfigDetail ::
    "nacos_consts \<Rightarrow> ClientConfig \<Rightarrow> 'w config_api \<Rightarrow> params \<Rightarrow> string \<Rightarrow> 'w \<Rightarrow>
     (gerr option \<times> params \<times> 'w) go" where
  "EditNacosConfigDetail K cfg srv params userName w =
     go_bind (put_tenant_namespace cfg params) (\<lambda>params.
     go_bind (nmap_put ''username'' userName params) (\<lambda>params.
       let (reply, w) = request cfg srv (CONFIG_PATH K) MethodPost params w
       in Ret (expect_reply ''true'' reply, params, w)))"

section \<open>The one client of the process\<close>

record 'sc NacosClientParam =
  ncp_ClientConfig :: "ClientConfig option"
  ncp_ServerConfigs :: "'sc list"

definition default_dir :: "string \<Rightarrow> string \<Rightarrow> string \<Rightarrow> int \<Rightarrow> string \<Rightarrow> string" where
  "default_dir goos dirBase ns nanos dir =
     (if dir = [] \<and> goos \<noteq> ''windows'' then dirBase @ ns @ ''-'' @ int_text nanos else dir)"

definition complete_ClientConfig ::
    "nacos_env \<Rightarrow> string \<Rightarrow> int \<Rightarrow> int \<Rightarrow> ClientConfig \<Rightarrow> ClientConfig" where
  "complete_ClientConfig E goos nanos1 nanos2 cfg =
     (let cfg = cfg\<lparr>NotLoadCacheAtStart := True,
                    CacheDir := default_dir goos ''/tmp/nacos/cache/'' (NamespaceId cfg) nanos1 (CacheDir cfg),
                    LogDir := default_dir goos ''/tmp/nacos/log/'' (NamespaceId cfg) nanos2 (LogDir cfg),
                    cfg_AppName := ServerName E,
                    UpdateCacheWhenEmpty := True\<rparr>;
          cfg = (if BeatInterval cfg = 0 then cfg\<lparr>BeatInterval := 5000\<rparr> else cfg)
      in if TimeoutMs cfg = 0 then cfg\<lparr>TimeoutMs := 10000\<rparr> else cfg)"

text \<open>
  The parameter as \<open>GetNacosClient\<close> completes it, from the parsed environment variable, the operating
  system's name and the two readings of the clock; \<open>log.Fatal\<close> leaves the process.
\<close>

definition complete_nacosParam ::
    "nacos_env \<Rightarrow> string \<Rightarrow> int \<Rightarrow> int \<Rightarrow> gerr + 'sc NacosClientParam \<Rightarrow> 'sc NacosClientParam go" where
  "complete_nacosParam E goos nanos1 nanos2 parsed =
     (case parsed of
        Inl e \<Rightarrow> Exit ''[GetNacosClient] json.Unmarshal Nacos Config failed''
      | Inr p \<Rightarrow>
         (case ncp_ClientConfig p of
            None \<Rightarrow> Exit ''[GetNacosClient] nacosParam.ClientConfig is nil''
          | Some cfg \<Rightarrow>
             if ncp_ServerConfigs p = []
             then Exit ''[GetNacosClient] nacosParam.ServerConfigs is empty''
             else Ret (p\<lparr>ncp_ClientConfig := Some (complete_ClientConfig E goos nanos1 nanos2 cfg)\<rparr>)))"

record ('cl, 'sv) nacos_singleton =
  once_done :: bool
  innerNacosClient :: "('cl \<times> 'sv) option"

definition GetNacosClient ::
    "nacos_env \<Rightarrow> string \<Rightarrow> int \<Rightarrow> int \<Rightarrow> gerr + 'sc NacosClientParam \<Rightarrow>
     ('sc NacosClientParam \<Rightarrow> gerr + 'cl) \<Rightarrow> ('sc NacosClientParam \<Rightarrow> 'cl \<Rightarrow> gerr + 'sv) \<Rightarrow>
     ('cl, 'sv) nacos_singleton \<Rightarrow> (('cl \<times> 'sv) \<times> ('cl, 'sv) nacos_singleton) go" where
  "GetNacosClient E goos nanos1 nanos2 parsed NewConfigClient NewNacosServer st =
     go_bind
       (if once_done st then Ret st
        else go_bind (complete_nacosParam E goos nanos1 nanos2 parsed) (\<lambda>p.
          case NewConfigClient p of
            Inl e \<Rightarrow> Exit ''[GetNacosClient] NewConfigClient failed''
          | Inr client \<Rightarrow>
             (case NewNacosServer p client of
                Inl e \<Rightarrow> Exit ''[GetNacosClient] NewNacosServer failed''
              | Inr server \<Rightarrow> Ret \<lparr>once_done = True, innerNacosClient = Some (client, server)\<rparr>)))
       (\<lambda>st. case innerNacosClient st of
               None \<Rightarrow> Exit ''GetNacosClient fail, innerNacosClient is nil''
             | Some c \<Rightarrow> Ret (c, st))"

lemma complete_ClientConfig_facts:
  "BeatInterval (complete_ClientConfig E goos n1 n2 c) \<noteq> 0"
  "TimeoutMs (complete_ClientConfig E goos n1 n2 c) \<noteq> 0"
  "cfg_AppName (complete_ClientConfig E goos n1 n2 c) = ServerName E"
  by (simp_all add: complete_ClientConfig_def Let_def)

lemma complete_nacosParam_Ret:
  assumes "complete_nacosParam E goos n1 n2 parsed = Ret q"
  obtains p cfg where "parsed = Inr p" "ncp_ClientConfig p \<noteq> None" "ncp_ServerConfigs p \<noteq> []"
    "q = p\<lparr>ncp_ClientConfig := Some cfg\<rparr>" "BeatInterval cfg \<noteq> 0" "TimeoutMs cfg \<noteq> 0"
    "cfg_AppName cfg = ServerName E"
  using assms
  by (auto simp: complete_nacosParam_def complete_ClientConfig_facts
      split: sum.splits option.splits if_splits)

text \<open>
  A first call of \<open>GetNacosClient\<close> that returns has been given a client configuration and at least
  one server, and built the client from a configuration with non-zero beat interval and timeout;
  every later call, with whatever environment, returns the same client and builds nothing.
\<close>

lemma GetNacosClient_singleton:
  assumes "GetNacosClient E goos n1 n2 parsed mk_client mk_server
             \<lparr>once_done = False, innerNacosClient = None\<rparr> = Ret (c, st)"
  shows "(\<exists>p cfg. parsed = Inr p \<and> ncp_ClientConfig p \<noteq> None \<and> ncp_ServerConfigs p \<noteq> [] \<and>
           (let q = p\<lparr>ncp_ClientConfig := Some cfg\<rparr> in
            mk_client q = Inr (fst c) \<and> mk_server q (fst c) = Inr (snd c)) \<and>
           BeatInterval cfg \<noteq> 0 \<and> TimeoutMs cfg \<noteq> 0 \<and> cfg_AppName cfg = ServerName E) \<and>
         GetNacosClient E' goos' n1' n2' parsed' mk_client' mk_server' st = Ret (c, st)"
proof -
  obtain q where q: "complete_nacosParam E goos n1 n2 parsed = Ret q"
    and "mk_client q = Inr (fst c)" "mk_server q (fst c) = Inr (snd c)"
    and "st = \<lparr>once_done = True, innerNacosClient = Some c\<rparr>"
  proof -
    obtain q where q: "complete_nacosParam E goos n1 n2 parsed = Ret q"
      using assms by (auto simp: GetNacosClient_def go_simps)
    moreover obtain client where "mk_client q = Inr client"
      using assms q by (cases "mk_client q") (auto simp: GetNacosClient_def)
    moreover obtain server where "mk_server q client = Inr server"
      using assms calculation by (cases "mk_server q client") (auto simp: GetNacosClient_def)
    ultimately show thesis using assms that[of q] by (auto simp: GetNacosClient_def)
  qed
  moreover obtain p cfg where "parsed = Inr p" "ncp_ClientConfig p \<noteq> None" "ncp_ServerConfigs p \<noteq> []"
    "q = p\<lparr>ncp_ClientConfig := Some cfg\<rparr>" "BeatInterval cfg \<noteq> 0" "TimeoutMs cfg \<noteq> 0"
    "cfg_AppName cfg = ServerName E"
    by (rule complete_nacosParam_Ret[OF q])
  ultimately have "\<exists>p cfg. parsed = Inr p \<and> ncp_ClientConfig p \<noteq> None \<and> ncp_ServerConfigs p \<noteq> [] \<and>
      (let q = p\<lparr>ncp_ClientConfig := Some cfg\<rparr> in
       mk_client q = Inr (fst c) \<and> mk_server q (fst c) = Inr (snd c)) \<and>
      BeatInterval cfg \<noteq> 0 \<and> TimeoutMs cfg \<noteq> 0 \<and> cfg_AppName cfg = ServerName E"
    by (intro exI[of _ p] exI[of _ cfg]) simp
  moreover have "GetNacosClient E' goos' n1' n2' parsed' mk_client' mk_server' st = Ret (c, st)"
    by (simp add: GetNacosClient_def \<open>st = _\<close>)
  ultimately show ?thesis by blast
qed

definition example_config :: ClientConfig where
  "example_config = \<lparr>NamespaceId = ''production'', AccessKey = ''ak'', SecretKey = ''sk'', TimeoutMs = 0,
     BeatInterval = 0, NotLoadCacheAtStart = False, UpdateCacheWhenEmpty = False, CacheDir = [],
     LogDir = ''/var/log'', cfg_AppName = []\<rparr>"

lemma GetNacosClient_singleton_witness:
  "GetNacosClient example_env ''linux'' 0 0 (Inl (PlainErr ''unset'') :: gerr + nat NacosClientParam)
      (\<lambda>p. Inl (PlainErr ''down'')) (\<lambda>p c. Inl (PlainErr ''down''))
      \<lparr>once_done = True, innerNacosClient = Some (7 :: nat, 9 :: nat)\<rparr> =
    Ret ((7, 9), \<lparr>once_done = True, innerNacosClient = Some (7, 9)\<rparr>)"
proof -
  have "GetNacosClient example_env ''linux'' 1 2
      (Inr \<lparr>ncp_ClientConfig = Some example_config, ncp_ServerConfigs = [()]\<rparr>)
      (\<lambda>p. Inr 7) (\<lambda>p c. Inr (c + 2)) \<lparr>once_done = False, innerNacosClient = None\<rparr> =
    Ret ((7 :: nat, 9), \<lparr>once_done = True, innerNacosClient = Some (7, 9)\<rparr>)"
    by (simp add: GetNacosClient_def complete_nacosParam_def example_config_def)
  from GetNacosClient_singleton[OF this] show ?thesis by blast
qed

section \<open>A table of the management calls\<close>

text \<open>
  The specification of the calls that take parameters: the path, the method, and what is stored
  into the parameters before the request is sent.
\<close>

record endpoint =
  ep_path :: "nacos_consts \<Rightarrow> string"
  ep_method :: http_method
  ep_namespace :: bool                                 \<comment> \<open>\<open>namespaceId\<close> is sent beside \<open>tenant\<close>\<close>
  ep_extra :: "(string \<times> string) option"

definition endpoint_params :: "endpoint \<Rightarrow> ClientConfig \<Rightarrow> (string \<rightharpoonup> string) \<Rightarrow> (string \<rightharpoonup> string)" where
  "endpoint_params ep cfg m =
     (let m = (if NamespaceId cfg = [] then m
               else if ep_namespace ep
                    then m(''tenant'' \<mapsto> NamespaceId cfg, ''namespaceId'' \<mapsto> NamespaceId cfg)
                    else m(''tenant'' \<mapsto> NamespaceId cfg))
      in case ep_extra ep of None \<Rightarrow> m | Some (k, v) \<Rightarrow> m(k \<mapsto> v))"

definition endpoint_run ::
    "endpoint \<Rightarrow> (gerr + string \<Rightarrow> 'r) \<Rightarrow> nacos_consts \<Rightarrow> ClientConfig \<Rightarrow> 'w config_api \<Rightarrow>
     (string \<rightharpoonup> string) \<Rightarrow> 'w \<Rightarrow> ('r \<times> params \<times> 'w) go" where
  "endpoint_run ep finish K cfg srv m w =
     (let m = endpoint_params ep cfg m;
          (reply, w) = srv \<lparr>rq_path = ep_path ep K, rq_params = Some m, rq_headers = auth_headers cfg,
                            rq_method = ep_method ep, rq_timeout = TimeoutMs cfg\<rparr> w
      in Ret (finish reply, Some m, w))"

definition get_endpoint :: "(nacos_consts \<Rightarrow> string) \<Rightarrow> endpoint" where
  "get_endpoint path = \<lparr>ep_path = path, ep_method = MethodGet, ep_namespace = True, ep_extra = None\<rparr>"

lemma nmap_put_Some [simp]: "nmap_put k v (Some m) = Ret (Some (m(k \<mapsto> v)))"
  by simp

lemma put_tenant_namespace_Some:
  "put_tenant_namespace cfg (Some m) = Ret (Some (endpoint_params (get_endpoint path) cfg m))"
  by (simp add: put_tenant_namespace_def endpoint_params_def get_endpoint_def)

lemmas endpoint_defs = endpoint_run_def endpoint_params_def get_endpoint_def put_tenant_namespace_def
  request_def Let_def

text \<open>
  Each reading call is the table's: with a non-nil parameter map it sends one \<open>GET\<close> to its path with
  the credentials as headers, the client's timeout, and the tenant (and the namespace, but for the
  listener query) stored into the caller's map, and it returns the decoded reply or the error of
  the request or of the decoding.
\<close>

lemma read_calls_follow_table:
  "SearchHistoryNacosConfig K cfg srv dec1 (Some m) w =
     endpoint_run ((get_endpoint (\<lambda>K. CONFIG_BASE_PATH K @ ''/history''))
                     \<lparr>ep_extra := Some (''search'', ''accurate'')\<rparr>) (decode_reply dec1) K cfg srv m w \<and>
   SearchListenConfig K cfg srv dec2 (Some m) isIp w =
     endpoint_run ((get_endpoint (\<lambda>K. if isIp then CONFIG_BASE_PATH K @ ''/listener'' else CONFIG_LISTEN_PATH K))
                     \<lparr>ep_namespace := False\<rparr>) (decode_reply dec2) K cfg srv m w \<and>
   SearchNacosServiceList K cfg srv dec3 (Some m) w =
     endpoint_run (get_endpoint (\<lambda>K. SERVICE_BASE_PATH K @ ''/catalog/services'')) (decode_reply dec3) K cfg srv m w \<and>
   GetNacosServiceInfo K cfg srv dec4 (Some m) w =
     endpoint_run (get_endpoint (\<lambda>K. SERVICE_BASE_PATH K @ ''/catalog/service'')) (decode_reply dec4) K cfg srv m w \<and>
   ListNacosServiceInstance K cfg srv dec5 (Some m) w =
     endpoint_run (get_endpoint (\<lambda>K. SERVICE_BASE_PATH K @ ''/catalog/instances'')) (decode_reply dec5) K cfg srv m w \<and>
   SearchNacosSubscriberList K cfg srv dec6 (Some m) w =
     endpoint_run (get_endpoint (\<lambda>K. SERVICE_INFO_PATH K @ ''/subscribers'')) (decode_reply dec6) K cfg srv m w"
  by (intro conjI)
    (simp_all add: endpoint_defs SearchHistoryNacosConfig_def SearchListenConfig_def
      SearchNacosServiceList_def GetNacosServiceInfo_def ListNacosServiceInstance_def
      SearchNacosSubscriberList_def split: prod.split)

text \<open>
  A writing call succeeds exactly when the request does and the server's reply is the expected word
  (\<open>ok\<close>, or \<open>true\<close> for the edit); any other reply is itself the error. Each call is the table's,
  with its own method, and the edit sends the user's name.
\<close>

lemma write_calls_follow_table:
  "UpdateNacosServiceInstance K cfg srv (Some m) w =
     endpoint_run ((get_endpoint SERVICE_PATH)\<lparr>ep_method := MethodPut\<rparr>) (expect_reply ''ok'') K cfg srv m w \<and>
   CreateNacosService K cfg srv (Some m) w =
     endpoint_run ((get_endpoint SERVICE_INFO_PATH)\<lparr>ep_method := MethodPost\<rparr>) (expect_reply ''ok'') K cfg srv m w \<and>
   UpdateNacosService K cfg srv (Some m) w =
     endpoint_run ((get_endpoint SERVICE_INFO_PATH)\<lparr>ep_method := MethodPut\<rparr>) (expect_reply ''ok'') K cfg srv m w \<and>
   DeleteNacosService K cfg srv (Some m) w =
     endpoint_run ((get_endpoint SERVICE_INFO_PATH)\<lparr>ep_method := MethodDelete\<rparr>) (expect_reply ''ok'') K cfg srv m w \<and>
   EditNacosConfigDetail K cfg srv (Some m) user w =
     endpoint_run ((get_endpoint CONFIG_PATH)\<lparr>ep_method := MethodPost, ep_extra := Some (''username'', user)\<rparr>)
       (expect_reply ''true'') K cfg srv m w \<and>
   (expect_reply word reply = None \<longleftrightarrow> reply = Inr word)"
  by (intro conjI)
    (auto simp: endpoint_defs UpdateNacosServiceInstance_def CreateNacosService_def
      UpdateNacosService_def DeleteNacosService_def EditNacosConfigDetail_def expect_reply_def
      split: prod.split sum.split)

end
