(* ===== verification/NacosRace.thy ===== *)
theory NacosRace
  imports NacosClient
begin

text \<open>
  The goroutine of \<open>RefreshConfig\<close> beside the SDK's, which runs the \<open>OnChange\<close> callback that \<open>WatchConfig\<close>
  installed. The two share the maps and the application's state without a lock; every \<open>sync.Map\<close> operation, every
  call of a handler and every request to the server is one step. The sequential account of either is in
  \<open>NacosClient\<close>.
\<close>

section \<open>Steps\<close>

text \<open>Where the refresh of one entry stands, and where the callback does.\<close>

datatype 'a refresh_pc =
    RIdle                                     \<comment> \<open>between two entries of the \<open>Range\<close>\<close>
  | RFetched ConfigParam "'a Handler" string  \<comment> \<open>in \<open>GetConfig\<close>: the server has answered\<close>
  | RCached ConfigParam "'a Handler" string   \<comment> \<open>\<open>GetConfig\<close> has stored the answer and returned it\<close>
  | RDiffers ConfigParam "'a Handler" string  \<comment> \<open>the cache has been found to hold something else\<close>
  | RStored ConfigParam "'a Handler" string

datatype listen_pc = LIdle | LHandled ConfigParam string

type_synonym ('w, 'a) race_state = "('w, 'a) nacos_client \<times> 'a refresh_pc \<times> listen_pc"

inductive race_step ::
    "('w, 'a) get_retry \<Rightarrow> nacos_env \<Rightarrow> ('w, 'a) config_client \<Rightarrow> ('w, 'a) race_state \<Rightarrow> ('w, 'a) race_state \<Rightarrow> bool"
    for R E C where
  fetch: "(p, h) \<in> set (ConfigWatchHandleMap c) \<Longrightarrow> GetConfig R E C p c = ((data, None), c1) \<Longrightarrow>
    race_step R E C (c, RIdle, l) (c\<lparr>nc_world := nc_world c1\<rparr>, RFetched p h data, l)"
| fetch_error: "(p, h) \<in> set (ConfigWatchHandleMap c) \<Longrightarrow> GetConfig R E C p c = ((data, Some e), c1) \<Longrightarrow>
    race_step R E C (c, RIdle, l) (c\<lparr>nc_world := nc_world c1\<rparr>, RIdle, l)"
| cache: "race_step R E C (c, RFetched p h data, l)
    (c\<lparr>ConfigCacheMap := sm_Store p data (ConfigCacheMap c)\<rparr>, RCached p h data, l)"
| same: "sm_Load (ConfigCacheMap c) p = Some data \<Longrightarrow> race_step R E C (c, RCached p h data, l) (c, RIdle, l)"
| differs: "sm_Load (ConfigCacheMap c) p \<noteq> Some data \<Longrightarrow>
    race_step R E C (c, RCached p h data, l) (c, RDiffers p h data, l)"
| store_old: "race_step R E C (c, RDiffers p h data, l)
    (c\<lparr>ConfigCacheMap := sm_Store p data (ConfigCacheMap c)\<rparr>, RStored p h data, l)"
| handle_old: "h (cp_DataId p) data (nc_app c) = Ret a \<Longrightarrow>
    race_step R E C (c, RStored p h data, l) (c\<lparr>nc_app := a\<rparr>, RIdle, l)"
| change: "(p, h) \<in> set (ConfigWatchHandleMap c) \<Longrightarrow> h (cp_DataId p) data (nc_app c) = Ret a \<Longrightarrow>
    race_step R E C (c, r, LIdle) (c\<lparr>nc_app := a\<rparr>, r, LHandled p data)"
| change_cached: "race_step R E C (c, r, LHandled p data)
    (c\<lparr>ConfigCacheMap := sm_Store p data (ConfigCacheMap c)\<rparr>, r, LIdle)"

inductive_cases race_step_cached: "race_step R E C (c, RCached p h data, l) s'"
inductive_cases race_step_fetched: "race_step R E C (c, RFetched p h data, l) s'"

abbreviation race_run where "race_run R E C \<equiv> (race_step R E C)\<^sup>*\<^sup>*"

section \<open>Without the callback\<close>

text \<open>
  The steps of one refresh, undisturbed, are the sequential \<open>refresh_entry\<close>; and as long as the callback does
  not move, the cache that the refresh looks at is the one it has just filled.
\<close>

lemma refresh_entry_steps:
  assumes "retry_law R" and "(p, h) \<in> set (ConfigWatchHandleMap c)" and "refresh_entry R E C (p, h) c = Ret c'"
    and "GetConfig R E C p c = ((data, None), c1)"
  shows "race_run R E C (c, RIdle, l) (c', RIdle, l)"
proof -
  let ?c1 = "c\<lparr>nc_world := nc_world c1\<rparr>"
  note G = GetConfig_effect[OF assms(1,4)]
  have c1: "?c1\<lparr>ConfigCacheMap := sm_Store p data (ConfigCacheMap ?c1)\<rparr> = c1"
    using G by (cases c; cases c1) simp
  have c': "c' = c1" using assms(3,4) GetConfig_cached[OF assms(1,4)] by (simp add: refresh_entry_def)
  have "race_step R E C (c, RIdle, l) (?c1, RFetched p h data, l)" using assms(2,4) by (rule fetch)
  moreover have "race_step R E C (?c1, RFetched p h data, l) (c1, RCached p h data, l)"
    using cache[of R E C ?c1 p h data l] unfolding c1 .
  moreover have "race_step R E C (c1, RCached p h data, l) (c1, RIdle, l)"
    using GetConfig_cached[OF assms(1,4)] by (rule same)
  ultimately show ?thesis unfolding c'
    by (meson r_into_rtranclp rtranclp.rtrancl_into_rtrancl)
qed

text \<open>The entry that the refresh has fetched but not yet judged is in the cache, unless the callback overwrites it.\<close>

inductive undisturbed :: "('w, 'a) get_retry \<Rightarrow> nacos_env \<Rightarrow> ('w, 'a) config_client \<Rightarrow> ('w, 'a) race_state \<Rightarrow> ('w, 'a) race_state \<Rightarrow> bool"
    for R E C where
  undisturbed_refl: "undisturbed R E C s s"
| undisturbed_step: "undisturbed R E C s (c, r, l) \<Longrightarrow> race_step R E C (c, r, l) (c', r', l) \<Longrightarrow> undisturbed R E C s (c', r', l)"

definition cached_ok :: "('w, 'a) race_state \<Rightarrow> bool" where
  "cached_ok s \<longleftrightarrow> (case s of (c, RCached p h data, l) \<Rightarrow> sm_Load (ConfigCacheMap c) p = Some data
     | (c, RDiffers p h data, l) \<Rightarrow> False | (c, RStored p h data, l) \<Rightarrow> False | _ \<Rightarrow> True)"

lemma undisturbed_ok:
  assumes "undisturbed R E C s s'" and "cached_ok s"
  shows "cached_ok s' \<and> nc_app (fst s') = nc_app (fst s)"
  using assms
proof (induction rule: undisturbed.induct)
  case (undisturbed_step s c r l c' r')
  then have ok: "cached_ok (c, r, l)" and app: "nc_app c = nc_app (fst s)" by auto
  from undisturbed_step(2) ok have "cached_ok (c', r', l) \<and> nc_app c' = nc_app c"
    by (cases rule: race_step.cases) (auto simp: cached_ok_def sm_Load_Store)
  with app show ?case by simp
qed simp

section \<open>With it\<close>

text \<open>
  C18: The refresh that is meant to repair missed changes can undo one. When the callback delivers \<open>new\<close> after the
  refresh has fetched \<open>old\<close> and filled the cache with it, the two goroutines can run so that the handler gets
  \<open>new\<close> and then \<open>old\<close>: the application is left with the outdated configuration, and no later tick of the
  refresh runs the handler again, whatever the server returns.
\<close>

theorem refresh_can_undo_change:
  assumes R: "retry_law R" and watch: "(p, h) \<in> set (ConfigWatchHandleMap c)"
    and get: "GetConfig R E C p c = ((old, None), c1)" and "new \<noteq> old"
    and new: "h (cp_DataId p) new (nc_app c) = Ret a1" and old: "h (cp_DataId p) old a1 = Ret a2"
  shows "\<exists>c'. race_run R E C (c, RIdle, LIdle) (c', RIdle, LIdle) \<and> nc_app c' = a2 \<and>
    sm_Load (ConfigCacheMap c') p = Some old \<and>
    (\<forall>evs. \<exists>c''. RefreshConfig R E C evs c' = Ret c'' \<and> nc_app c'' = a2)"
proof -
  define k where "k = (\<lambda>data c. c\<lparr>ConfigCacheMap := sm_Store p data (ConfigCacheMap c)\<rparr> :: ('b, 'a) nacos_client)"
  define c2 where "c2 = k old (c\<lparr>nc_world := nc_world c1\<rparr>)"
  define c3 where "c3 = k new (c2\<lparr>nc_app := a1\<rparr>)"
  define c4 where "c4 = (k old c3)\<lparr>nc_app := a2\<rparr>"
  have "race_run R E C (c, RIdle, LIdle) (c2, RCached p h old, LIdle)"
    using fetch[OF watch get, of LIdle] cache[of R E C "c\<lparr>nc_world := nc_world c1\<rparr>" p h old LIdle]
    unfolding c2_def k_def by (meson r_into_rtranclp rtranclp.rtrancl_into_rtrancl)
  also have "race_run R E C (c2, RCached p h old, LIdle) (c3, RCached p h old, LIdle)"
    using change[of p h c2 new a1 R E C "RCached p h old"] change_cached[of R E C "c2\<lparr>nc_app := a1\<rparr>" "RCached p h old" p new]
      watch new
    by (simp add: c3_def c2_def k_def)
  also have "race_run R E C (c3, RCached p h old, LIdle) (c4, RIdle, LIdle)"
  proof -
    have "sm_Load (ConfigCacheMap c3) p \<noteq> Some old" using assms(4) by (simp add: c3_def k_def sm_Load_Store)
    then have "race_step R E C (c3, RCached p h old, LIdle) (c3, RDiffers p h old, LIdle)" by (rule differs)
    moreover have "race_step R E C (c3, RDiffers p h old, LIdle) (k old c3, RStored p h old, LIdle)"
      unfolding k_def by (rule store_old)
    moreover have "race_step R E C (k old c3, RStored p h old, LIdle) (c4, RIdle, LIdle)"
      unfolding c4_def using old by (intro handle_old) (simp add: c3_def k_def)
    ultimately show ?thesis by (meson r_into_rtranclp rtranclp.rtrancl_into_rtrancl)
  qed
  finally have run: "race_run R E C (c, RIdle, LIdle) (c4, RIdle, LIdle)" .
  have "nc_app c4 = a2" "sm_Load (ConfigCacheMap c4) p = Some old" by (simp_all add: c4_def k_def sm_Load_Store)
  moreover have "\<exists>c''. RefreshConfig R E C evs c4 = Ret c'' \<and> nc_app c'' = a2" for evs
    using RefreshConfig_returns[OF R, of E C evs c4] by (auto simp: c4_def)
  ultimately show ?thesis using run by blast
qed

text \<open>A handler that keeps the last configuration, and a server that still answers \<open>prod\<close>.\<close>

lemma refresh_can_undo_change_witness:
  "\<exists>c'. race_run retry_twice example_env (flaky_client :: (nat, string) config_client)
      (\<lparr>nc_world = 1, ConfigCacheMap = [], ConfigWatchHandleMap = [(zero_ConfigParam, \<lambda>k d a. Ret d)], nc_app = ''prod''\<rparr>,
        RIdle, LIdle) (c', RIdle, LIdle) \<and> nc_app c' = ''prod'' \<and>
    (\<forall>evs. \<exists>c''. RefreshConfig retry_twice example_env (flaky_client :: (nat, string) config_client) evs c' = Ret c'' \<and>
      nc_app c'' = ''prod'')"
proof -
  let ?c = "\<lparr>nc_world = 1, ConfigCacheMap = [], ConfigWatchHandleMap = [(zero_ConfigParam, \<lambda>k d a. Ret d)], nc_app = ''prod''\<rparr>
      :: (nat, string) nacos_client"
  have g: "GetConfig retry_twice example_env flaky_client zero_ConfigParam ?c =
      ((''prod'', None), ?c\<lparr>nc_world := 2, ConfigCacheMap := [(zero_ConfigParam, ''prod'')]\<rparr>)"
    by (simp add: GetConfig_def get_attempt_eq flaky_client_def example_env_def zero_ConfigParam_def
        default_group_def changeOwnConfigParam2vo_def sm_Store_def)
  show ?thesis
    using refresh_can_undo_change[where c = ?c and p = zero_ConfigParam and h = "\<lambda>k d a. Ret d" and new = "''new''" and
        ?a1.0 = "''new''" and ?a2.0 = "''prod''", OF retry_twice_law _ g]
    by (auto simp: numeral_2_eq_2)
qed

end
