(* ===== verification/Utils.thy ===== *)
theory Utils
  imports SyncMap
begin

text \<open>
  The string, slice and error helpers of \<open>common/utils/utils.go\<close>: service targets, membership tests,
  the error code of an RPC, phone masking, kebab case, truncation and trace identifiers.

  \<open>reflect.DeepEqual\<close> is equality of the model's values. Looking up \<open>code\<close> in an error text that is
  JSON is done by the \<open>gjson\<close> package: the parameter \<open>gjson_code\<close> gives the integer of the field
  when it exists. \<open>fmt_status\<close> is the gRPC library's text of a status (see \<open>err_text\<close>).
\<close>

section \<open>Service targets\<close>

definition GetTarget :: "string \<Rightarrow> string \<Rightarrow> string" where
  "GetTarget serviceName namespace = serviceName @ ''.'' @ namespace @ '':50051''"

definition GetSvcNameAndNsFromTarget :: "string \<Rightarrow> gerr + string \<times> string" where
  "GetSvcNameAndNsFromTarget target =
     (let target = TrimSuffix target '':50051'';
          vec = split_byte (CHR ''.'') target
      in if length vec \<noteq> 2 then Inl (PlainErr ''parse target failed'')
         else Inr (vec ! 0, vec ! 1))"

lemma length_two_iff: "length xs = 2 \<longleftrightarrow> (\<exists>a b. xs = [a, b])"
  by (auto simp: numeral_2_eq_2 length_Suc_conv)

lemma GetTarget_trim: "TrimSuffix (GetTarget s n) '':50051'' = s @ ''.'' @ n"
  unfolding GetTarget_def by (metis TrimSuffix_append append.assoc)

lemma target_parse_iff:
  "GetSvcNameAndNsFromTarget target = Inr (s, n) \<longleftrightarrow>
     CHR ''.'' \<notin> set s \<and> CHR ''.'' \<notin> set n \<and> TrimSuffix target '':50051'' = s @ ''.'' @ n"
  unfolding GetSvcNameAndNsFromTarget_def Let_def
  by (auto simp: length_two_iff split_byte_two_iff[symmetric])

text \<open>
  Parsing the target built from a service and a namespace gives them back exactly when neither
  name contains a dot; otherwise it reports an error.
\<close>

lemma target_roundtrip:
  "GetSvcNameAndNsFromTarget (GetTarget s n) =
     (if CHR ''.'' \<notin> set s \<and> CHR ''.'' \<notin> set n then Inr (s, n) else Inl (PlainErr ''parse target failed''))"
proof (cases "CHR ''.'' \<notin> set s \<and> CHR ''.'' \<notin> set n")
  case True
  then show ?thesis by (simp add: target_parse_iff GetTarget_trim)
next
  case False
  then have "length (split_byte (CHR ''.'') (s @ ''.'' @ n)) \<noteq> 2"
    by (auto simp: length_split_byte count_list_append count_list_0_iff)
  with False show ?thesis by (simp add: GetSvcNameAndNsFromTarget_def GetTarget_trim)
qed

section \<open>Membership\<close>

fun CmpWithStringListAnyEqualFold :: "unicode_tables \<Rightarrow> string \<Rightarrow> string list \<Rightarrow> bool" where
  "CmpWithStringListAnyEqualFold U key [] = False"
| "CmpWithStringListAnyEqualFold U key (ss # ins) =
     (if EqualFold U ss key then True else CmpWithStringListAnyEqualFold U key ins)"

fun InArray :: "'a \<Rightarrow> 'a list \<Rightarrow> bool" where
  "InArray val [] = False"
| "InArray val (x # xs) = (if val = x then True else InArray val xs)"

fun IsArrayInArray :: "'a list \<Rightarrow> 'a list \<Rightarrow> bool" where
  "IsArrayInArray [] largeArray = True"
| "IsArrayInArray (x # xs) largeArray =
     (if \<not> InArray x largeArray then False else IsArrayInArray xs largeArray)"

lemma InArray_iff [simp]: "InArray x xs \<longleftrightarrow> x \<in> set xs"
  by (induction xs) auto

lemma IsArrayInArray_iff: "IsArrayInArray xs ys \<longleftrightarrow> set xs \<subseteq> set ys"
  by (induction xs) auto

lemma CmpWithStringListAnyEqualFold_iff:
  "CmpWithStringListAnyEqualFold U k ss \<longleftrightarrow> (\<exists>s \<in> set ss. EqualFold U s k)"
  by (induction ss) auto

section \<open>The code of an RPC error\<close>

definition ParseRPCErrorCode ::
    "(int \<Rightarrow> string \<Rightarrow> string) \<Rightarrow> (string \<Rightarrow> int option) \<Rightarrow> gerr option \<Rightarrow> int" where
  "ParseRPCErrorCode fmt_status gjson_code err =
     (case err of
        None \<Rightarrow> 0
      | Some e \<Rightarrow>
         (case e of
            StatusErr c d \<Rightarrow> if c \<noteq> 2 then c
                            else (case gjson_code (err_text fmt_status e) of
                                    Some r \<Rightarrow> if r \<noteq> 0 then r else 2 | None \<Rightarrow> 2)
          | PlainErr m \<Rightarrow> (case gjson_code (err_text fmt_status e) of
                            Some r \<Rightarrow> if r \<noteq> 0 then r else 2 | None \<Rightarrow> 2)))"

text \<open>
  The code that an RPC error is given is 0 only for a nil error or a status with code 0: an error
  that carries no status, or the status \<open>Unknown\<close>, gets a non-zero code from its text or 2.
\<close>

lemma ParseRPCErrorCode_zero_iff:
  "ParseRPCErrorCode F G err = 0 \<longleftrightarrow> err = None \<or> (\<exists>d. err = Some (StatusErr 0 d))"
  by (auto simp: ParseRPCErrorCode_def split: option.splits gerr.splits if_splits)

section \<open>Truncation and trace identifiers\<close>

definition GetLessThenLimitStr :: "string \<Rightarrow> int \<Rightarrow> string go" where
  "GetLessThenLimitStr strIn limit =
     (if int (length strIn) > limit
      then (if limit < 0 then Panic SliceOutOfRange else Ret (take (nat limit) strIn))
      else Ret strIn)"

lemma GetLessThenLimitStr_take:
  "0 \<le> limit \<Longrightarrow> GetLessThenLimitStr s limit = Ret (take (nat limit) s)"
  by (auto simp: GetLessThenLimitStr_def)

definition B3TraceIdToUberTraceId :: "string \<Rightarrow> string \<Rightarrow> string \<Rightarrow> string \<Rightarrow> string" where
  "B3TraceIdToUberTraceId traceId spanId parentSpanID flag =
     (if traceId = [] then []
      else
        let spanId = (if spanId = [] then ''0000000000000000'' else spanId);
            parentSpanID = (if parentSpanID = [] then ''0000000000000000'' else parentSpanID);
            flag = (if flag = [] then ''0'' else flag)
        in traceId @ '':'' @ spanId @ '':'' @ parentSpanID @ '':'' @ flag)"

section \<open>Phone masking\<close>

definition star :: nat where "star = 42"

definition MaskPhone :: "string \<Rightarrow> string" where
  "MaskPhone phone =
     (let (pre, suf) = (if 10 \<le> length phone then (3, 2) else (2, 2));
          rs = runes phone
      in string_of_runes (fold (\<lambda>i rs. rs[i := star]) [pre..<length rs - suf] rs))"

lemma fold_star_nth:
  "j < length rs \<Longrightarrow>
   fold (\<lambda>i rs. rs[i := star]) is rs ! j = (if j \<in> set is then star else rs ! j)"
  by (induction "is" arbitrary: rs) (auto simp: nth_list_update)

lemma fold_star_length [simp]: "length (fold (\<lambda>i rs. rs[i := star]) is rs) = length rs"
  by (induction "is" arbitrary: rs) auto

lemma fold_star_valid:
  "list_all valid_rune rs \<Longrightarrow> list_all valid_rune (fold (\<lambda>i rs. rs[i := star]) is rs)"
proof (induction "is" arbitrary: rs)
  case (Cons i "is")
  have "list_all valid_rune (rs[i := star])"
    using Cons.prems set_update_subset_insert[of rs i star]
    by (auto simp: list_all_iff valid_rune_def star_def)
  with Cons.IH show ?case by simp
qed simp

lemma runes_MaskPhone:
  "runes (MaskPhone phone) =
     (let (pre, suf) = (if 10 \<le> length phone then (3, 2) else (2, 2))
      in fold (\<lambda>i rs. rs[i := star]) [pre..<length (runes phone) - suf] (runes phone))"
  by (simp add: MaskPhone_def Let_def runes_string_of_runes fold_star_valid)

text \<open>
  Masking a phone number keeps the number of characters; the character at position \<open>j\<close> is a star
  exactly when it is neither among the first three (two, when the text has fewer than ten bytes)
  nor among the last two, unless it was a star already; every other character is unchanged.
\<close>

lemma MaskPhone_hides_middle:
  "length (runes (MaskPhone phone)) = length (runes phone) \<and>
   (\<forall>j < length (runes phone).
      runes (MaskPhone phone) ! j =
        (if (if 10 \<le> length phone then 3 else 2) \<le> j \<and> j + 2 < length (runes phone)
         then star else runes phone ! j))"
  by (auto simp: runes_MaskPhone fold_star_nth)

lemma MaskPhone_hides_middle_witness:
  "runes (MaskPhone ''13812345678'') ! 5 = star \<and> runes (MaskPhone ''13812345678'') ! 1 = 51"
proof -
  have r: "runes ''13812345678'' = map of_char ''13812345678''"
    by (simp add: runes_ascii bytes_of_def)
  show ?thesis
    using MaskPhone_hides_middle[of "''13812345678''"] unfolding r by simp
qed

section \<open>Kebab case\<close>

definition kebab_step :: "unicode_tables \<Rightarrow> nat \<times> nat \<Rightarrow> nat list \<Rightarrow> nat list" where
  "kebab_step U ir result =
     (let (i, r) = ir in
      if IsUpper U r
      then (if i > 0 then result @ [45] else result) @ [ToLower U r]
      else result @ [r])"

definition CamelToKebabCase :: "unicode_tables \<Rightarrow> string \<Rightarrow> string" where
  "CamelToKebabCase U s = string_of_runes (fold (kebab_step U) (range_string s) [])"

lemma CamelToKebabCase_examples:
  "CamelToKebabCase U ''PandaAccount'' = ''panda-account''"
  "CamelToKebabCase U ''PandaAuth'' = ''panda-auth''"
  "CamelToKebabCase U ''CommonService'' = ''common-service''"
  by (simp_all add: CamelToKebabCase_def range_string_def bytes_of_def decode_indexed_ascii
      kebab_step_def IsUpper_def ToLower_def string_of_runes_ascii upt_rec char_of_eq_iff take_bit_eq_mod)

end
