(* ===== verification/K8s.thy ===== *)
theory K8s
  imports Utils "HOL-Library.List_Lexorder" "HOL-Library.Char_ord" "HOL-Library.Multiset"
begin

text \<open>
  \<open>component/k8s/k8s.go\<close>: the Kubernetes client of the process and \<open>GetNewServiceEntity\<close>, which finds
  the namespace a service lives in and remembers the namespaces per service.

  The Kubernetes API is a parameter: \<open>InClusterConfig\<close> and \<open>NewForConfig\<close> of the record \<open>k8s_api\<close>, and
  \<open>k8s_list\<close>, the listing of all services, whose result may be nil. Go orders strings byte by byte,
  which is the lexicographic order of \<open>char list\<close>. \<open>sort.Slice\<close> is insertion sort, the algorithm
  the standard library runs on slices of up to twelve elements; the lemmas on it use only that the
  result is a sorted permutation, so that they hold for any sorting algorithm on distinct elements.
\<close>

section \<open>\<open>sort.Slice\<close>\<close>

text \<open>\<open>ps\<close> is the sorted part, last element first; \<open>x\<close> moves left past its predecessors.\<close>

fun sink :: "('a \<Rightarrow> 'a \<Rightarrow> bool) \<Rightarrow> 'a \<Rightarrow> 'a list \<Rightarrow> 'a list" where
  "sink lt x [] = [x]"
| "sink lt x (p # ps) = (if lt x p then p # sink lt x ps else x # p # ps)"

definition sort_Slice :: "('a \<Rightarrow> 'a \<Rightarrow> bool) \<Rightarrow> 'a list \<Rightarrow> 'a list" where
  "sort_Slice lt xs = rev (fold (sink lt) xs [])"

lemma mset_sink [simp]: "mset (sink lt x ps) = add_mset x (mset ps)"
  by (induction ps) auto

lemma mset_fold_sink: "mset (fold (sink lt) xs ps) = mset xs + mset ps"
  by (induction xs arbitrary: ps) auto

lemma mset_sort_Slice [simp]: "mset (sort_Slice lt xs) = mset xs"
  by (simp add: sort_Slice_def mset_fold_sink)

lemma set_sort_Slice [simp]: "set (sort_Slice lt xs) = set xs"
  using mset_sort_Slice by (rule mset_eq_setD)

lemma sort_Slice_Nil_iff [simp]: "sort_Slice lt xs = [] \<longleftrightarrow> xs = []"
  by (metis mset_sort_Slice mset_zero_iff)

lemma sink_sorted:
  assumes trans: "transp lt" and total: "totalp lt"
    and "sorted_wrt (\<lambda>a b. lt b a \<or> a = b) ps"
  shows "sorted_wrt (\<lambda>a b. lt b a \<or> a = b) (sink lt x ps)"
  using assms(3)
proof (induction ps)
  case (Cons p ps)
  have set: "set (sink lt x ps) = insert x (set ps)" by (metis mset_sink set_mset_add_mset_insert set_mset_mset)
  show ?case
  proof (cases "lt x p")
    case True
    with Cons show ?thesis by (auto simp: set)
  next
    case False
    then have "lt p x \<or> p = x" using total by (metis totalpD)
    then have "\<forall>q \<in> set ps. lt q x \<or> q = x" using Cons.prems trans by (auto dest: transpD)
    with False Cons.prems \<open>lt p x \<or> p = x\<close> show ?thesis by auto
  qed
qed simp

lemma sort_Slice_sorted:
  assumes "transp lt" and "totalp lt"
  shows "sorted_wrt (\<lambda>a b. lt a b \<or> a = b) (sort_Slice lt xs)"
proof -
  have "sorted_wrt (\<lambda>a b. lt b a \<or> a = b) ps \<Longrightarrow>
        sorted_wrt (\<lambda>a b. lt b a \<or> a = b) (fold (sink lt) xs ps)" for ps
  proof (induction xs arbitrary: ps)
    case (Cons x xs)
    then show ?case using sink_sorted[OF assms Cons.prems] by simp
  qed simp
  from this[of "[]"] show ?thesis
    by (simp add: sort_Slice_def sorted_wrt_rev eq_commute)
qed

lemma sort_Slice_hd_least:
  assumes "transp lt" and "totalp lt"
    and "xs \<noteq> []" and "y \<in> set xs"
  shows "lt (hd (sort_Slice lt xs)) y \<or> hd (sort_Slice lt xs) = y"
proof -
  obtain a rest where sorted: "sort_Slice lt xs = a # rest"
    using assms(3) by (cases "sort_Slice lt xs") auto
  then have "y \<in> set (a # rest)" using assms(4) by (metis set_sort_Slice)
  then show ?thesis
    using sort_Slice_sorted[OF assms(1,2), where xs = xs] by (auto simp: sorted)
qed

section \<open>The client\<close>

record k8s_service =
  ks_Name :: string
  ks_Namespace :: string

record ('cfg, 'cl) k8s_api =
  InClusterConfig :: "gerr + 'cfg"
  NewForConfig :: "'cfg \<Rightarrow> gerr + 'cl"

record ('cfg, 'cl) k8s_state =
  k8s_once :: bool
  k8s_config :: "'cfg option"
  k8sClient :: "'cl option"
  service2NamespacesMp :: "string \<rightharpoonup> string list"

definition GetK8sConfig :: "('cfg, 'cl) k8s_state \<Rightarrow> gerr + 'cfg" where
  "GetK8sConfig st =
     (case k8s_config st of None \<Rightarrow> Inl (PlainErr ''not found k8s config'') | Some cfg \<Rightarrow> Inr cfg)"

definition GetK8sClient ::
    "('cfg, 'cl) k8s_api \<Rightarrow> ('cfg, 'cl) k8s_state \<Rightarrow> 'cl option \<times> ('cfg, 'cl) k8s_state" where
  "GetK8sClient api st =
     (let st = (if k8s_once st then st
                else
                  case InClusterConfig api of
                    Inl e \<Rightarrow> st\<lparr>k8s_once := True, k8s_config := None\<rparr>
                  | Inr cfg \<Rightarrow>
                      st\<lparr>k8s_once := True, k8s_config := Some cfg,
                         k8sClient := (case NewForConfig api cfg of Inl e \<Rightarrow> None | Inr cl \<Rightarrow> Some cl)\<rparr>)
      in (k8sClient st, st))"

section \<open>Finding a service\<close>

text \<open>The comparison of \<open>sortNamespacesFunc\<close>: one special namespace before all others.\<close>

definition less_special :: "string \<Rightarrow> string \<Rightarrow> string \<Rightarrow> bool" where
  "less_special specialNamespace a b =
     (if a = specialNamespace then True else if b = specialNamespace then False else a < b)"

definition sortNamespaces :: "string list \<Rightarrow> string \<Rightarrow> string list" where
  "sortNamespaces namespaces headNamespace =
     sort_Slice (less_special (if headNamespace \<noteq> [] then headNamespace else ''default'')) namespaces"

definition namespaces_of :: "string \<Rightarrow> k8s_service list \<Rightarrow> string list" where
  "namespaces_of serviceName services =
     fold (\<lambda>service acc. if ks_Name service \<noteq> serviceName then acc else acc @ [ks_Namespace service])
       services []"

type_synonym ('cl, 'w) k8s_list = "'cl \<Rightarrow> 'w \<Rightarrow> (gerr + k8s_service list option) \<times> 'w"

text \<open>
  Results: whether the namespace changed, the namespace, the error. The sorted slice is the one kept in
  \<open>service2NamespacesMp\<close> (the sort is in place). Taking element 0 of an empty slice panics; a panic carries no
  state here, and the empty entry that the code has made by then counts as none in every later lookup.
\<close>

definition lookup_services ::
    "('cfg, 'cl) k8s_api \<Rightarrow> ('cl, 'w) k8s_list \<Rightarrow> string \<Rightarrow> string \<Rightarrow> ('cfg, 'cl) k8s_state \<Rightarrow> 'w \<Rightarrow>
     ((bool \<times> string \<times> gerr option) \<times> ('cfg, 'cl) k8s_state \<times> 'w) go" where
  "lookup_services api k8s_list serviceName originNamespace st w =
     (case GetK8sClient api st of
       (None, st) \<Rightarrow>
         Ret ((False, [], Some (PlainErr ''[GetNewServiceEntity] [GetK8sClient] is nil in function GetService'')), st, w)
     | (Some clientset, st) \<Rightarrow>
         (case k8s_list clientset w of
            (Inl e, w) \<Rightarrow> Ret ((False, originNamespace, Some e), st, w)
          | (Inr None, w) \<Rightarrow> Ret ((False, originNamespace, None), st, w)
          | (Inr (Some services), w) \<Rightarrow>
              let namespaces = namespaces_of serviceName services;
                  headNamespace = (if InArray originNamespace namespaces then originNamespace else []);
                  isChange = (\<not> InArray originNamespace namespaces);
                  sorted = sortNamespaces namespaces headNamespace;
                  st = st\<lparr>service2NamespacesMp := (service2NamespacesMp st)(serviceName \<mapsto> sorted)\<rparr>
              in case sorted of
                   [] \<Rightarrow> Panic IndexOutOfRange
                 | ns # _ \<Rightarrow> Ret ((isChange, ns, None), st, w)))"

definition GetNewServiceEntity ::
    "('cfg, 'cl) k8s_api \<Rightarrow> ('cl, 'w) k8s_list \<Rightarrow> string \<Rightarrow> string \<Rightarrow> ('cfg, 'cl) k8s_state \<Rightarrow> 'w \<Rightarrow>
     ((bool \<times> string \<times> gerr option) \<times> ('cfg, 'cl) k8s_state \<times> 'w) go" where
  "GetNewServiceEntity api k8s_list serviceName originNamespace st w =
     (case service2NamespacesMp st serviceName of
        Some (ns # nss) \<Rightarrow>
          if \<not> InArray originNamespace (ns # nss) then Ret ((True, ns, None), st, w)
          else lookup_services api k8s_list serviceName originNamespace st w
      | _ \<Rightarrow> lookup_services api k8s_list serviceName originNamespace st w)"

lemma less_special_trans: "transp (less_special h)"
  by (rule transpI) (auto simp: less_special_def split: if_splits)

lemma less_special_total: "totalp (less_special h)"
  by (rule totalpI) (auto simp: less_special_def)

lemma sortNamespaces_hd:
  assumes "nss \<noteq> []" and "h = (if head \<noteq> [] then head else ''default'')"
  shows "hd (sortNamespaces nss head) = (if h \<in> set nss then h else Min (set nss))"
proof -
  let ?m = "hd (sortNamespaces nss head)"
  have least: "less_special h ?m y \<or> ?m = y" if "y \<in> set nss" for y
    unfolding sortNamespaces_def assms(2)
    by (rule sort_Slice_hd_least[OF less_special_trans less_special_total assms(1) that])
  have mem: "?m \<in> set nss"
    unfolding sortNamespaces_def by (metis assms(1) hd_in_set set_sort_Slice sort_Slice_Nil_iff)
  show ?thesis
  proof (cases "h \<in> set nss")
    case True
    with least[of h] show ?thesis by (auto simp: less_special_def split: if_splits)
  next
    case False
    then have "?m \<le> y" if "y \<in> set nss" for y
      using least[OF that] mem that by (auto simp: less_special_def split: if_splits)
    with False mem show ?thesis by (auto intro!: Min_eqI[symmetric])
  qed
qed

lemma set_namespaces_of:
  "set (namespaces_of svc services) = {ks_Namespace s |s. s \<in> set services \<and> ks_Name s = svc}"
proof -
  have "set (fold (\<lambda>s acc. if ks_Name s \<noteq> svc then acc else acc @ [ks_Namespace s]) services acc) =
        set acc \<union> {ks_Namespace s |s. s \<in> set services \<and> ks_Name s = svc}" for acc
    by (induction services arbitrary: acc) auto
  then show ?thesis by (simp add: namespaces_of_def)
qed

text \<open>
  C19: When the Kubernetes API lists the services and nothing usable is cached, the namespace found is
  the original one if the service (still) lives there, else \<open>default\<close> if it lives there, else the
  lexicographically least of its namespaces; a change is reported exactly when the original one
  is not among them; the namespaces are remembered. If no service has the name, the call panics
  (element 0 of an empty slice) where the code means to report that the service was not found.
\<close>

theorem GetNewServiceEntity_lookup:
  assumes "service2NamespacesMp st svc \<in> {None, Some []}"
    and "GetK8sClient api st = (Some cl, st1)" and "k8s_list cl w = (Inr (Some services), w1)"
    and "N = {ks_Namespace s |s. s \<in> set services \<and> ks_Name s = svc}"
  shows "if N = {} then GetNewServiceEntity api k8s_list svc origin st w = Panic IndexOutOfRange
    else \<exists>st2. GetNewServiceEntity api k8s_list svc origin st w =
      Ret ((origin \<notin> N,
            (if origin \<in> N \<and> origin \<noteq> [] then origin
             else if ''default'' \<in> N then ''default'' else Min N),
            None), st2, w1) \<and>
      (\<exists>nss. service2NamespacesMp st2 svc = Some nss \<and> set nss = N)"
proof -
  define nss where "nss = namespaces_of svc services"
  define head where "head = (if InArray origin nss then origin else [])"
  have N: "N = set nss" by (simp add: nss_def set_namespaces_of assms(4))
  have eq: "GetNewServiceEntity api k8s_list svc origin st w =
     (case sortNamespaces nss head of
        [] \<Rightarrow> Panic IndexOutOfRange
      | ns # _ \<Rightarrow> Ret ((\<not> InArray origin nss, ns, None),
          st1\<lparr>service2NamespacesMp := (service2NamespacesMp st1)(svc \<mapsto> sortNamespaces nss head)\<rparr>, w1))"
  proof -
    have "GetNewServiceEntity api k8s_list svc origin st w = lookup_services api k8s_list svc origin st w"
      using assms(1) by (auto simp: GetNewServiceEntity_def)
    then show ?thesis
      by (simp only: lookup_services_def assms(2,3) Let_def prod.case option.case sum.case
          nss_def[symmetric] head_def[symmetric])
  qed
  show ?thesis
  proof (cases "nss = []")
    case True
    then have "sortNamespaces nss head = []" by (simp add: sortNamespaces_def)
    with True show ?thesis by (simp add: eq N)
  next
    case False
    then obtain ns rest where sorted: "sortNamespaces nss head = ns # rest"
      by (cases "sortNamespaces nss head") (auto simp: sortNamespaces_def)
    have "ns = (if origin \<in> N \<and> origin \<noteq> [] then origin else if ''default'' \<in> N then ''default'' else Min N)"
    proof -
      have "ns = (let h = (if head \<noteq> [] then head else ''default'') in if h \<in> set nss then h else Min (set nss))"
        using sortNamespaces_hd[OF False refl, of head] by (simp add: sorted Let_def)
      then show ?thesis by (auto simp: head_def N)
    qed
    moreover have "set (ns # rest) = N"
      unfolding sorted[symmetric] N by (simp add: sortNamespaces_def)
    ultimately show ?thesis using False by (auto simp: eq sorted N)
  qed
qed

definition example_k8s :: "(unit, unit) k8s_api" where
  "example_k8s = \<lparr>InClusterConfig = Inr (), NewForConfig = (\<lambda>_. Inr ())\<rparr>"

definition example_k8s_state :: "(unit, unit) k8s_state" where
  "example_k8s_state =
     \<lparr>k8s_once = False, k8s_config = None, k8sClient = None, service2NamespacesMp = Map.empty\<rparr>"

definition example_services :: "k8s_service list" where
  "example_services =
     [\<lparr>ks_Name = ''panda-auth'', ks_Namespace = ''prod''\<rparr>, \<lparr>ks_Name = ''kafka'', ks_Namespace = ''common''\<rparr>,
      \<lparr>ks_Name = ''panda-auth'', ks_Namespace = ''dev''\<rparr>]"

lemma GetNewServiceEntity_lookup_witness:
  "(\<exists>st. GetNewServiceEntity example_k8s (\<lambda>_ w. (Inr (Some example_services), w)) ''panda-auth'' ''old''
      example_k8s_state () = Ret ((True, ''dev'', None), st, ())) \<and>
   GetNewServiceEntity example_k8s (\<lambda>_ w. (Inr (Some example_services), w)) ''gone'' ''old''
      example_k8s_state () = Panic IndexOutOfRange"
proof -
  have c: "GetK8sClient example_k8s example_k8s_state =
      (Some (), example_k8s_state\<lparr>k8s_once := True, k8s_config := Some (), k8sClient := Some ()\<rparr>)"
    by (simp add: GetK8sClient_def example_k8s_def example_k8s_state_def)
  have m: "service2NamespacesMp example_k8s_state svc \<in> {None, Some []}" for svc
    by (simp add: example_k8s_state_def)
  have n: "{ks_Namespace s |s. s \<in> set example_services \<and> ks_Name s = ''panda-auth''} = {''prod'', ''dev''}"
    "{ks_Namespace s |s. s \<in> set example_services \<and> ks_Name s = ''gone''} = {}"
    unfolding set_namespaces_of[symmetric] by (simp_all add: namespaces_of_def example_services_def)
  have "''dev'' < ''prod''" by (simp add: less_char_def)
  then have "Min {''prod'', ''dev''} = ''dev''" by (simp add: min_def)
  then show ?thesis
    using GetNewServiceEntity_lookup[where st = example_k8s_state and api = example_k8s and w = "()"
        and k8s_list = "\<lambda>_ w. (Inr (Some example_services), w)" and svc = "''panda-auth''"
        and origin = "''old''", OF m c refl n(1)[symmetric]]
      GetNewServiceEntity_lookup[where st = example_k8s_state and api = example_k8s and w = "()"
        and k8s_list = "\<lambda>_ w. (Inr (Some example_services), w)" and svc = "''gone''"
        and origin = "''old''", OF m c refl n(2)[symmetric]]
    by auto
qed

end
