(* ===== verification/ConnStorage.thy ===== *)
theory ConnStorage
  imports SyncMap
begin

text \<open>
  \<open>common/grpc-wrapper/grpc_client_wrapper/conn-storage/conn.go\<close>: the process-wide table of one gRPC
  connection per service. A connection is opaque (\<open>'conn\<close>) and never nil. The operations provide
  the interface \<open>kv_store\<close>.
\<close>

type_synonym 'conn conn_map = "(string, 'conn) gomap"

definition SetServiceName2ConnMap :: "string \<Rightarrow> 'conn \<Rightarrow> 'conn conn_map \<Rightarrow> 'conn conn_map" where
  "SetServiceName2ConnMap serviceName conn m = sm_Store serviceName conn m"

definition GetConnFromServiceMap :: "'conn conn_map \<Rightarrow> string \<Rightarrow> gerr + 'conn" where
  "GetConnFromServiceMap m serviceName =
     (case sm_Load m serviceName of
        Some cc \<Rightarrow> Inr cc
      | None \<Rightarrow> Inl (PlainErr ''GetConnFromServiceMap get conn-storage from serviceName2ConnMap fail''))"

definition DeleteByServiceKeys :: "string list \<Rightarrow> 'conn conn_map \<Rightarrow> 'conn conn_map" where
  "DeleteByServiceKeys serviceNames m = fold sm_Delete serviceNames m"

definition DeleteAllKey :: "'conn conn_map \<Rightarrow> 'conn conn_map" where
  "DeleteAllKey m = fold (\<lambda>(key, _). sm_Delete key) m m"

definition conn_lookup :: "'conn conn_map \<Rightarrow> string \<Rightarrow> 'conn option" where
  "conn_lookup m serviceName =
     (case GetConnFromServiceMap m serviceName of Inl e \<Rightarrow> None | Inr cc \<Rightarrow> Some cc)"

lemma conn_lookup_Load: "conn_lookup m = sm_Load m"
  by (simp add: fun_eq_iff conn_lookup_def GetConnFromServiceMap_def split: option.split)

interpretation conns: kv_store conn_lookup SetServiceName2ConnMap sm_Delete sm_ok
  by unfold_locales
    (simp_all add: conn_lookup_Load SetServiceName2ConnMap_def sm.kv_laws)

lemma GetConnFromServiceMap_iff: "GetConnFromServiceMap m s = Inr cc \<longleftrightarrow> conn_lookup m s = Some cc"
  by (simp add: conn_lookup_def split: sum.split)

lemma conn_lookup_delete_keys:
  "sm_ok m \<Longrightarrow> conn_lookup (DeleteByServiceKeys ks m) = (conn_lookup m) |` (- set ks)"
  by (simp add: DeleteByServiceKeys_def conns.lookup_delete_all)

lemma sm_ok_delete_keys: "sm_ok m \<Longrightarrow> sm_ok (DeleteByServiceKeys ks m)"
  by (simp add: DeleteByServiceKeys_def conns.inv_delete_all)

lemma conn_lookup_delete_all: "sm_ok m \<Longrightarrow> conn_lookup (DeleteAllKey m) = Map.empty"
proof -
  have "DeleteAllKey m = ClearSyncMap m" by (simp add: DeleteAllKey_def ClearSyncMap_def)
  then show "sm_ok m \<Longrightarrow> ?thesis" by (simp add: conn_lookup_Load ClearSyncMap_empty)
qed

end
