(* ===== verification/GrpcCall.thy ===== *)
theory GrpcCall
  imports NacosClient ConnStorage
begin

text \<open>
  \<open>component/nacos/config/grpc-call/config.go\<close>: the map from service to namespace that all instances
  share through Nacos. The package's variables (the \<open>once\<close>, the key, the map) and the connection
  table it invalidates are the record \<open>call_state\<close>, which is the application state \<open>'a\<close> of the Nacos
  client here.

  Parameters: \<open>dec\<close>, \<open>json.Unmarshal\<close> into a fresh \<open>map[string]string\<close> (the map it leaves, and its error,
  which the handler only logs), and \<open>enc\<close>, \<open>MarshalToStringWithoutErr\<close> of a map.
\<close>

record 'conn call_state =
  call_once :: bool
  GrpcCallRelationKey :: string
  service2NamespaceMap :: any_map
  serviceName2ConnMap :: "'conn conn_map"

definition call_ok :: "'conn call_state \<Rightarrow> bool" where
  "call_ok s \<longleftrightarrow> sm_ok (service2NamespaceMap s) \<and> sm_ok (serviceName2ConnMap s)"

type_synonym ns_map = "(string, string) gomap"
type_synonym ns_decoder = "string \<Rightarrow> ns_map \<times> gerr option"

definition initial_key :: string where
  "initial_key = ''.grpc.call.map.service2namespace''"

section \<open>The handler\<close>

definition diff_entry ::
    "ns_map \<Rightarrow> string \<times> string \<Rightarrow> ns_map \<times> string list \<Rightarrow> ns_map \<times> string list" where
  "diff_entry oldMap = (\<lambda>(svcName, ns) (diffMap, diffKeys).
     if map_of oldMap svcName = Some ns then (diffMap, diffKeys)
     else (AList.update svcName ns diffMap, diffKeys @ [svcName]))"

definition diff_maps :: "ns_map \<Rightarrow> ns_map \<Rightarrow> ns_map \<times> string list" where
  "diff_maps oldMap tmpMap = fold (diff_entry oldMap) tmpMap ([], [])"

definition call_handler :: "ns_decoder \<Rightarrow> 'conn call_state Handler" where
  "call_handler dec key value s =
     Ret (if value \<noteq> [] then
            let tmpMap = fst (dec value);
                oldMap = GetNormalMapFromSyncMap (service2NamespaceMap s);
                (diffMap, diffKeys) = diff_maps oldMap tmpMap
            in s\<lparr>serviceName2ConnMap := DeleteByServiceKeys diffKeys (serviceName2ConnMap s),
                 service2NamespaceMap := StorSyncMapFromNormalMap diffMap (service2NamespaceMap s)\<rparr>
          else s)"

section \<open>Operations\<close>

type_synonym ('w, 'conn) call_client = "('w, 'conn call_state) nacos_client"

definition GetGrpcCallConfig ::
    "('w, 'conn call_state) get_retry \<Rightarrow> ('w, 'conn call_state) watch_retry \<Rightarrow> nacos_env \<Rightarrow>
     ('w, 'conn call_state) config_client \<Rightarrow> ns_decoder \<Rightarrow> string \<Rightarrow> ('w, 'conn) call_client \<Rightarrow>
     ('w, 'conn) call_client go" where
  "GetGrpcCallConfig R RW E C dec serviceNameEnv c =
     (if call_once (nc_app c) then Ret c
      else
        let serviceName = (if serviceNameEnv = [] then ''common-grpc-relation'' else serviceNameEnv);
            key = serviceName @ GrpcCallRelationKey (nc_app c);
            s = (nc_app c)\<lparr>call_once := True, GrpcCallRelationKey := key, service2NamespaceMap := []\<rparr>
        in go_map snd (GetAndWatchConfig R RW E C key (call_handler dec) (c\<lparr>nc_app := s\<rparr>)))"

definition GetServiceNamespace :: "string \<Rightarrow> 'conn call_state \<Rightarrow> string" where
  "GetServiceNamespace serviceName s =
     (case sm_Load (service2NamespaceMap s) (StrVal serviceName) of
        Some (StrVal ns) \<Rightarrow> ns
      | _ \<Rightarrow> [])"

text \<open>The error of the publish is only logged.\<close>

definition SetServiceNamespace ::
    "(ConfigParam \<times> bool \<times> 'w) retry \<Rightarrow> nacos_env \<Rightarrow> (string \<Rightarrow> string) \<Rightarrow>
     ('w, 'conn call_state) config_client \<Rightarrow> (ns_map \<Rightarrow> string) \<Rightarrow> string \<Rightarrow> string \<Rightarrow>
     ('w, 'conn) call_client \<Rightarrow> ('w, 'conn) call_client" where
  "SetServiceNamespace RP E md5hex C enc serviceName nameSpace c =
     (let s = nc_app c;
          s = s\<lparr>service2NamespaceMap := sm_Store (StrVal serviceName) (StrVal nameSpace) (service2NamespaceMap s)\<rparr>;
          c = c\<lparr>nc_app := s\<rparr>;
          mp = GetNormalMapFromSyncMap (service2NamespaceMap s)
      in if length mp \<noteq> 0
         then c\<lparr>nc_world := snd (snd (PublishConfig RP E md5hex C
                  (zero_ConfigParam\<lparr>cp_DataId := GrpcCallRelationKey s, cp_Content := enc mp\<rparr>) [] (nc_world c)))\<rparr>
         else c)"

section \<open>What the handler computes\<close>

lemma diff_fold:
  assumes "distinct (map fst tmp)"
  shows "fold (diff_entry old) tmp (d, ks) =
    (fold (\<lambda>(k, v). AList.update k v) (filter (\<lambda>(k, v). map_of old k \<noteq> Some v) tmp) d,
     ks @ map fst (filter (\<lambda>(k, v). map_of old k \<noteq> Some v) tmp))"
  by (induction tmp arbitrary: d ks) (auto simp: diff_entry_def)

lemma update_fresh: "k \<notin> fst ` set d \<Longrightarrow> AList.update k v d = d @ [(k, v)]"
  by (induction d) auto

lemma update_fold_fresh:
  "distinct (map fst kvs) \<Longrightarrow> fst ` set kvs \<inter> fst ` set d = {} \<Longrightarrow>
   fold (\<lambda>(k, v). AList.update k v) kvs d = d @ kvs"
proof (induction kvs arbitrary: d)
  case (Cons kv kvs)
  obtain k v where kv: "kv = (k, v)" by (cases kv)
  have "AList.update k v d = d @ [(k, v)]"
    using Cons.prems(2) by (intro update_fresh) (auto simp: kv)
  then show ?case using Cons by (auto simp: kv)
qed simp

lemma diff_maps_eq:
  assumes "distinct (map fst tmp)"
  shows "diff_maps old tmp =
    (filter (\<lambda>(k, v). map_of old k \<noteq> Some v) tmp,
     map fst (filter (\<lambda>(k, v). map_of old k \<noteq> Some v) tmp))"
proof -
  have "distinct (map fst (filter (\<lambda>(k, v). map_of old k \<noteq> Some v) tmp))"
    by (rule distinct_map_filter[OF assms])
  then show ?thesis
    by (simp add: diff_maps_def diff_fold[OF assms] update_fold_fresh)
qed

lemma map_of_filter_changed:
  "distinct (map fst tmp) \<Longrightarrow>
   map_of (filter (\<lambda>(k, v). map_of old k \<noteq> Some v) tmp) k =
     (case map_of tmp k of None \<Rightarrow> None | Some v \<Rightarrow> if map_of old k = Some v then None else Some v)"
  by (induction tmp) (auto split: option.split)

lemma set_changed_keys:
  "distinct (map fst tmp) \<Longrightarrow>
   set (map fst (filter (\<lambda>(k, v). map_of old k \<noteq> Some v) tmp)) =
     {k. map_of tmp k \<noteq> None \<and> map_of tmp k \<noteq> map_of old k}"
  by (auto simp: image_iff split: prod.split option.splits) (metis map_of_eq_Some_iff map_of_SomeD option.inject)+

definition ns_view :: "'conn call_state \<Rightarrow> string \<Rightarrow> string option" where
  "ns_view s = str_view (service2NamespaceMap s)"

lemma GetServiceNamespace_view:
  "GetServiceNamespace svc s = (case ns_view s svc of None \<Rightarrow> [] | Some ns \<Rightarrow> ns)"
  by (simp add: GetServiceNamespace_def ns_view_def str_view_def split: option.split any_val.split)

lemma str_view_Stor:
  assumes "sm_ok m" and "distinct (map fst d)"
  shows "str_view (StorSyncMapFromNormalMap d m) k =
    (case map_of d k of None \<Rightarrow> str_view m k | Some v \<Rightarrow> Some v)"
  using StorSyncMap_lookup[OF assms] by (simp add: str_view_def split: option.split)

lemma handler_keeps_ok: "call_ok s \<Longrightarrow> call_handler dec key value s = Ret s' \<Longrightarrow> call_ok s'"
  by (auto simp: call_handler_def call_ok_def Let_def sm_ok_delete_keys StorSyncMap_ok
      split: prod.splits)

lemma handler_returns: "\<exists>s'. call_handler dec key value s = Ret s'"
  by (simp add: call_handler_def)

interpretation call_watch: total_config_handler "call_handler dec" call_ok for dec
  by unfold_locales (use handler_keeps_ok handler_returns in blast)+

lemma call_handler_effect:
  assumes "call_ok s" and "dec data = (tmp, e)" and "distinct (map fst tmp)"
  shows "\<exists>s'. call_handler dec key data s = Ret s' \<and>
    ns_view s' = (if data = [] then ns_view s else ns_view s ++ map_of tmp) \<and>
    conn_lookup (serviceName2ConnMap s') =
      conn_lookup (serviceName2ConnMap s) |` {svc. ns_view s' svc = ns_view s svc} \<and>
    call_once s' = call_once s \<and> GrpcCallRelationKey s' = GrpcCallRelationKey s"
proof (cases "data = []")
  case True
  then show ?thesis by (simp add: call_handler_def restrict_map_def)
next
  case False
  let ?m = "service2NamespaceMap s" and ?c = "serviceName2ConnMap s"
  define old where "old = GetNormalMapFromSyncMap ?m"
  define d where "d = filter (\<lambda>(k, v). map_of old k \<noteq> Some v) tmp"
  have ok: "sm_ok ?m" "sm_ok ?c" using assms(1) by (simp_all add: call_ok_def)
  have old: "map_of old = ns_view s" by (simp add: old_def GetNormalMap_lookup ok ns_view_def)
  have dd: "distinct (map fst d)" unfolding d_def by (rule distinct_map_filter[OF assms(3)])
  define s' where "s' = s\<lparr>serviceName2ConnMap := DeleteByServiceKeys (map fst d) ?c,
      service2NamespaceMap := StorSyncMapFromNormalMap d ?m\<rparr>"
  have run: "call_handler dec key data s = Ret s'"
    using False by (simp add: call_handler_def assms(2) diff_maps_eq[OF assms(3)] s'_def
        d_def old_def)
  have view: "ns_view s' svc = (ns_view s ++ map_of tmp) svc" for svc
    using map_of_filter_changed[OF assms(3), of old svc, folded d_def] str_view_Stor[OF ok(1) dd, of svc]
    by (auto simp: s'_def ns_view_def map_add_def old[unfolded ns_view_def]
        split: option.splits if_splits)
  have "conn_lookup (serviceName2ConnMap s') = conn_lookup ?c |` (- set (map fst d))"
    by (simp add: s'_def conn_lookup_delete_keys ok)
  also have "- set (map fst d) = {svc. ns_view s' svc = ns_view s svc}"
    unfolding set_changed_keys[OF assms(3), of old, folded d_def]
    by (auto simp: old view map_add_def split: option.splits)
  finally show ?thesis using run view False by (auto simp: s'_def fun_eq_iff)
qed

text \<open>
  C3: When a new version of the shared map arrives, the namespace of every service that it names is the
  one it names, all other services keep theirs, and the connections dropped are exactly those of the
  services whose namespace changed; nothing else is touched. An empty content changes nothing.
\<close>

theorem call_handler_merges:
  assumes "call_ok s" and "dec data = (tmp, e)" and "distinct (map fst tmp)"
  shows "\<exists>s'. call_handler dec key data s = Ret s' \<and>
    ns_view s' = (if data = [] then ns_view s else ns_view s ++ map_of tmp) \<and>
    conn_lookup (serviceName2ConnMap s') =
      conn_lookup (serviceName2ConnMap s) |` {svc. ns_view s' svc = ns_view s svc} \<and>
    call_once s' = call_once s \<and> GrpcCallRelationKey s' = GrpcCallRelationKey s"
  using assms by (rule call_handler_effect[where dec = dec and data = data])

definition example_call_state :: "nat call_state" where
  "example_call_state = \<lparr>call_once = True, GrpcCallRelationKey = initial_key,
     service2NamespaceMap = [(StrVal ''auth'', StrVal ''dev''), (StrVal ''kafka'', StrVal ''common'')],
     serviceName2ConnMap = [(''auth'', 1), (''kafka'', 2)]\<rparr>"

lemma call_handler_merges_witness:
  "\<exists>s'. call_handler (\<lambda>v. ([(''auth'', ''prod''), (''kafka'', ''common'')], None)) ''k'' ''json'' example_call_state
        = Ret s' \<and> GetServiceNamespace ''auth'' s' = ''prod'' \<and>
      conn_lookup (serviceName2ConnMap s') ''auth'' = None \<and>
      conn_lookup (serviceName2ConnMap s') ''kafka'' = Some 2"
proof -
  have ok: "call_ok example_call_state"
    by (simp add: call_ok_def example_call_state_def sm_ok_def)
  have "conn_lookup (serviceName2ConnMap example_call_state) ''kafka'' = Some 2"
    by (simp add: conn_lookup_Load sm_Load_map_of example_call_state_def)
  moreover have "ns_view example_call_state ''auth'' = Some ''dev''"
    "ns_view example_call_state ''kafka'' = Some ''common''"
    by (simp_all add: ns_view_def str_view_def sm_Load_map_of example_call_state_def)
  ultimately show ?thesis
    using call_handler_merges[OF ok, where dec = "\<lambda>v. ([(''auth'', ''prod''), (''kafka'', ''common'')], None)"
        and data = "''json''" and key = "''k''", OF refl]
    by (fastforce simp: GetServiceNamespace_view map_add_def restrict_map_def)
qed

section \<open>Publishing a new namespace\<close>

lemma SetServiceNamespace_effect:
  assumes "call_ok (nc_app c)" and "c' = SetServiceNamespace RP E md5hex C enc svc ns c"
  shows "ns_view (nc_app c') = (ns_view (nc_app c))(svc \<mapsto> ns) \<and>
    call_ok (nc_app c') \<and> serviceName2ConnMap (nc_app c') = serviceName2ConnMap (nc_app c) \<and>
    (\<exists>mp. map_of mp = ns_view (nc_app c') \<and> distinct (map fst mp) \<and>
       nc_world c' = snd (snd (PublishConfig RP E md5hex C
         (zero_ConfigParam\<lparr>cp_DataId := GrpcCallRelationKey (nc_app c), cp_Content := enc mp\<rparr>) []
         (nc_world c))))"
proof -
  define m where "m = sm_Store (StrVal svc) (StrVal ns) (service2NamespaceMap (nc_app c))"
  have ok: "sm_ok m" using assms(1) by (simp add: m_def call_ok_def sm.inv_store)
  have view: "str_view m = (ns_view (nc_app c))(svc \<mapsto> ns)"
    by (auto simp: fun_eq_iff m_def ns_view_def str_view_def sm_Load_Store)
  have map: "map_of (GetNormalMapFromSyncMap m) = str_view m" by (rule GetNormalMap_lookup[OF ok])
  then have "map_of (GetNormalMapFromSyncMap m) svc \<noteq> None" by (simp add: view)
  then have ne: "GetNormalMapFromSyncMap m \<noteq> []" by auto
  have eq: "c' = c\<lparr>nc_app := (nc_app c)\<lparr>service2NamespaceMap := m\<rparr>,
      nc_world := snd (snd (PublishConfig RP E md5hex C
         (zero_ConfigParam\<lparr>cp_DataId := GrpcCallRelationKey (nc_app c),
            cp_Content := enc (GetNormalMapFromSyncMap m)\<rparr>) [] (nc_world c)))\<rparr>"
    using ne by (simp add: assms(2) SetServiceNamespace_def m_def[symmetric] Let_def)
  show ?thesis
    using assms(1) ok map view
    by (auto simp: eq ns_view_def call_ok_def GetNormalMap_distinct intro!: exI[of _ "GetNormalMapFromSyncMap m"])
qed

lemma SetServiceNamespace_keeps:
  assumes "call_ok (nc_app c)" and "c' = SetServiceNamespace RP E md5hex C enc svc ns c"
  shows "ns_view (nc_app c') = (ns_view (nc_app c))(svc \<mapsto> ns)" and "call_ok (nc_app c')"
    and "serviceName2ConnMap (nc_app c') = serviceName2ConnMap (nc_app c)"
  using SetServiceNamespace_effect[OF assms] by blast+

text \<open>
  \<open>SetServiceNamespace\<close> makes the namespace of the service the given one, whether or not the
  publication succeeds, leaves the other services and all connections alone, and publishes the whole
  updated map under the shared key.
\<close>

lemma SetServiceNamespace_spec:
  assumes "call_ok (nc_app c)" and "c' = SetServiceNamespace RP E md5hex C enc svc ns c"
  shows "ns_view (nc_app c') = (ns_view (nc_app c))(svc \<mapsto> ns) \<and>
    call_ok (nc_app c') \<and> serviceName2ConnMap (nc_app c') = serviceName2ConnMap (nc_app c) \<and>
    (\<exists>mp. map_of mp = ns_view (nc_app c') \<and> distinct (map fst mp) \<and>
       nc_world c' = snd (snd (PublishConfig RP E md5hex C
         (zero_ConfigParam\<lparr>cp_DataId := GrpcCallRelationKey (nc_app c), cp_Content := enc mp\<rparr>) []
         (nc_world c))))"
  by (rule SetServiceNamespace_effect[OF assms])

definition example_call_client :: "(nat, nat call_state) nacos_client" where
  "example_call_client =
     \<lparr>nc_world = 0, ConfigCacheMap = [], ConfigWatchHandleMap = [], nc_app = example_call_state\<rparr>"

lemma example_call_ok: "call_ok (nc_app example_call_client)"
  by (simp add: call_ok_def example_call_client_def example_call_state_def sm_ok_def)

lemma SetServiceNamespace_spec_witness:
  "GetServiceNamespace ''new'' (nc_app (SetServiceNamespace retry_twice example_env rev flaky_client
     (\<lambda>mp. concat (map fst mp)) ''new'' ''ns'' example_call_client)) = ''ns''"
  using SetServiceNamespace_spec[OF example_call_ok refl, of retry_twice example_env rev flaky_client
      "\<lambda>mp. concat (map fst mp)" "''new''" "''ns''"]
  by (simp add: GetServiceNamespace_view)

text \<open>
  When an instance's own publication comes back to it through the watch, the handler changes
  nothing: no namespace, and no connection is dropped. (JSON encoding and decoding a map of
  strings gives the same map back.)
\<close>

lemma own_publication_is_noop:
  assumes "call_ok s" and "mp = GetNormalMapFromSyncMap (service2NamespaceMap s)"
    and "dec (enc mp) = (tmp, None)" and "map_of tmp = map_of mp" and "distinct (map fst tmp)"
  shows "call_handler dec key (enc mp) s = Ret s"
proof -
  have "filter (\<lambda>(k, v). map_of mp k \<noteq> Some v) tmp = []"
    using assms(5) by (auto simp: filter_empty_conv assms(4)[symmetric])
  then have "diff_maps mp tmp = ([], [])" by (simp add: diff_maps_eq[OF assms(5)])
  then show ?thesis
    by (simp add: call_handler_def assms(3) assms(2)[symmetric] DeleteByServiceKeys_def
        StorSyncMapFromNormalMap_def)
qed

lemma own_publication_is_noop_witness:
  "call_handler (\<lambda>v. ([(''auth'', ''dev''), (''kafka'', ''common'')], None)) ''k''
     ((\<lambda>mp. ''json'') [(''auth'', ''dev''), (''kafka'', ''common'')]) example_call_state =
   Ret example_call_state"
proof -
  have ok: "call_ok example_call_state"
    by (simp add: call_ok_def example_call_state_def sm_ok_def)
  have mp: "[(''auth'', ''dev''), (''kafka'', ''common'')] =
      GetNormalMapFromSyncMap (service2NamespaceMap example_call_state)"
    by (simp add: GetNormalMapFromSyncMap_def example_call_state_def)
  show ?thesis by (rule own_publication_is_noop[OF ok mp, where tmp = "[(''auth'', ''dev''), (''kafka'', ''common'')]"]) simp_all
qed

text \<open>
  \<open>GetGrpcCallConfig\<close> never panics; the first call sets the shared key from the environment and
  leaves a well-formed state whatever the server answers, later calls change nothing.
\<close>

lemma GetGrpcCallConfig_once:
  assumes "retry_law R" and "retry_law RW" and "call_ok (nc_app c)"
  shows "\<exists>c'. GetGrpcCallConfig R RW E C dec env c = Ret c' \<and> call_ok (nc_app c') \<and>
    (call_once (nc_app c) \<longrightarrow> c' = c)"
proof (cases "call_once (nc_app c)")
  case True
  with assms show ?thesis by (simp add: GetGrpcCallConfig_def)
next
  case False
  define key where "key = (if env = [] then ''common-grpc-relation'' else env) @ GrpcCallRelationKey (nc_app c)"
  define c0 where "c0 = c\<lparr>nc_app := (nc_app c)\<lparr>call_once := True, GrpcCallRelationKey := key,
      service2NamespaceMap := []\<rparr>\<rparr>"
  have i: "call_ok (nc_app c0)" using assms(3) by (simp add: c0_def call_ok_def)
  obtain err c' where g: "GetAndWatchConfig R RW E C key (call_handler dec) c0 = Ret (err, c')"
    using call_watch.GetAndWatch_returns[OF assms(1) i] by blast
  then have "GetGrpcCallConfig R RW E C dec env c = Ret c'"
    using False by (simp add: GetGrpcCallConfig_def key_def c0_def)
  with False call_watch.GetAndWatch_inv[OF assms(1,2) i g] show ?thesis by blast
qed

lemma GetGrpcCallConfig_once_witness:
  "\<exists>c'. GetGrpcCallConfig retry_twice retry_twice example_env flaky_client (\<lambda>v. ([], None)) []
     example_call_client = Ret c' \<and> call_ok (nc_app c')"
  using GetGrpcCallConfig_once[OF retry_twice_law retry_twice_law example_call_ok] by blast

end
