(* ===== verification/GrpcClient.thy ===== *)
theory GrpcClient
  imports K8s GrpcCall
begin

text \<open>
  \<open>common/grpc-wrapper/grpc_client_wrapper/grpc-client-wrapper.go\<close> and the retry interceptor of
  \<open>common/interceptor/grpc-client-interceptor/interceptor.go\<close>: how a connection to a service is
  obtained, and how a call fails over when the service has moved to another namespace.

  The components they call keep their state in \<open>rpc_state\<close>: the Nacos client (whose application state
  is the shared namespace map and the connection table) and the Kubernetes client. What is outside the
  repository is the record \<open>rpc_env\<close>: the parameters of those components, \<open>grpc.Dial\<close> and the
  \<open>Target\<close> method of a connection. The options of \<open>grpc.Dial\<close> are the same at both places. The span
  events of the retry interceptor are not modelled.
\<close>

record ('w, 'conn, 'cfg, 'cl) rpc_env =
  re_get :: "('w, 'conn call_state) get_retry"
  re_watch :: "('w, 'conn call_state) watch_retry"
  re_publish :: "(ConfigParam \<times> bool \<times> 'w) retry"
  re_nacos :: nacos_env
  re_md5 :: "string \<Rightarrow> string"
  re_sdk :: "('w, 'conn call_state) config_client"
  re_dec :: ns_decoder
  re_enc :: "ns_map \<Rightarrow> string"
  re_service_name :: string
  re_k8s :: "('cfg, 'cl) k8s_api"
  re_list :: "('cl, 'w) k8s_list"
  re_Dial :: "string \<Rightarrow> 'w \<Rightarrow> (gerr + 'conn) \<times> 'w"
  re_Target :: "'conn \<Rightarrow> string"
  re_fmt_status :: "int \<Rightarrow> string \<Rightarrow> string"
  re_gjson_code :: "string \<Rightarrow> int option"

record ('w, 'conn, 'cfg, 'cl) rpc_state =
  rs_nacos :: "('w, 'conn) call_client"
  rs_k8s :: "('cfg, 'cl) k8s_state"

abbreviation rs_world :: "('w, 'conn, 'cfg, 'cl) rpc_state \<Rightarrow> 'w" where
  "rs_world s \<equiv> nc_world (rs_nacos s)"

abbreviation rs_call :: "('w, 'conn, 'cfg, 'cl) rpc_state \<Rightarrow> 'conn call_state" where
  "rs_call s \<equiv> nc_app (rs_nacos s)"

abbreviation rs_conns :: "('w, 'conn, 'cfg, 'cl) rpc_state \<Rightarrow> 'conn conn_map" where
  "rs_conns s \<equiv> serviceName2ConnMap (rs_call s)"

definition set_world :: "'w \<Rightarrow> ('w, 'conn, 'cfg, 'cl) rpc_state \<Rightarrow> ('w, 'conn, 'cfg, 'cl) rpc_state" where
  "set_world w s = s\<lparr>rs_nacos := (rs_nacos s)\<lparr>nc_world := w\<rparr>\<rparr>"

section \<open>Calls of the other components\<close>

definition call_config ::
    "('w, 'conn, 'cfg, 'cl) rpc_env \<Rightarrow> ('w, 'conn, 'cfg, 'cl) rpc_state \<Rightarrow> ('w, 'conn, 'cfg, 'cl) rpc_state go" where
  "call_config X s =
     go_map (\<lambda>c. s\<lparr>rs_nacos := c\<rparr>)
       (GetGrpcCallConfig (re_get X) (re_watch X) (re_nacos X) (re_sdk X) (re_dec X) (re_service_name X) (rs_nacos s))"

definition new_entity ::
    "('w, 'conn, 'cfg, 'cl) rpc_env \<Rightarrow> string \<Rightarrow> string \<Rightarrow> ('w, 'conn, 'cfg, 'cl) rpc_state \<Rightarrow>
     ((bool \<times> string \<times> gerr option) \<times> ('w, 'conn, 'cfg, 'cl) rpc_state) go" where
  "new_entity X serviceName namespace s =
     go_map (\<lambda>(r, k, w). (r, set_world w (s\<lparr>rs_k8s := k\<rparr>)))
       (GetNewServiceEntity (re_k8s X) (re_list X) serviceName namespace (rs_k8s s) (rs_world s))"

definition set_namespace ::
    "('w, 'conn, 'cfg, 'cl) rpc_env \<Rightarrow> string \<Rightarrow> string \<Rightarrow> ('w, 'conn, 'cfg, 'cl) rpc_state \<Rightarrow>
     ('w, 'conn, 'cfg, 'cl) rpc_state go" where
  "set_namespace X serviceName namespace s =
     go_map (\<lambda>s. s\<lparr>rs_nacos :=
         SetServiceNamespace (re_publish X) (re_nacos X) (re_md5 X) (re_sdk X) (re_enc X) serviceName namespace
           (rs_nacos s)\<rparr>)
       (call_config X s)"

definition dial ::
    "('w, 'conn, 'cfg, 'cl) rpc_env \<Rightarrow> string \<Rightarrow> string \<Rightarrow> ('w, 'conn, 'cfg, 'cl) rpc_state \<Rightarrow>
     (gerr + 'conn) \<times> ('w, 'conn, 'cfg, 'cl) rpc_state" where
  "dial X serviceName namespace s =
     (let (r, w) = re_Dial X (GetTarget serviceName namespace) (rs_world s) in (r, set_world w s))"

definition store_conn ::
    "string \<Rightarrow> 'conn \<Rightarrow> ('w, 'conn, 'cfg, 'cl) rpc_state \<Rightarrow> ('w, 'conn, 'cfg, 'cl) rpc_state" where
  "store_conn serviceName cc s =
     s\<lparr>rs_nacos := (rs_nacos s)\<lparr>nc_app := (rs_call s)
         \<lparr>serviceName2ConnMap := SetServiceName2ConnMap serviceName cc (rs_conns s)\<rparr>\<rparr>\<rparr>"

section \<open>Obtaining a connection\<close>

definition DialWrapper ::
    "('w, 'conn, 'cfg, 'cl) rpc_env \<Rightarrow> string \<Rightarrow> ('w, 'conn, 'cfg, 'cl) rpc_state \<Rightarrow>
     ((gerr + 'conn) \<times> ('w, 'conn, 'cfg, 'cl) rpc_state) go" where
  "DialWrapper X serviceName s =
     go_bind (call_config X s) (\<lambda>s.
       let namespace = GetServiceNamespace serviceName (rs_call s) in
       if namespace = [] then
         go_bind (new_entity X serviceName namespace s) (\<lambda>((_, newNamespace, err), s).
           case err of
             Some e \<Rightarrow> Ret (Inl e, s)
           | None \<Rightarrow> go_map (dial X serviceName newNamespace) (set_namespace X serviceName newNamespace s))
       else Ret (dial X serviceName namespace s))"

definition GetConn ::
    "('w, 'conn, 'cfg, 'cl) rpc_env \<Rightarrow> string \<Rightarrow> ('w, 'conn, 'cfg, 'cl) rpc_state \<Rightarrow>
     ((gerr + 'conn) \<times> ('w, 'conn, 'cfg, 'cl) rpc_state) go" where
  "GetConn X serviceName s =
     (case GetConnFromServiceMap (rs_conns s) serviceName of
        Inr myConn \<Rightarrow> Ret (Inr myConn, s)
      | Inl err \<Rightarrow>
          go_bind (DialWrapper X serviceName s) (\<lambda>(r, s).
            case r of
              Inl e \<Rightarrow> Ret (Inl e, s)
            | Inr cc \<Rightarrow>
                Ret (Inr cc,
                  case GetConnFromServiceMap (rs_conns s) serviceName of
                    Inl _ \<Rightarrow> store_conn serviceName cc s
                  | Inr _ \<Rightarrow> s)))"

section \<open>The retry interceptor\<close>

type_synonym ('w, 'conn) invoker = "'conn \<Rightarrow> 'w \<Rightarrow> gerr option \<times> 'w"

text \<open>\<open>n\<close> is the number of iterations left; \<open>codes.Unavailable\<close> is 14.\<close>

fun retry_loop ::
    "('w, 'conn, 'cfg, 'cl) rpc_env \<Rightarrow> ('w, 'conn) invoker \<Rightarrow> nat \<Rightarrow> 'conn \<Rightarrow> bool \<Rightarrow>
     ('w, 'conn, 'cfg, 'cl) rpc_state \<Rightarrow> (gerr option \<times> ('w, 'conn, 'cfg, 'cl) rpc_state) go" where
  "retry_loop X invoker 0 cc isConnChange s = Ret (Some (PlainErr ''Max retries reached''), s)"
| "retry_loop X invoker (Suc n) cc isConnChange s =
     (case invoker cc (rs_world s) of
        (None, w) \<Rightarrow>
          let s = set_world w s in
          Ret (None,
            if isConnChange
            then (case GetSvcNameAndNsFromTarget (re_Target X cc) of
                    Inr (serviceName, _) \<Rightarrow> store_conn serviceName cc s
                  | Inl _ \<Rightarrow> s)
            else s)
      | (Some err, w) \<Rightarrow>
          let s = set_world w s in
          if ParseRPCErrorCode (re_fmt_status X) (re_gjson_code X) (Some err) = 14
          then
            (case GetSvcNameAndNsFromTarget (re_Target X cc) of
               Inl e \<Rightarrow> Ret (Some e, s)
             | Inr (serviceName, namespace) \<Rightarrow>
                 go_bind (new_entity X serviceName namespace s) (\<lambda>((_, newNamespace, e), s).
                   if e \<noteq> None then Ret (e, s)
                   else go_bind (set_namespace X serviceName newNamespace s) (\<lambda>s.
                     case dial X serviceName newNamespace s of
                       (Inl e, s) \<Rightarrow> Ret (Some e, s)
                     | (Inr ccNew, s) \<Rightarrow> retry_loop X invoker n ccNew True s)))
          else retry_loop X invoker n cc isConnChange s)"

definition RetryGrpcUnaryClientInterceptor ::
    "('w, 'conn, 'cfg, 'cl) rpc_env \<Rightarrow> ('w, 'conn) invoker \<Rightarrow> 'conn \<Rightarrow> ('w, 'conn, 'cfg, 'cl) rpc_state \<Rightarrow>
     (gerr option \<times> ('w, 'conn, 'cfg, 'cl) rpc_state) go" where
  "RetryGrpcUnaryClientInterceptor X invoker cc s = retry_loop X invoker 3 cc False s"

section \<open>Basic facts\<close>

lemma set_world_simps [simp]:
  "rs_world (set_world w s) = w"
  "rs_call (set_world w s) = rs_call s"
  "rs_k8s (set_world w s) = rs_k8s s"
  "set_world w (set_world w' s) = set_world w s"
  by (simp_all add: set_world_def)

lemma store_conn_simps [simp]:
  "ns_view (rs_call (store_conn svc cc s)) = ns_view (rs_call s)"
  "rs_k8s (store_conn svc cc s) = rs_k8s s"
  "rs_conns (store_conn svc cc s) = SetServiceName2ConnMap svc cc (rs_conns s)"
  by (simp_all add: store_conn_def ns_view_def)

lemma call_ok_store_conn: "call_ok (rs_call s) \<Longrightarrow> call_ok (rs_call (store_conn svc cc s))"
  by (simp add: call_ok_def store_conn_def conns.inv_store)

lemma dial_keeps: "dial X svc ns s = (r, s') \<Longrightarrow> rs_call s' = rs_call s \<and> rs_k8s s' = rs_k8s s"
  by (auto simp: dial_def split: prod.splits)

lemma new_entity_keeps: "new_entity X svc ns s = Ret (r, s') \<Longrightarrow> rs_call s' = rs_call s"
  by (auto simp: new_entity_def go_simps split: prod.splits)

lemma call_config_once: "call_once (rs_call s) \<Longrightarrow> call_config X s = Ret s"
  by (simp add: call_config_def GetGrpcCallConfig_def)

text \<open>The world after the map \<open>mp\<close> has been published under the shared key.\<close>

definition published :: "('w, 'conn, 'cfg, 'cl) rpc_env \<Rightarrow> string \<Rightarrow> ns_map \<Rightarrow> 'w \<Rightarrow> 'w" where
  "published X key mp w =
     snd (snd (PublishConfig (re_publish X) (re_nacos X) (re_md5 X) (re_sdk X)
       (zero_ConfigParam\<lparr>cp_DataId := key, cp_Content := re_enc X mp\<rparr>) [] w))"

lemma set_namespace_once:
  assumes "call_once (rs_call s)" and "call_ok (rs_call s)"
  obtains s' mp where "set_namespace X svc ns s = Ret s'" and "rs_k8s s' = rs_k8s s"
    and "call_ok (rs_call s')" and "ns_view (rs_call s') = (ns_view (rs_call s))(svc \<mapsto> ns)"
    and "rs_conns s' = rs_conns s" and "map_of mp = ns_view (rs_call s')" and "distinct (map fst mp)"
    and "rs_world s' = published X (GrpcCallRelationKey (rs_call s)) mp (rs_world s)"
proof -
  let ?c = "SetServiceNamespace (re_publish X) (re_nacos X) (re_md5 X) (re_sdk X) (re_enc X) svc ns (rs_nacos s)"
  have run: "set_namespace X svc ns s = Ret (s\<lparr>rs_nacos := ?c\<rparr>)"
    by (simp add: set_namespace_def call_config_once[OF assms(1)])
  obtain mp where "map_of mp = ns_view (nc_app ?c)" "distinct (map fst mp)"
    "nc_world ?c = published X (GrpcCallRelationKey (rs_call s)) mp (rs_world s)"
    using SetServiceNamespace_effect[OF assms(2) refl] unfolding published_def by blast
  with run show thesis
    using SetServiceNamespace_keeps[OF assms(2) refl] by (intro that[of "s\<lparr>rs_nacos := ?c\<rparr>" mp]) auto
qed

section \<open>Retrying on the same connection\<close>

text \<open>
  C29: While the errors of a connection are not \<open>Unavailable\<close>, the interceptor calls at most three times on
  that same connection and returns success at the first call that succeeds; after the third failure
  it returns its own error, whatever the errors of the calls were. Neither the namespace map nor the
  connection table is touched.
\<close>

theorem retry_same_connection:
  assumes "\<And>w err w'. invoker cc w = (Some err, w') \<Longrightarrow>
    ParseRPCErrorCode (re_fmt_status X) (re_gjson_code X) (Some err) \<noteq> 14"
  shows "RetryGrpcUnaryClientInterceptor X invoker cc s =
    (case invoker cc (rs_world s) of
       (None, w1) \<Rightarrow> Ret (None, set_world w1 s)
     | (Some _, w1) \<Rightarrow>
    (case invoker cc w1 of
       (None, w2) \<Rightarrow> Ret (None, set_world w2 s)
     | (Some _, w2) \<Rightarrow>
    (case invoker cc w2 of
       (None, w3) \<Rightarrow> Ret (None, set_world w3 s)
     | (Some _, w3) \<Rightarrow> Ret (Some (PlainErr ''Max retries reached''), set_world w3 s))))"
proof -
  have step: "retry_loop X invoker (Suc n) cc False s =
      (case invoker cc (rs_world s) of
         (None, w) \<Rightarrow> Ret (None, set_world w s)
       | (Some _, w) \<Rightarrow> retry_loop X invoker n cc False (set_world w s))" for n s
    using assms[of "rs_world s"] by (auto split: prod.split option.split)
  have "RetryGrpcUnaryClientInterceptor X invoker cc s = retry_loop X invoker (Suc (Suc (Suc 0))) cc False s"
    by (simp add: RetryGrpcUnaryClientInterceptor_def numeral_3_eq_3)
  then show ?thesis unfolding step
    by (simp split: prod.split option.split)
qed

definition example_rpc_env :: "(nat, nat, unit, unit) rpc_env" where
  "example_rpc_env = \<lparr>re_get = retry_twice, re_watch = retry_twice, re_publish = retry_twice,
     re_nacos = example_env, re_md5 = rev, re_sdk = flaky_client, re_dec = (\<lambda>v. ([], None)),
     re_enc = (\<lambda>mp. concat (map fst mp)), re_service_name = [], re_k8s = example_k8s,
     re_list = (\<lambda>_ w. (Inr (Some example_services), w)),
     re_Dial = (\<lambda>t w. (Inr (length t), w)), re_Target = (\<lambda>_. GetTarget ''panda-auth'' ''dev''),
     re_fmt_status = (\<lambda>c d. d), re_gjson_code = (\<lambda>_. None)\<rparr>"

definition example_rpc_state :: "(nat, nat, unit, unit) rpc_state" where
  "example_rpc_state = \<lparr>rs_nacos = example_call_client, rs_k8s = example_k8s_state\<rparr>"

lemma retry_same_connection_witness:
  "RetryGrpcUnaryClientInterceptor example_rpc_env (\<lambda>cc w. (Some (StatusErr 4 ''deadline''), w + 1)) 1
     example_rpc_state = Ret (Some (PlainErr ''Max retries reached''), set_world 3 example_rpc_state)"
  by (subst retry_same_connection)
    (simp_all add: ParseRPCErrorCode_def example_rpc_state_def example_call_client_def numeral_3_eq_3)

section \<open>Failing over\<close>

text \<open>The part of the loop after an \<open>Unavailable\<close> error, when everything it asks for succeeds.\<close>

lemma retry_loop_failover:
  assumes "invoker cc (rs_world s) = (Some err, w1)"
    and "ParseRPCErrorCode (re_fmt_status X) (re_gjson_code X) (Some err) = 14"
    and "GetSvcNameAndNsFromTarget (re_Target X cc) = Inr (svc, ns)"
    and "GetNewServiceEntity (re_k8s X) (re_list X) svc ns (rs_k8s s) w1 = Ret ((chg, ns', None), k', w2)"
    and "call_once (rs_call s)" and "call_ok (rs_call s)"
    and "\<And>w. \<exists>w'. re_Dial X (GetTarget svc ns') w = (Inr cc', w')"
  obtains s' mp where "retry_loop X invoker (Suc n) cc chd s = retry_loop X invoker n cc' True s'"
    and "call_ok (rs_call s')" and "ns_view (rs_call s') = (ns_view (rs_call s))(svc \<mapsto> ns')"
    and "rs_conns s' = rs_conns s" and "rs_k8s s' = k'"
    and "map_of mp = ns_view (rs_call s')" and "distinct (map fst mp)"
    and "rs_world s' = snd (re_Dial X (GetTarget svc ns') (published X (GrpcCallRelationKey (rs_call s)) mp w2))"
proof -
  define s1 where "s1 = set_world w2 ((set_world w1 s)\<lparr>rs_k8s := k'\<rparr>)"
  have call1: "rs_call s1 = rs_call s" "rs_k8s s1 = k'" "rs_world s1 = w2" by (simp_all add: s1_def set_world_def)
  have ent: "new_entity X svc ns (set_world w1 s) = Ret ((chg, ns', None), s1)"
    by (simp add: new_entity_def assms(4) s1_def)
  obtain s2 mp where s2: "set_namespace X svc ns' s1 = Ret s2" "rs_k8s s2 = k'" "call_ok (rs_call s2)"
    "ns_view (rs_call s2) = (ns_view (rs_call s))(svc \<mapsto> ns')" "rs_conns s2 = rs_conns s"
    "map_of mp = ns_view (rs_call s2)" "distinct (map fst mp)"
    "rs_world s2 = published X (GrpcCallRelationKey (rs_call s)) mp w2"
    using set_namespace_once[of s1] assms(5,6) unfolding call1 by metis
  obtain w3 where w3: "re_Dial X (GetTarget svc ns') (rs_world s2) = (Inr cc', w3)" using assms(7) by blast
  then have d: "dial X svc ns' s2 = (Inr cc', set_world w3 s2)" by (simp add: dial_def)
  have "retry_loop X invoker (Suc n) cc chd s = retry_loop X invoker n cc' True (set_world w3 s2)"
    by (simp add: assms(1-3) ent s2(1) d)
  then show thesis using s2 w3 by (intro that[of "set_world w3 s2" mp]) simp_all
qed

text \<open>
  C1: When a service has moved to another namespace, a call through its old connection still succeeds: the
  \<open>Unavailable\<close> error makes the interceptor look up the new namespace, publish the map with it, dial the
  service there and repeat the call on the new connection, each once and in that order. The namespace is
  recorded, the new connection replaces the old one in the table, and the other services' namespaces and
  connections are untouched.
\<close>

theorem retry_fails_over:
  assumes "invoker cc (rs_world s) = (Some err, w1)"
    and "ParseRPCErrorCode (re_fmt_status X) (re_gjson_code X) (Some err) = 14"
    and "re_Target X cc = GetTarget svc ns"
    and "CHR ''.'' \<notin> set svc" and "CHR ''.'' \<notin> set ns" and "CHR ''.'' \<notin> set ns'"
    and "GetNewServiceEntity (re_k8s X) (re_list X) svc ns (rs_k8s s) w1 = Ret ((chg, ns', None), k', w2)"
    and "call_once (rs_call s)" and "call_ok (rs_call s)"
    and "\<And>w. \<exists>w'. re_Dial X (GetTarget svc ns') w = (Inr cc', w')"
    and "re_Target X cc' = GetTarget svc ns'"
    and "\<And>w. \<exists>w'. invoker cc' w = (None, w')"
  shows "\<exists>s' mp. RetryGrpcUnaryClientInterceptor X invoker cc s = Ret (None, s') \<and>
    map_of mp = (ns_view (rs_call s))(svc \<mapsto> ns') \<and> distinct (map fst mp) \<and>
    rs_world s' =
      (let (_, _, w3) = PublishConfig (re_publish X) (re_nacos X) (re_md5 X) (re_sdk X)
             (zero_ConfigParam\<lparr>cp_DataId := GrpcCallRelationKey (rs_call s), cp_Content := re_enc X mp\<rparr>) [] w2;
           (_, w4) = re_Dial X (GetTarget svc ns') w3;
           (_, w5) = invoker cc' w4
       in w5) \<and>
    ns_view (rs_call s') = (ns_view (rs_call s))(svc \<mapsto> ns') \<and>
    conn_lookup (rs_conns s') = (conn_lookup (rs_conns s))(svc \<mapsto> cc') \<and>
    rs_k8s s' = k' \<and> call_ok (rs_call s')"
proof -
  have t: "GetSvcNameAndNsFromTarget (re_Target X cc) = Inr (svc, ns)"
    using assms(3-5) by (simp add: target_parse_iff GetTarget_trim)
  obtain s2 mp where s2: "retry_loop X invoker (Suc 2) cc False s = retry_loop X invoker 2 cc' True s2"
    "call_ok (rs_call s2)" "ns_view (rs_call s2) = (ns_view (rs_call s))(svc \<mapsto> ns')"
    "rs_conns s2 = rs_conns s" "rs_k8s s2 = k'" "map_of mp = ns_view (rs_call s2)" "distinct (map fst mp)"
    "rs_world s2 = snd (re_Dial X (GetTarget svc ns') (published X (GrpcCallRelationKey (rs_call s)) mp w2))"
    by (rule retry_loop_failover[where invoker = invoker and cc = cc and s = s and X = X and cc' = cc'
          and n = 2 and chd = False, OF assms(1,2) t assms(7-10)])
  obtain w3 where w3: "invoker cc' (rs_world s2) = (None, w3)" using assms(12) by blast
  moreover have "GetSvcNameAndNsFromTarget (re_Target X cc') = Inr (svc, ns')"
    using assms(4,6,11) by (simp add: target_parse_iff GetTarget_trim)
  ultimately have "retry_loop X invoker 2 cc' True s2 = Ret (None, store_conn svc cc' (set_world w3 s2))"
    by (simp add: numeral_2_eq_2)
  then have "RetryGrpcUnaryClientInterceptor X invoker cc s = Ret (None, store_conn svc cc' (set_world w3 s2))"
    using s2(1) by (simp add: RetryGrpcUnaryClientInterceptor_def numeral_3_eq_3 numeral_2_eq_2)
  moreover have "w3 = snd (invoker cc' (rs_world s2))" by (simp add: w3)
  ultimately show ?thesis
    using s2(2-8) by (intro exI[of _ "store_conn svc cc' (set_world w3 s2)"] exI[of _ mp])
      (auto simp: conns.lookup_store call_ok_def store_conn_def conns.inv_store ns_view_def set_world_def
        published_def case_prod_beta)
qed

section \<open>The connection table remembers\<close>

interpretation no_conn: config_handler "call_handler dec"
    "\<lambda>s. call_ok s \<and> conn_lookup (serviceName2ConnMap s) svc = None" for dec svc
proof (unfold_locales, elim conjE)
  fix s s' key d
  assume ok: "call_ok s" and n: "conn_lookup (serviceName2ConnMap s) svc = None"
    and h: "call_handler dec key d s = Ret s'"
  have "conn_lookup (serviceName2ConnMap s') svc = None"
    using h ok n by (auto simp: call_handler_def call_ok_def Let_def conn_lookup_delete_keys
        restrict_map_def split: prod.splits if_splits)
  then show "call_ok s' \<and> conn_lookup (serviceName2ConnMap s') svc = None"
    using handler_keeps_ok[OF ok h] by simp
qed

definition unconnected :: "string \<Rightarrow> ('w, 'conn, 'cfg, 'cl) rpc_state \<Rightarrow> bool" where
  "unconnected svc s \<longleftrightarrow> call_ok (rs_call s) \<and> conn_lookup (rs_conns s) svc = None"

lemma call_config_unconnected:
  assumes "retry_law (re_get X)" and "retry_law (re_watch X)" and "unconnected svc s"
    and "call_config X s = Ret s'"
  shows "unconnected svc s'"
  using assms(3,4)
  by (auto simp: unconnected_def call_config_def GetGrpcCallConfig_def go_simps Let_def
      split: if_splits prod.splits
      dest!: no_conn.GetAndWatch_inv[OF assms(1,2), rotated, where svc = svc]) (simp_all add: call_ok_def)

lemma set_namespace_unconnected:
  assumes "retry_law (re_get X)" and "retry_law (re_watch X)" and "unconnected svc s"
    and "set_namespace X svc' ns s = Ret s'"
  shows "unconnected svc s'"
  using assms(4) call_config_unconnected[OF assms(1-3)]
  by (auto simp: set_namespace_def go_simps unconnected_def SetServiceNamespace_keeps[OF _ refl])

lemma new_entity_unconnected:
  "unconnected svc s \<Longrightarrow> new_entity X svc' ns s = Ret (r, s') \<Longrightarrow> unconnected svc s'"
  by (drule new_entity_keeps) (simp add: unconnected_def)

lemma dial_unconnected: "unconnected svc s \<Longrightarrow> dial X svc' ns s = (r, s') \<Longrightarrow> unconnected svc s'"
  by (drule dial_keeps) (simp add: unconnected_def)

lemma DialWrapper_unconnected:
  assumes "retry_law (re_get X)" and "retry_law (re_watch X)" and "unconnected svc s"
    and "DialWrapper X svc s = Ret (r, s')"
  shows "unconnected svc s'"
proof -
  obtain s1 where c: "call_config X s = Ret s1" and u1: "unconnected svc s1"
    using assms(4) call_config_unconnected[OF assms(1-3)] by (auto simp: DialWrapper_def go_simps)
  show ?thesis
  proof (cases "GetServiceNamespace svc (rs_call s1) = []")
    case True
    then obtain chg ns err s2 where e: "new_entity X svc [] s1 = Ret ((chg, ns, err), s2)"
      using assms(4) c by (auto simp: DialWrapper_def go_simps)
    have u2: "unconnected svc s2" by (rule new_entity_unconnected[OF u1 e])
    show ?thesis
    proof (cases err)
      case None
      then obtain s3 where "set_namespace X svc ns s2 = Ret s3" "dial X svc ns s3 = (r, s')"
        using assms(4) c e True by (auto simp: DialWrapper_def go_simps)
      then show ?thesis
        using set_namespace_unconnected[OF assms(1,2) u2] dial_unconnected by blast
    next
      case (Some x)
      with assms(4) c e True u2 show ?thesis by (simp add: DialWrapper_def)
    qed
  next
    case False
    with assms(4) c dial_unconnected[OF u1] show ?thesis by (simp add: DialWrapper_def)
  qed
qed

text \<open>
  When \<open>GetConn\<close> returns a connection, that connection is the one in the table for the service, and
  asking again returns it without dialling and without changing any state; an error leaves the
  table without a connection for the service.
\<close>

lemma GetConn_remembers:
  assumes "retry_law (re_get X)" and "retry_law (re_watch X)" and "call_ok (rs_call s)"
    and "GetConn X svc s = Ret (r, s')"
  shows "call_ok (rs_call s') \<and>
    (case r of
       Inr cc \<Rightarrow> conn_lookup (rs_conns s') svc = Some cc \<and> GetConn X svc s' = Ret (Inr cc, s')
     | Inl e \<Rightarrow> conn_lookup (rs_conns s) svc = None \<and> conn_lookup (rs_conns s') svc = None)"
proof (cases "GetConnFromServiceMap (rs_conns s) svc")
  case (Inr cc)
  then have "GetConn X svc s = Ret (Inr cc, s)" by (simp add: GetConn_def)
  moreover from this have "r = Inr cc" "s' = s" using assms(4) by simp_all
  ultimately show ?thesis using Inr assms(3) by (simp add: GetConnFromServiceMap_iff)
next
  case (Inl e)
  then have u: "unconnected svc s" using assms(3) by (simp add: unconnected_def conn_lookup_def)
  obtain r1 s1 where d: "DialWrapper X svc s = Ret (r1, s1)"
    using assms(4) Inl by (auto simp: GetConn_def go_simps)
  have u1: "unconnected svc s1" by (rule DialWrapper_unconnected[OF assms(1,2) u d])
  then obtain e1 where absent: "GetConnFromServiceMap (rs_conns s1) svc = Inl e1"
    by (auto simp: unconnected_def conn_lookup_def split: sum.splits)
  show ?thesis
  proof (cases r1)
    case (Inl e2)
    then have "r = Inl e2 \<and> s' = s1"
      using assms(4) d \<open>GetConnFromServiceMap _ _ = Inl e\<close> by (simp add: GetConn_def)
    with u u1 show ?thesis by (auto simp: unconnected_def)
  next
    case (Inr cc)
    then have r: "r = Inr cc" "s' = store_conn svc cc s1"
      using assms(4) d Inl absent by (simp_all add: GetConn_def)
    have "call_ok (rs_call s')" using u1 by (simp add: r unconnected_def call_ok_store_conn)
    moreover have look: "conn_lookup (rs_conns s') svc = Some cc"
      using u1 by (simp add: r unconnected_def call_ok_def conns.lookup_store)
    moreover have "GetConn X svc s' = Ret (Inr cc, s')"
      using look by (simp add: GetConn_def GetConnFromServiceMap_iff[symmetric])
    ultimately show ?thesis by (simp add: r)
  qed
qed

lemma GetConn_remembers_witness:
  "GetConn example_rpc_env ''auth'' example_rpc_state = Ret (Inr 1, example_rpc_state) \<and>
   conn_lookup (rs_conns example_rpc_state) ''auth'' = Some 1"
proof -
  have g: "GetConn example_rpc_env ''auth'' example_rpc_state = Ret (Inr 1, example_rpc_state)"
    by (simp add: GetConn_def GetConnFromServiceMap_def sm_Load_map_of example_rpc_state_def
        example_call_client_def example_call_state_def)
  have "retry_law (re_get example_rpc_env)" "retry_law (re_watch example_rpc_env)"
    "call_ok (rs_call example_rpc_state)"
    using retry_twice_law example_call_ok by (simp_all add: example_rpc_env_def example_rpc_state_def)
  from GetConn_remembers[OF this g] g show ?thesis by simp
qed

text \<open>A service that Kubernetes reports in \<open>dev\<close>, called through a connection to \<open>old\<close>.\<close>

definition moved_env :: "(nat, string, unit, unit) rpc_env" where
  "moved_env = \<lparr>re_get = retry_twice, re_watch = retry_twice, re_publish = retry_twice,
     re_nacos = example_env, re_md5 = rev, re_sdk = flaky_client, re_dec = (\<lambda>v. ([], None)),
     re_enc = (\<lambda>mp. concat (map fst mp)), re_service_name = [], re_k8s = example_k8s,
     re_list = (\<lambda>_ w. (Inr (Some example_services), w)),
     re_Dial = (\<lambda>t w. (Inr t, w)), re_Target = (\<lambda>t. t),
     re_fmt_status = (\<lambda>c d. d), re_gjson_code = (\<lambda>_. None)\<rparr>"

definition moved_state :: "(nat, string, unit, unit) rpc_state" where
  "moved_state = \<lparr>rs_nacos = \<lparr>nc_world = 0, ConfigCacheMap = [], ConfigWatchHandleMap = [],
       nc_app = \<lparr>call_once = True, GrpcCallRelationKey = initial_key, service2NamespaceMap = [],
         serviceName2ConnMap = [(''kafka'', ''kafka.old:50051'')]\<rparr>\<rparr>,
     rs_k8s = example_k8s_state\<lparr>k8s_once := True, k8sClient := Some (),
       service2NamespacesMp := [''kafka'' \<mapsto> [''common'']]\<rparr>\<rparr>"

definition moved_invoker :: "(nat, string) invoker" where
  "moved_invoker cc w = (if cc = ''kafka.old:50051'' then Some (StatusErr 14 ''unavailable'') else None, w)"

lemma retry_fails_over_witness:
  "\<exists>s'. RetryGrpcUnaryClientInterceptor moved_env moved_invoker ''kafka.old:50051'' moved_state = Ret (None, s') \<and>
    conn_lookup (rs_conns s') ''kafka'' = Some ''kafka.common:50051''"
proof -
  have ok: "call_ok (rs_call moved_state)" by (simp add: call_ok_def moved_state_def sm_ok_def)
  have ent: "GetNewServiceEntity (re_k8s moved_env) (re_list moved_env) ''kafka'' ''old'' (rs_k8s moved_state) 0 =
      Ret ((True, ''common'', None), rs_k8s moved_state, 0)"
    by (simp add: GetNewServiceEntity_def moved_state_def)
  have w: "rs_world moved_state = 0" "call_once (rs_call moved_state)" by (simp_all add: moved_state_def)
  show ?thesis
    using retry_fails_over[where invoker = moved_invoker and cc = "''kafka.old:50051''" and s = moved_state
        and X = moved_env and err = "StatusErr 14 ''unavailable''" and svc = "''kafka''" and ns = "''old''"
        and ns' = "''common''" and cc' = "''kafka.common:50051''" and ?w1.0 = 0 and ?w2.0 = 0 and chg = True
        and k' = "rs_k8s moved_state"] ok ent w
    by (fastforce simp: moved_invoker_def ParseRPCErrorCode_def moved_env_def GetTarget_def)
qed

end
