(* ===== verification/Directory.thy ===== *)
theory Directory
  imports GrpcClient
begin

text \<open>
  What the client side promises, without the maps, the retries and the publishing that implement it: a
  directory of the services, with the namespace of each service and at most one connection to it. The
  operations of \<open>GrpcClient\<close> and the watch handler of \<open>GrpcCall\<close> are shown to implement the directory, and
  that connections lead to the namespace the directory names is proved on it.
\<close>

section \<open>The directory\<close>

record 'conn directory =
  dir_ns :: "string \<rightharpoonup> string"
  dir_conn :: "string \<rightharpoonup> 'conn"

definition move :: "string \<Rightarrow> string \<Rightarrow> 'conn directory \<Rightarrow> 'conn directory" where
  "move svc ns d = d\<lparr>dir_ns := (dir_ns d)(svc \<mapsto> ns)\<rparr>"

definition connect :: "string \<Rightarrow> 'conn \<Rightarrow> 'conn directory \<Rightarrow> 'conn directory" where
  "connect svc cc d = d\<lparr>dir_conn := (dir_conn d)(svc \<mapsto> cc)\<rparr>"

text \<open>News from another instance override, and what they move loses its connection.\<close>

definition learn :: "(string \<rightharpoonup> string) \<Rightarrow> 'conn directory \<Rightarrow> 'conn directory" where
  "learn news d = d\<lparr>dir_ns := dir_ns d ++ news,
     dir_conn := dir_conn d |` {svc. (dir_ns d ++ news) svc = dir_ns d svc}\<rparr>"

definition known :: "'conn directory \<Rightarrow> string \<Rightarrow> string" where
  "known d svc = (case dir_ns d svc of None \<Rightarrow> [] | Some ns \<Rightarrow> ns)"

datatype ('w, 'conn) client_act =
    AGetConn string
  | ACall "('w, 'conn) invoker" 'conn
  | ADeliver ConfigParam string string

text \<open>A call that finds its service gone moves on to another namespace, possibly more than once.\<close>

inductive hops :: "('conn \<Rightarrow> string) \<Rightarrow> nat \<Rightarrow> 'conn \<Rightarrow> 'conn directory \<Rightarrow> 'conn \<Rightarrow> 'conn directory \<Rightarrow> bool"
  for T where
  stay: "hops T 0 cc d cc d"
| hop: "GetSvcNameAndNsFromTarget (T cc) = Inr (svc, ns) \<Longrightarrow> T cc1 = GetTarget svc ns1 \<Longrightarrow>
    hops T n cc1 (move svc ns1 d) cc' d' \<Longrightarrow> hops T (Suc n) cc d cc' d'"

text \<open>
  One action of a client: \<open>ok\<close> tells whether it returned without an error. An action that fails may
  have moved a service without connecting to it.
\<close>

inductive dir_act ::
    "('conn \<Rightarrow> string) \<Rightarrow> ns_decoder \<Rightarrow> ('w, 'conn) client_act \<Rightarrow> bool \<Rightarrow> 'conn directory \<Rightarrow> 'conn directory \<Rightarrow> bool"
  for T dec where
  cached: "dir_conn d svc = Some cc \<Longrightarrow> dir_act T dec (AGetConn svc) True d d"
| unresolved: "dir_conn d svc = None \<Longrightarrow> dir_act T dec (AGetConn svc) False d d"
| undialled: "dir_conn d svc = None \<Longrightarrow> known d svc = [] \<Longrightarrow> dir_act T dec (AGetConn svc) False d (move svc ns d)"
| dialled: "dir_conn d svc = None \<Longrightarrow> dir_ns d svc = Some ns \<Longrightarrow> T cc = GetTarget svc ns \<Longrightarrow>
    dir_act T dec (AGetConn svc) True d (connect svc cc d)"
| resolved: "dir_conn d svc = None \<Longrightarrow> known d svc = [] \<Longrightarrow> T cc = GetTarget svc ns \<Longrightarrow>
    dir_act T dec (AGetConn svc) True d (connect svc cc (move svc ns d))"
| called: "dir_act T dec (ACall i cc) True d d"
| failed: "n \<le> 3 \<Longrightarrow> hops T n cc d cc' d' \<Longrightarrow> dir_act T dec (ACall i cc) False d d'"
| stranded: "n < 3 \<Longrightarrow> hops T n cc d cc' d' \<Longrightarrow> GetSvcNameAndNsFromTarget (T cc') = Inr (svc, ns) \<Longrightarrow>
    dir_act T dec (ACall i cc) False d (move svc ns' d')"
| failed_over: "0 < n \<Longrightarrow> n < 3 \<Longrightarrow> hops T n cc d cc' d' \<Longrightarrow> GetSvcNameAndNsFromTarget (T cc') = Inr (svc, ns) \<Longrightarrow>
    dir_act T dec (ACall i cc) True d (connect svc cc' d')"
| unnamed: "0 < n \<Longrightarrow> n < 3 \<Longrightarrow> hops T n cc d cc' d' \<Longrightarrow> GetSvcNameAndNsFromTarget (T cc') = Inl e \<Longrightarrow>
    dir_act T dec (ACall i cc) True d d'"
| silent: "dir_act T dec (ADeliver p key []) True d d"
| told: "dir_act T dec (ADeliver p key data) True d (learn (map_of (fst (dec data))) d)"

inductive dir_run ::
    "('conn \<Rightarrow> string) \<Rightarrow> ns_decoder \<Rightarrow> ('w, 'conn) client_act list \<Rightarrow> bool list \<Rightarrow>
     'conn directory \<Rightarrow> 'conn directory \<Rightarrow> bool"
  for T dec where
  done_run: "dir_run T dec [] [] d d"
| more_run: "dir_act T dec a ok d d1 \<Longrightarrow> dir_run T dec acts oks d1 d' \<Longrightarrow> dir_run T dec (a # acts) (ok # oks) d d'"

section \<open>The client\<close>

text \<open>
  The actions as the code performs them. \<open>ADeliver\<close> is the watch of the shared key running its handler;
  which content arrives, and when, is up to the sequence of actions.
\<close>

fun client_step ::
    "('w, 'conn, 'cfg, 'cl) rpc_env \<Rightarrow> ('w, 'conn) client_act \<Rightarrow> ('w, 'conn, 'cfg, 'cl) rpc_state \<Rightarrow>
     (bool \<times> ('w, 'conn, 'cfg, 'cl) rpc_state) go" where
  "client_step X (AGetConn svc) s = go_map (\<lambda>(r, s). (case r of Inl _ \<Rightarrow> False | Inr _ \<Rightarrow> True, s)) (GetConn X svc s)"
| "client_step X (ACall invoker cc) s =
     go_map (\<lambda>(e, s). (e = None, s)) (RetryGrpcUnaryClientInterceptor X invoker cc s)"
| "client_step X (ADeliver p key data) s =
     go_map (\<lambda>c. (True, s\<lparr>rs_nacos := c\<rparr>)) (OnChange_body p (call_handler (re_dec X)) key data (rs_nacos s))"

fun client_run ::
    "('w, 'conn, 'cfg, 'cl) rpc_env \<Rightarrow> ('w, 'conn) client_act list \<Rightarrow> ('w, 'conn, 'cfg, 'cl) rpc_state \<Rightarrow>
     (bool list \<times> ('w, 'conn, 'cfg, 'cl) rpc_state) go" where
  "client_run X [] s = Ret ([], s)"
| "client_run X (a # acts) s =
     go_bind (client_step X a s) (\<lambda>(ok, s). go_map (\<lambda>(oks, s). (ok # oks, s)) (client_run X acts s))"

definition directory_of :: "('w, 'conn, 'cfg, 'cl) rpc_state \<Rightarrow> 'conn directory" where
  "directory_of s = \<lparr>dir_ns = ns_view (rs_call s), dir_conn = conn_lookup (rs_conns s)\<rparr>"

text \<open>
  \<open>grpc.Dial\<close> returns a connection whose \<open>Target\<close> is the string it was given; a Go map has each key once;
  and \<open>GetGrpcCallConfig\<close> has run.
\<close>

definition dial_law :: "('w, 'conn, 'cfg, 'cl) rpc_env \<Rightarrow> bool" where
  "dial_law X \<longleftrightarrow> (\<forall>t w cc w'. re_Dial X t w = (Inr cc, w') \<longrightarrow> re_Target X cc = t)"

definition dec_law :: "ns_decoder \<Rightarrow> bool" where
  "dec_law dec \<longleftrightarrow> (\<forall>v. distinct (map fst (fst (dec v))))"

definition client_ok :: "('w, 'conn, 'cfg, 'cl) rpc_state \<Rightarrow> bool" where
  "client_ok s \<longleftrightarrow> call_once (rs_call s) \<and> call_ok (rs_call s)"

section \<open>Each action implements an action of the directory\<close>

lemma directory_of_simps [simp]:
  "dir_ns (directory_of s) = ns_view (rs_call s)"
  "dir_conn (directory_of s) = conn_lookup (rs_conns s)"
  "known (directory_of s) svc = GetServiceNamespace svc (rs_call s)"
  by (simp_all add: directory_of_def known_def GetServiceNamespace_view)

lemma directory_set_world [simp]: "directory_of (set_world w s) = directory_of s"
  by (simp add: directory_of_def)

lemma client_ok_set_world [simp]: "client_ok (set_world w s) = client_ok s"
  by (simp add: client_ok_def)

lemma store_conn_directory:
  assumes "client_ok s"
  shows "directory_of (store_conn svc cc s) = connect svc cc (directory_of s)" and "client_ok (store_conn svc cc s)"
  using assms
  by (simp_all add: directory_of_def connect_def client_ok_def call_ok_store_conn conns.lookup_store conns.inv_store call_ok_def)
    (simp add: store_conn_def)

lemma new_entity_directory:
  "new_entity X svc ns s = Ret (r, s') \<Longrightarrow> directory_of s' = directory_of s \<and> client_ok s' = client_ok s"
  by (drule new_entity_keeps) (simp add: directory_of_def client_ok_def)

lemma dial_directory:
  "dial X svc ns s = (r, s') \<Longrightarrow> directory_of s' = directory_of s \<and> client_ok s' = client_ok s"
  by (drule dial_keeps) (simp add: directory_of_def client_ok_def)

lemma dial_target: "dial_law X \<Longrightarrow> dial X svc ns s = (Inr cc, s') \<Longrightarrow> re_Target X cc = GetTarget svc ns"
  by (auto simp: dial_def dial_law_def split: prod.splits)

lemma set_namespace_directory:
  assumes "client_ok s" and "set_namespace X svc ns s = Ret s'"
  shows "directory_of s' = move svc ns (directory_of s)" and "client_ok s'"
proof -
  let ?c = "SetServiceNamespace (re_publish X) (re_nacos X) (re_md5 X) (re_sdk X) (re_enc X) svc ns (rs_nacos s)"
  have "s' = s\<lparr>rs_nacos := ?c\<rparr>"
    using assms by (simp add: set_namespace_def client_ok_def call_config_once)
  moreover have "call_once (nc_app ?c) = call_once (rs_call s)"
    by (simp add: SetServiceNamespace_def Let_def)
  ultimately show "directory_of s' = move svc ns (directory_of s)" and "client_ok s'"
    using assms(1) SetServiceNamespace_keeps[of "rs_nacos s", OF _ refl]
    by (simp_all add: directory_of_def move_def client_ok_def)
qed

lemma GetConn_directory:
  assumes "dial_law X" and "client_ok s" and "GetConn X svc s = Ret (r, s')"
  shows "dir_act (re_Target X) dec (AGetConn svc) (case r of Inl _ \<Rightarrow> False | Inr _ \<Rightarrow> True)
      (directory_of s) (directory_of s') \<and> client_ok s'"
proof (cases "conn_lookup (rs_conns s) svc")
  case (Some cc)
  then have "r = Inr cc" "s' = s"
    using assms(3) by (simp_all add: GetConn_def GetConnFromServiceMap_iff[symmetric])
  with Some assms(2) show ?thesis by (simp add: cached)
next
  case None
  then obtain e where l: "GetConnFromServiceMap (rs_conns s) svc = Inl e"
    by (cases "GetConnFromServiceMap (rs_conns s) svc") (simp_all add: GetConnFromServiceMap_iff)
  obtain r1 s1 where d: "DialWrapper X svc s = Ret (r1, s1)"
    using assms(3) l by (auto simp: GetConn_def go_simps)
  have kept: "directory_of s1 = directory_of s2 \<Longrightarrow> dir_conn (directory_of s2) svc = None \<Longrightarrow>
      client_ok s1 \<Longrightarrow>
      r = r1 \<and> client_ok s' \<and> directory_of s' =
        (case r1 of Inl _ \<Rightarrow> directory_of s2 | Inr cc \<Rightarrow> connect svc cc (directory_of s2))" for s2
    using assms(3) l d store_conn_directory[of s1]
    by (cases "GetConnFromServiceMap (rs_conns s1) svc")
      (auto simp: GetConn_def GetConnFromServiceMap_iff directory_of_def split: sum.splits)
  have once: "call_config X s = Ret s" using assms(2) by (simp add: client_ok_def call_config_once)
  show ?thesis
  proof (cases "GetServiceNamespace svc (rs_call s) = []")
    case True
    then obtain chg ns err s2 where e: "new_entity X svc [] s = Ret ((chg, ns, err), s2)"
      using d once by (auto simp: DialWrapper_def go_simps)
    note d2 = new_entity_directory[OF e]
    show ?thesis
    proof (cases err)
      case (Some x)
      then have "r1 = Inl x" "s1 = s2" using d once True e by (simp_all add: DialWrapper_def)
      with kept[of s] None d2 assms(2) show ?thesis by (simp add: unresolved)
    next
      case None': None
      then obtain s3 where n: "set_namespace X svc ns s2 = Ret s3" and dd: "dial X svc ns s3 = (r1, s1)"
        using d once e True by (auto simp: DialWrapper_def go_simps)
      have s3: "directory_of s3 = move svc ns (directory_of s)" "client_ok s3"
        using set_namespace_directory[OF _ n] d2 assms(2) by simp_all
      have s1: "directory_of s1 = directory_of s3" "client_ok s1"
        using dial_directory[OF dd] s3 by simp_all
      have "dir_conn (directory_of s3) svc = None" using None by (simp only: s3 move_def) simp
      with kept[OF s1(1)] s1(2) s3 show ?thesis
        using dial_target[OF assms(1)] dd None True
        by (cases r1) (auto intro!: undialled resolved)
    qed
  next
    case False
    then obtain ns where ns: "ns_view (rs_call s) svc = Some ns"
      "GetServiceNamespace svc (rs_call s) = ns"
      by (auto simp: GetServiceNamespace_view split: option.splits)
    then have dd: "dial X svc ns s = (r1, s1)" using d once False by (simp add: DialWrapper_def)
    with kept[of s] dial_directory[OF dd] None assms(2) show ?thesis
      using dial_target[OF assms(1)] ns
      by (cases r1) (auto intro!: unresolved dialled)
  qed
qed

text \<open>How a call ends on the connection it has reached; \<open>left\<close> is whether an attempt was left for it.\<close>

definition settles ::
    "('conn \<Rightarrow> string) \<Rightarrow> bool \<Rightarrow> bool \<Rightarrow> 'conn \<Rightarrow> 'conn directory \<Rightarrow> bool \<Rightarrow> 'conn directory \<Rightarrow> bool" where
  "settles T left chd cc d ok d' \<longleftrightarrow>
     (if ok then left \<and> d' =
        (if chd
         then (case GetSvcNameAndNsFromTarget (T cc) of Inl _ \<Rightarrow> d | Inr (svc, _) \<Rightarrow> connect svc cc d)
         else d)
      else d' = d \<or>
        left \<and> (\<exists>svc ns ns'. GetSvcNameAndNsFromTarget (T cc) = Inr (svc, ns) \<and> d' = move svc ns' d))"

definition retry_outcome ::
    "('conn \<Rightarrow> string) \<Rightarrow> nat \<Rightarrow> bool \<Rightarrow> 'conn \<Rightarrow> 'conn directory \<Rightarrow> bool \<Rightarrow> 'conn directory \<Rightarrow> bool" where
  "retry_outcome T n chd cc d ok d' \<longleftrightarrow>
     (\<exists>k cc1 d1. k \<le> n \<and> hops T k cc d cc1 d1 \<and> settles T (k < n) (chd \<or> 0 < k) cc1 d1 ok d')"

lemma retry_outcomeI:
  "hops T k cc d cc1 d1 \<Longrightarrow> k \<le> n \<Longrightarrow> settles T (k < n) (chd \<or> 0 < k) cc1 d1 ok d' \<Longrightarrow>
   retry_outcome T n chd cc d ok d'"
  unfolding retry_outcome_def by blast

lemma retry_outcome_Suc: "retry_outcome T n chd cc d ok d' \<Longrightarrow> retry_outcome T (Suc n) chd cc d ok d'"
  unfolding retry_outcome_def by (elim exE conjE, rule retry_outcomeI[unfolded retry_outcome_def])
    (auto simp: settles_def split: if_splits)

lemma retry_outcome_hop:
  assumes "GetSvcNameAndNsFromTarget (T cc) = Inr (svc, ns)" and "T cc1 = GetTarget svc ns1"
    and "retry_outcome T n True cc1 (move svc ns1 d) ok d'"
  shows "retry_outcome T (Suc n) chd cc d ok d'"
  using assms(3) unfolding retry_outcome_def[of T n]
  by (elim exE conjE) (rule retry_outcomeI[OF hop[where T = T, OF assms(1,2)]], auto)

lemma retry_outcome_here:
  "settles T (0 < n) chd cc d ok d' \<Longrightarrow> retry_outcome T n chd cc d ok d'"
  by (rule retry_outcomeI[OF stay]) auto

text \<open>What the retry does with a connection that is \<open>Unavailable\<close>, up to the next attempt.\<close>

definition relocate ::
    "('w, 'conn, 'cfg, 'cl) rpc_env \<Rightarrow> 'conn \<Rightarrow> ('w, 'conn, 'cfg, 'cl) rpc_state \<Rightarrow>
     ((gerr + 'conn) \<times> ('w, 'conn, 'cfg, 'cl) rpc_state) go" where
  "relocate X cc s =
     (case GetSvcNameAndNsFromTarget (re_Target X cc) of
        Inl e \<Rightarrow> Ret (Inl e, s)
      | Inr (svc, ns) \<Rightarrow>
          go_bind (new_entity X svc ns s) (\<lambda>((_, ns1, e), s).
            case e of
              Some e \<Rightarrow> Ret (Inl e, s)
            | None \<Rightarrow> go_map (dial X svc ns1) (set_namespace X svc ns1 s)))"

lemma retry_loop_unavailable:
  assumes "invoker cc (rs_world s) = (Some err, w)"
    and "ParseRPCErrorCode (re_fmt_status X) (re_gjson_code X) (Some err) = 14"
  shows "retry_loop X invoker (Suc n) cc chd s =
    go_bind (relocate X cc (set_world w s)) (\<lambda>(r, s).
      case r of Inl e \<Rightarrow> Ret (Some e, s) | Inr cc1 \<Rightarrow> retry_loop X invoker n cc1 True s)"
proof (cases "GetSvcNameAndNsFromTarget (re_Target X cc)")
  case (Inr names)
  then obtain svc ns where p: "GetSvcNameAndNsFromTarget (re_Target X cc) = Inr (svc, ns)" by (cases names) simp
  have step: "go_bind (set_namespace X svc ns1 s2) (\<lambda>s. case dial X svc ns1 s of
        (Inl e, s) \<Rightarrow> Ret (Some e, s) | (Inr cc1, s) \<Rightarrow> retry_loop X invoker n cc1 True s) =
      go_bind (go_map (dial X svc ns1) (set_namespace X svc ns1 s2)) (\<lambda>(r, s).
        case r of Inl e \<Rightarrow> Ret (Some e, s) | Inr cc1 \<Rightarrow> retry_loop X invoker n cc1 True s)" for ns1 s2
    by (cases "set_namespace X svc ns1 s2") (auto split: prod.split sum.split)
  show ?thesis
    by (cases "new_entity X svc ns (set_world w s)")
      (auto simp: assms p relocate_def step split: option.split)
qed (simp add: assms relocate_def)

lemma relocate_directory:
  assumes "dial_law X" and "client_ok s" and "relocate X cc s = Ret (r, s')"
  shows "client_ok s' \<and>
    (case r of
       Inl _ \<Rightarrow> settles (re_Target X) True chd cc (directory_of s) False (directory_of s')
     | Inr cc1 \<Rightarrow> \<exists>svc ns ns1. GetSvcNameAndNsFromTarget (re_Target X cc) = Inr (svc, ns) \<and>
         re_Target X cc1 = GetTarget svc ns1 \<and> directory_of s' = move svc ns1 (directory_of s))"
proof (cases "GetSvcNameAndNsFromTarget (re_Target X cc)")
  case (Inl e)
  with assms show ?thesis by (auto simp: relocate_def settles_def)
next
  case (Inr names)
  then obtain svc ns where p: "GetSvcNameAndNsFromTarget (re_Target X cc) = Inr (svc, ns)" by (cases names) simp
  then obtain chg ns1 e s2 where ent: "new_entity X svc ns s = Ret ((chg, ns1, e), s2)"
    using assms(3) by (auto simp: relocate_def go_simps)
  note s2 = new_entity_directory[OF ent]
  show ?thesis
  proof (cases e)
    case (Some x)
    with assms p ent s2 show ?thesis by (auto simp: relocate_def settles_def)
  next
    case None
    then obtain s3 where n3: "set_namespace X svc ns1 s2 = Ret s3" and d: "dial X svc ns1 s3 = (r, s')"
      using assms(3) p ent by (auto simp: relocate_def go_simps)
    have "client_ok s2" using s2 assms(2) by simp
    from set_namespace_directory[OF this n3] dial_directory[OF d] s2
    have "directory_of s' = move svc ns1 (directory_of s)" "client_ok s'" by simp_all
    with p d dial_target[OF assms(1)] show ?thesis
      by (cases r) (auto simp: settles_def)
  qed
qed

lemma retry_loop_directory:
  assumes "dial_law X"
  shows "client_ok s \<Longrightarrow> retry_loop X invoker n cc chd s = Ret (r, s') \<Longrightarrow>
    retry_outcome (re_Target X) n chd cc (directory_of s) (r = None) (directory_of s') \<and> client_ok s'"
proof (induction n arbitrary: cc chd s)
  case 0
  then show ?case by (auto intro!: retry_outcome_here simp: settles_def)
next
  case (Suc n)
  obtain e w where inv: "invoker cc (rs_world s) = (e, w)" by (metis prod.exhaust_sel)
  define s1 where "s1 = set_world w s"
  have s1: "directory_of s1 = directory_of s" "client_ok s1" using Suc.prems(1) by (simp_all add: s1_def)
  show ?case
  proof (cases e)
    case None
    then have "r = None \<and> s' = (if chd then case GetSvcNameAndNsFromTarget (re_Target X cc) of
        Inr (svc, _) \<Rightarrow> store_conn svc cc s1 | Inl _ \<Rightarrow> s1 else s1)"
      using Suc.prems inv by (auto simp: Let_def s1_def split: sum.splits prod.splits)
    with s1 show ?thesis
      by (auto intro!: retry_outcome_here simp: settles_def store_conn_directory split: sum.splits if_splits)
  next
    case (Some err)
    show ?thesis
    proof (cases "ParseRPCErrorCode (re_fmt_status X) (re_gjson_code X) (Some err) = 14")
      case False
      then have "retry_loop X invoker n cc chd s1 = Ret (r, s')"
        using Suc.prems(2) inv Some by (simp add: s1_def)
      from Suc.IH[OF s1(2) this] show ?thesis by (simp add: s1 retry_outcome_Suc)
    next
      case True
      note un = retry_loop_unavailable[where invoker = invoker and X = X, OF inv[unfolded Some] True]
      obtain rr s2 where rel: "relocate X cc s1 = Ret (rr, s2)"
        and k: "(case rr of Inl e \<Rightarrow> Ret (Some e, s2) | Inr cc1 \<Rightarrow> retry_loop X invoker n cc1 True s2) = Ret (r, s')"
        using Suc.prems(2) unfolding un s1_def[symmetric] by (auto simp: go_simps)
      note R = relocate_directory[OF assms s1(2) rel, where chd = chd, unfolded s1(1)]
      show ?thesis
      proof (cases rr)
        case (Inl x)
        with k R show ?thesis by (auto intro!: retry_outcome_here)
      next
        case (Inr cc1)
        with k R Suc.IH[of s2 cc1 True] show ?thesis by (auto intro: retry_outcome_hop)
      qed
    qed
  qed
qed

lemma Retry_directory:
  assumes "dial_law X" and "client_ok s" and "RetryGrpcUnaryClientInterceptor X invoker cc s = Ret (r, s')"
  shows "dir_act (re_Target X) dec (ACall invoker cc) (r = None) (directory_of s) (directory_of s') \<and> client_ok s'"
proof -
  obtain k cc1 d1 where k: "k \<le> 3" and h: "hops (re_Target X) k cc (directory_of s) cc1 d1"
    and e: "settles (re_Target X) (k < 3) (0 < k) cc1 d1 (r = None) (directory_of s')" and ok: "client_ok s'"
    using retry_loop_directory[OF assms(1,2) assms(3)[unfolded RetryGrpcUnaryClientInterceptor_def]]
    by (auto simp: retry_outcome_def)
  have "dir_act (re_Target X) dec (ACall invoker cc) (r = None) (directory_of s) (directory_of s')"
  proof (cases "r = None")
    case True
    show ?thesis
    proof (cases "0 < k")
      case False
      then have "d1 = directory_of s" using h by (auto elim: hops.cases)
      with e True False show ?thesis by (simp add: settles_def called)
    next
      case pos: True
      with e True h show ?thesis
        by (auto simp: settles_def intro: unnamed failed_over split: sum.splits prod.splits)
    qed
  next
    case False
    with e k h show ?thesis by (auto simp: settles_def intro: failed stranded)
  qed
  with ok show ?thesis by simp
qed

lemma Deliver_directory:
  fixes X :: "('w, 'conn, 'cfg, 'cl) rpc_env"
  assumes "dec_law (re_dec X)" and "client_ok s"
    and "OnChange_body p (call_handler (re_dec X)) key data (rs_nacos s) = Ret c"
  shows "dir_act T (re_dec X) (ADeliver p key data :: ('w, 'conn) client_act) True (directory_of s) (directory_of (s\<lparr>rs_nacos := c\<rparr>)) \<and>
    client_ok (s\<lparr>rs_nacos := c\<rparr>)"
proof -
  obtain s1 where h: "call_handler (re_dec X) key data (rs_call s) = Ret s1" and c: "nc_app c = s1"
    using assms(3) by (auto simp: OnChange_body_def go_simps)
  obtain tmp e where d: "re_dec X data = (tmp, e)" by (metis prod.exhaust_sel)
  have ok: "call_ok (rs_call s)" using assms(2) by (simp add: client_ok_def)
  have dd: "distinct (map fst tmp)" using assms(1) d by (auto simp: dec_law_def dest: spec[of _ data])
  have "call_ok s1" by (rule handler_keeps_ok[OF ok h])
  moreover note call_handler_effect[where dec = "re_dec X" and data = data and key = key, OF ok d dd]
  ultimately have "client_ok (s\<lparr>rs_nacos := c\<rparr>)" and
    "directory_of (s\<lparr>rs_nacos := c\<rparr>) =
      (if data = [] then directory_of s else learn (map_of (fst (re_dec X data))) (directory_of s))"
    using h assms(2) by (auto simp: c client_ok_def directory_of_def learn_def d)
  then show ?thesis by (auto intro: silent told)
qed

lemma client_step_directory:
  assumes "dial_law X" and "dec_law (re_dec X)" and "client_ok s" and "client_step X a s = Ret (ok, s')"
  shows "dir_act (re_Target X) (re_dec X) a ok (directory_of s) (directory_of s') \<and> client_ok s'"
proof (cases a)
  case (AGetConn svc)
  then show ?thesis using assms(4) GetConn_directory[OF assms(1,3)] by (auto simp: go_simps)
next
  case (ACall invoker cc)
  then obtain r where "RetryGrpcUnaryClientInterceptor X invoker cc s = Ret (r, s')" and "ok = (r = None)"
    using assms(4) by (auto simp: go_simps)
  with ACall Retry_directory[OF assms(1,3)] show ?thesis by simp
next
  case (ADeliver p key data)
  then show ?thesis using assms(4) Deliver_directory[OF assms(2,3)] by (auto simp: go_simps)
qed

lemma client_run_directory:
  assumes "dial_law X" and "dec_law (re_dec X)"
  shows "client_ok s \<Longrightarrow> client_run X acts s = Ret (oks, s') \<Longrightarrow>
    dir_run (re_Target X) (re_dec X) acts oks (directory_of s) (directory_of s') \<and> client_ok s'"
proof (induction acts arbitrary: s oks)
  case Nil
  then show ?case by (simp add: done_run)
next
  case (Cons a acts)
  obtain ok s1 oks1 where "client_step X a s = Ret (ok, s1)" and "client_run X acts s1 = Ret (oks1, s')"
    and "oks = ok # oks1"
    using Cons.prems(2) by (auto simp: go_simps)
  with client_step_directory[OF assms Cons.prems(1)] Cons.IH show ?case by (blast intro: more_run)
qed

text \<open>
  C2: The client side implements the directory: whatever sequence of connection requests, calls and
  deliveries of the shared map it performs, with whatever failures, is a run of the directory that returns
  the same successes and errors and ends in the directory that the namespace map and the connection table
  show. In particular one call moves a service at most three times, and the news of another instance drop
  exactly the connections of the services they move.
\<close>

theorem client_refines_directory:
  assumes "dial_law X" and "dec_law (re_dec X)" and "client_ok s" and "client_run X acts s = Ret (oks, s')"
  shows "dir_run (re_Target X) (re_dec X) acts oks (directory_of s) (directory_of s')"
  using client_run_directory[OF assms] by blast

section \<open>Connections lead where the directory says\<close>

text \<open>A namespace of Kubernetes is a DNS label; one with a dot could not be parsed out of a target.\<close>

definition coherent :: "('conn \<Rightarrow> string) \<Rightarrow> 'conn directory \<Rightarrow> bool" where
  "coherent T d \<longleftrightarrow> (\<forall>svc ns cc. dir_ns d svc = Some ns \<longrightarrow> dir_conn d svc = Some cc \<longrightarrow> CHR ''.'' \<notin> set ns \<longrightarrow>
     T cc = GetTarget svc ns)"

lemma coherent_learn: "coherent T d \<Longrightarrow> coherent T (learn news d)"
  by (auto simp: coherent_def learn_def restrict_map_def split: if_splits)

lemma coherent_connect:
  "coherent T d \<Longrightarrow> dir_ns d svc = Some ns \<Longrightarrow> T cc = GetTarget svc ns \<Longrightarrow> coherent T (connect svc cc d)"
  by (auto simp: coherent_def connect_def)

lemma coherent_move: "coherent T d \<Longrightarrow> dir_conn d svc = None \<Longrightarrow> coherent T (move svc ns d)"
  by (auto simp: coherent_def move_def)

text \<open>Hops of one call all move the same service, and the connection reached is to its last namespace.\<close>

lemma hops_parse:
  assumes "T cc = GetTarget svc ns" and "GetSvcNameAndNsFromTarget (T cc) = Inr (svc1, ns1)"
  shows "svc1 = svc \<and> ns1 = ns"
  using assms by (auto simp: target_parse_iff GetTarget_trim append_eq_append_conv2 append_eq_Cons_conv Cons_eq_append_conv)

lemma hops_move:
  assumes "hops T n cc d cc' d'" and "0 < n"
  shows "\<exists>svc ns ns'. GetSvcNameAndNsFromTarget (T cc) = Inr (svc, ns) \<and> d' = move svc ns' d \<and>
    T cc' = GetTarget svc ns'"
  using assms
proof (induction rule: hops.induct)
  case (hop cc svc ns cc1 ns1 n d cc' d')
  show ?case
  proof (cases n)
    case 0
    then have "cc' = cc1 \<and> d' = move svc ns1 d" using hop.hyps(3) by (auto elim: hops.cases)
    with hop.hyps show ?thesis by auto
  next
    case (Suc m)
    with hop.IH obtain svc2 ns2 ns' where i: "GetSvcNameAndNsFromTarget (T cc1) = Inr (svc2, ns2)"
      "d' = move svc2 ns' (move svc ns1 d)" "T cc' = GetTarget svc2 ns'" by blast
    have "svc2 = svc" using hops_parse[where T = T, OF hop.hyps(2) i(1)] by simp
    with i hop.hyps(1) show ?thesis by (auto simp: move_def)
  qed
qed simp

definition is_call :: "('w, 'conn) client_act \<Rightarrow> bool" where
  "is_call a = (case a of ACall _ _ \<Rightarrow> True | _ \<Rightarrow> False)"

lemma coherent_failover:
  assumes c: "coherent T d" and h: "hops T n cc d cc' d'" "0 < n"
    and r: "r = GetSvcNameAndNsFromTarget (T cc')"
  shows "coherent T (case r of Inl _ \<Rightarrow> d' | Inr (svc, _) \<Rightarrow> connect svc cc' d')"
proof -
  obtain svc ns ns' where m: "GetSvcNameAndNsFromTarget (T cc) = Inr (svc, ns)" "d' = move svc ns' d"
    "T cc' = GetTarget svc ns'" using hops_move[OF h] by blast
  have nodot: "CHR ''.'' \<notin> set svc" using m(1) by (simp add: target_parse_iff)
  show ?thesis
  proof (cases "CHR ''.'' \<in> set ns'")
    case True
    then have "\<And>s n. r \<noteq> Inr (s, n)"
      using hops_parse[where T = T, OF m(3)] by (auto simp: r target_parse_iff)
    then obtain e where "r = Inl e" by (cases r) auto
    with True c show ?thesis by (auto simp: m(2) coherent_def move_def)
  next
    case False
    with nodot have "r = Inr (svc, ns')" by (simp add: r m(3) target_parse_iff GetTarget_trim)
    with c show ?thesis by (auto simp: m coherent_def move_def connect_def)
  qed
qed

lemma dir_act_coherent:
  assumes "dir_act T dec a ok d d'" and "coherent T d" and "is_call a \<Longrightarrow> ok"
  shows "coherent T d'"
  using assms
proof (cases rule: dir_act.cases)
  case (resolved svc cc ns)
  then show ?thesis
    using coherent_connect[OF coherent_move[OF assms(2), of svc ns], of svc ns cc] by (simp add: move_def)
next
  case (failed_over n cc cc' d1 svc ns i)
  with coherent_failover[OF assms(2), of n cc cc' d1] show ?thesis by simp
next
  case (unnamed n cc cc' e i)
  with coherent_failover[OF assms(2), of n cc cc' d'] show ?thesis by simp
qed (auto simp: is_call_def coherent_learn coherent_move intro: coherent_connect)

definition calls_ok :: "('w, 'conn) client_act list \<Rightarrow> bool list \<Rightarrow> bool" where
  "calls_ok acts oks \<longleftrightarrow> list_all2 (\<lambda>a ok. is_call a \<longrightarrow> ok) acts oks"

lemma dir_run_coherent:
  "dir_run T dec acts oks d d' \<Longrightarrow> coherent T d \<Longrightarrow> calls_ok acts oks \<Longrightarrow> coherent T d'"
  by (induction rule: dir_run.induct) (auto simp: calls_ok_def intro: dir_act_coherent)

text \<open>
  C6: As long as no call fails, every connection in the table leads to the namespace that the map has for its
  service: connections requested, calls that fail over and news from other instances all keep that, so a
  caller never gets a connection to a namespace its own map has left.
\<close>

theorem connections_stay_coherent:
  assumes "dial_law X" and "dec_law (re_dec X)" and "client_ok s"
    and "coherent (re_Target X) (directory_of s)"
    and "client_run X acts s = Ret (oks, s')" and "calls_ok acts oks"
  shows "coherent (re_Target X) (directory_of s')"
  using client_run_directory[OF assms(1-3,5)] dir_run_coherent[OF _ assms(4,6)] by blast

lemma GetConn_cached: "conn_lookup (rs_conns s) svc = Some cc \<Longrightarrow> GetConn X svc s = Ret (Inr cc, s)"
  by (simp add: GetConn_def GetConnFromServiceMap_iff[symmetric])

text \<open>
  C30: A failover that fails does not keep that: when the dial to the new namespace fails, the call
  returns its error with the new namespace recorded, but the connection to the old one still in the
  table, where \<open>GetConn\<close> finds it, so later callers start from the old connection again.
\<close>

theorem failed_failover_leaves_stale:
  assumes "client_ok s" and "conn_lookup (rs_conns s) svc = Some cc"
    and "re_Target X cc = GetTarget svc ns"
    and "CHR ''.'' \<notin> set svc" and "CHR ''.'' \<notin> set ns" and "CHR ''.'' \<notin> set ns'" and "ns' \<noteq> ns"
    and "invoker cc (rs_world s) = (Some err, w1)"
    and "ParseRPCErrorCode (re_fmt_status X) (re_gjson_code X) (Some err) = 14"
    and "GetNewServiceEntity (re_k8s X) (re_list X) svc ns (rs_k8s s) w1 = Ret ((chg, ns', None), k', w2)"
    and "\<And>w. fst (re_Dial X (GetTarget svc ns') w) = Inl e"
  shows "\<exists>s'. RetryGrpcUnaryClientInterceptor X invoker cc s = Ret (Some e, s') \<and>
    GetServiceNamespace svc (rs_call s') = ns' \<and> GetConn X svc s' = Ret (Inr cc, s') \<and>
    \<not> coherent (re_Target X) (directory_of s')"
proof -
  define s1 where "s1 = set_world w1 s"
  define s2 where "s2 = set_world w2 (s1\<lparr>rs_k8s := k'\<rparr>)"
  have p: "GetSvcNameAndNsFromTarget (re_Target X cc) = Inr (svc, ns)"
    using assms(3-5) by (simp add: target_parse_iff GetTarget_trim)
  have ent: "new_entity X svc ns s1 = Ret ((chg, ns', None), s2)"
    by (simp add: new_entity_def assms(10) s1_def s2_def set_world_def)
  have ok2: "client_ok s2" and d2: "directory_of s2 = directory_of s"
    using new_entity_directory[OF ent] assms(1) by (simp_all add: s1_def)
  then obtain s3 where n3: "set_namespace X svc ns' s2 = Ret s3"
    using set_namespace_once[of s2 X svc ns'] by (auto simp: client_ok_def)
  obtain w3 where "re_Dial X (GetTarget svc ns') (rs_world s3) = (Inl e, w3)"
    using assms(11)[of "rs_world s3"] by (metis prod.exhaust_sel)
  then have d: "dial X svc ns' s3 = (Inl e, set_world w3 s3)" by (simp add: dial_def)
  define s4 where "s4 = set_world w3 s3"
  have "relocate X cc s1 = Ret (Inl e, s4)" by (simp add: relocate_def p ent n3 d s4_def)
  then have run: "RetryGrpcUnaryClientInterceptor X invoker cc s = Ret (Some e, s4)"
    using retry_loop_unavailable[where invoker = invoker and n = 2 and chd = False and X = X, OF assms(8,9)]
    by (simp add: RetryGrpcUnaryClientInterceptor_def numeral_3_eq_3 numeral_2_eq_2 s1_def)
  have dir: "directory_of s4 = move svc ns' (directory_of s)"
    using set_namespace_directory(1)[OF ok2 n3] d2 by (simp add: s4_def)
  then have v: "ns_view (rs_call s4) = (ns_view (rs_call s))(svc \<mapsto> ns')" "rs_conns s4 = rs_conns s \<or>
      conn_lookup (rs_conns s4) = conn_lookup (rs_conns s)"
    by (simp_all add: directory_of_def move_def)
  then have c: "conn_lookup (rs_conns s4) svc = Some cc" using assms(2) by auto
  have "\<not> coherent (re_Target X) (directory_of s4)"
    using v(1) c assms(3,6,7) by (auto simp: coherent_def GetTarget_def intro!: exI[of _ svc])
  with run v(1) GetConn_cached[OF c] show ?thesis by (auto simp: GetServiceNamespace_view)
qed

section \<open>Examples\<close>

text \<open>A call to a moved service fails over, its connection is asked for, and news move the service again.\<close>

definition example_acts :: "(nat, string) client_act list" where
  "example_acts = [ACall moved_invoker ''kafka.old:50051'', AGetConn ''kafka'',
     ADeliver zero_ConfigParam ''k'' ''json'', AGetConn ''kafka'']"

definition news_env :: "(nat, string, unit, unit) rpc_env" where
  "news_env = moved_env\<lparr>re_dec := (\<lambda>_. ([(''kafka'', ''dev'')], None))\<rparr>"

lemma example_run:
  "case client_run news_env example_acts moved_state of
     Ret (oks, s') \<Rightarrow> oks = [True, True, True, True] \<and> conn_lookup (rs_conns s') ''kafka'' = Some ''kafka.dev:50051''
   | _ \<Rightarrow> False"
  by code_simp

lemma example_laws:
  "dial_law news_env" "dec_law (re_dec news_env)" "client_ok moved_state"
  "coherent (re_Target news_env) (directory_of moved_state)"
  by (auto simp: dial_law_def dec_law_def client_ok_def call_ok_def sm_ok_def coherent_def news_env_def
      moved_env_def moved_state_def ns_view_def str_view_def sm_Load_map_of)

lemma example_runE:
  obtains s' where "client_run news_env example_acts moved_state = Ret ([True, True, True, True], s')"
    and "conn_lookup (rs_conns s') ''kafka'' = Some ''kafka.dev:50051''"
  using example_run by (auto split: go.splits)

lemma client_refines_directory_witness:
  "\<exists>s'. client_run news_env example_acts moved_state = Ret ([True, True, True, True], s') \<and>
    dir_run (re_Target news_env) (re_dec news_env) example_acts [True, True, True, True]
      (directory_of moved_state) (directory_of s')"
  by (rule example_runE) (use client_refines_directory[OF example_laws(1-3)] in blast)

lemma connections_stay_coherent_witness:
  "\<exists>s'. client_run news_env example_acts moved_state = Ret ([True, True, True, True], s') \<and>
    coherent (re_Target news_env) (directory_of s') \<and> conn_lookup (rs_conns s') ''kafka'' = Some ''kafka.dev:50051''"
proof (rule example_runE)
  fix s' assume r: "client_run news_env example_acts moved_state = Ret ([True, True, True, True], s')"
    and c: "conn_lookup (rs_conns s') ''kafka'' = Some ''kafka.dev:50051''"
  have "calls_ok example_acts [True, True, True, True]" by (simp add: calls_ok_def example_acts_def)
  from connections_stay_coherent[OF example_laws r this] r c show ?thesis by blast
qed

definition refused_env :: "(nat, string, unit, unit) rpc_env" where
  "refused_env = moved_env\<lparr>re_Dial := (\<lambda>t w. (Inl (PlainErr ''refused''), w))\<rparr>"

lemma failed_failover_leaves_stale_witness:
  "\<exists>s'. RetryGrpcUnaryClientInterceptor refused_env moved_invoker ''kafka.old:50051'' moved_state =
      Ret (Some (PlainErr ''refused''), s') \<and>
    GetServiceNamespace ''kafka'' (rs_call s') = ''common'' \<and>
    GetConn refused_env ''kafka'' s' = Ret (Inr ''kafka.old:50051'', s')"
proof -
  have ent: "GetNewServiceEntity (re_k8s refused_env) (re_list refused_env) ''kafka'' ''old'' (rs_k8s moved_state) 0 =
      Ret ((True, ''common'', None), rs_k8s moved_state, 0)"
    by (simp add: GetNewServiceEntity_def moved_state_def)
  have w: "rs_world moved_state = 0" by (simp add: moved_state_def)
  have "conn_lookup (rs_conns moved_state) ''kafka'' = Some ''kafka.old:50051''"
    by (simp add: moved_state_def conn_lookup_Load sm_Load_map_of)
  from failed_failover_leaves_stale[OF example_laws(3) this, where X = refused_env and invoker = moved_invoker
      and ns = "''old''" and ns' = "''common''" and err = "StatusErr 14 ''unavailable''" and ?w1.0 = 0
      and ?w2.0 = 0 and chg = True and k' = "rs_k8s moved_state" and e = "PlainErr ''refused''"] ent w
  show ?thesis
    by (fastforce simp: moved_invoker_def ParseRPCErrorCode_def refused_env_def moved_env_def GetTarget_def)
qed

end
