(* ===== verification/TraceMd.thy ===== *)
theory TraceMd
  imports Utils "HOL-Library.Word"
begin

text \<open>
  Trace propagation of \<open>common/utils/utils.go\<close>: contexts with gRPC metadata, the B3 keys in them and
  the spans made from them.

  A context is opaque (\<open>'ctx\<close>). The package \<open>metadata\<close> of gRPC is the record \<open>md_api\<close>; what the code
  relies on of its documentation is \<open>md_laws\<close>: keys read back are distinct lower-case ASCII keys,
  \<open>Set\<close> replaces the values of one key, the incoming and the outgoing metadata of a context are
  independent, and each reads back as what was put in. The order of a metadata map is not
  determined. OpenTracing and Jaeger are the record \<open>tracer_api\<close> and the function \<open>ContextFromString\<close>;
  of a Jaeger span context the code reads the four fields of \<open>jaeger_ctx\<close>.
\<close>

section \<open>Metadata\<close>

type_synonym md = "(string, string list) gomap"

record 'ctx md_api =
  FromIncomingContext :: "'ctx \<Rightarrow> md option"
  FromOutgoingContext :: "'ctx \<Rightarrow> md option"
  NewIncomingContext :: "'ctx \<Rightarrow> md \<Rightarrow> 'ctx"
  NewOutgoingContext :: "'ctx \<Rightarrow> md \<Rightarrow> 'ctx"
  AppendToOutgoingContext :: "'ctx \<Rightarrow> string \<Rightarrow> string \<Rightarrow> 'ctx"
  md_Join :: "md \<Rightarrow> md \<Rightarrow> md"
  md_Pairs :: "string \<Rightarrow> string \<Rightarrow> md"
  md_Set :: "string \<Rightarrow> string \<Rightarrow> md \<Rightarrow> md"
  md_Get :: "md \<Rightarrow> string \<Rightarrow> string list"
  md_Append :: "string \<Rightarrow> string list \<Rightarrow> md \<Rightarrow> md"

definition lower_key :: "string \<Rightarrow> bool" where
  "lower_key k \<longleftrightarrow> list_all (\<lambda>c. of_char c < (128 :: nat) \<and> \<not> (65 \<le> (of_char c :: nat) \<and> of_char c \<le> (90 :: nat))) k"

definition canonical_md :: "md \<Rightarrow> bool" where
  "canonical_md m \<longleftrightarrow> distinct (map fst m) \<and> (\<forall>k \<in> fst ` set m. lower_key k)"

definition md_laws :: "'ctx md_api \<Rightarrow> bool" where
  "md_laws M \<longleftrightarrow>
     (\<forall>k v m. lower_key k \<longrightarrow> canonical_md m \<longrightarrow>
        canonical_md (md_Set M k v m) \<and> map_of (md_Set M k v m) = (map_of m)(k \<mapsto> [v])) \<and>
     (\<forall>c m. FromIncomingContext M c = Some m \<longrightarrow> canonical_md m) \<and>
     (\<forall>c m. FromOutgoingContext M c = Some m \<longrightarrow> canonical_md m) \<and>
     (\<forall>c m. canonical_md m \<longrightarrow>
        (\<exists>m'. FromIncomingContext M (NewIncomingContext M c m) = Some m' \<and> map_of m' = map_of m) \<and>
        FromOutgoingContext M (NewIncomingContext M c m) = FromOutgoingContext M c) \<and>
     (\<forall>c m. canonical_md m \<longrightarrow>
        (\<exists>m'. FromOutgoingContext M (NewOutgoingContext M c m) = Some m' \<and> map_of m' = map_of m) \<and>
        FromIncomingContext M (NewOutgoingContext M c m) = FromIncomingContext M c)"

text \<open>\<open>context.WithValue\<close>, which both constructors call, panics when the parent is nil.\<close>

definition with_parent :: "('ctx \<Rightarrow> md \<Rightarrow> 'ctx) \<Rightarrow> 'ctx option \<Rightarrow> md \<Rightarrow> 'ctx option go" where
  "with_parent new parent m = (case parent of None \<Rightarrow> Panic NilContext | Some c \<Rightarrow> Ret (Some (new c m)))"

definition CopyContext :: "'ctx md_api \<Rightarrow> 'ctx \<Rightarrow> 'ctx option go" where
  "CopyContext M ctx =
     go_bind (case FromIncomingContext M ctx of
                Some mdGrpc \<Rightarrow> with_parent (NewIncomingContext M) None mdGrpc
              | None \<Rightarrow> Ret None) (\<lambda>newCtx.
       case FromOutgoingContext M ctx of
         Some mdGrpc \<Rightarrow> with_parent (NewOutgoingContext M) newCtx mdGrpc
       | None \<Rightarrow> Ret newCtx)"

definition InAndOutContextAppendKV :: "'ctx md_api \<Rightarrow> 'ctx \<Rightarrow> string \<Rightarrow> string \<Rightarrow> 'ctx" where
  "InAndOutContextAppendKV M ctx k v =
     (let m = (case FromIncomingContext M ctx of None \<Rightarrow> [] | Some m \<Rightarrow> m);
          m = md_Join M m (md_Pairs M k v);
          ctx = NewIncomingContext M ctx m
      in AppendToOutgoingContext M ctx k v)"

definition InAndOutContextSetKV :: "'ctx md_api \<Rightarrow> 'ctx \<Rightarrow> string \<Rightarrow> string \<Rightarrow> 'ctx" where
  "InAndOutContextSetKV M ctx k v =
     (let mdIn = (case FromIncomingContext M ctx of None \<Rightarrow> [] | Some m \<Rightarrow> m);
          mdIn = md_Set M k v mdIn;
          mdOut = (case FromOutgoingContext M ctx of None \<Rightarrow> [] | Some m \<Rightarrow> m);
          mdOut = md_Set M k v mdOut;
          ctx = NewIncomingContext M ctx mdIn
      in NewOutgoingContext M ctx mdOut)"

definition InComing2OutComing :: "'ctx md_api \<Rightarrow> 'ctx \<Rightarrow> 'ctx" where
  "InComing2OutComing M ctx =
     NewOutgoingContext M ctx (case FromIncomingContext M ctx of None \<Rightarrow> [] | Some m \<Rightarrow> m)"

section \<open>The B3 keys\<close>

record b3_ids =
  b3_traceId :: string
  b3_spanId :: string
  b3_parentSpanID :: string
  b3_flag :: string
  b3_UberTraceId :: string

definition b3_entry :: "unicode_tables \<Rightarrow> string \<times> string list \<Rightarrow> b3_ids \<Rightarrow> b3_ids" where
  "b3_entry U = (\<lambda>(key, vals) r.
     case vals of
       [] \<Rightarrow> r
     | v # _ \<Rightarrow>
        if EqualFold U key ''x-b3-traceid'' then r\<lparr>b3_traceId := v\<rparr>
        else if EqualFold U key ''x-b3-spanid'' then r\<lparr>b3_spanId := v\<rparr>
        else if EqualFold U key ''x-b3-parentspanid'' then r\<lparr>b3_parentSpanID := v\<rparr>
        else if EqualFold U key ''x-b3-sampled'' then r\<lparr>b3_flag := v\<rparr>
        else if EqualFold U key ''uber-trace-id'' then r\<lparr>b3_UberTraceId := v\<rparr>
        else r)"

definition GetB3CombineTraceIdAndUberTraceId :: "unicode_tables \<Rightarrow> md \<Rightarrow> string \<times> string" where
  "GetB3CombineTraceIdAndUberTraceId U mp =
     (let r = fold (b3_entry U) mp
                \<lparr>b3_traceId = [], b3_spanId = [], b3_parentSpanID = [], b3_flag = [], b3_UberTraceId = []\<rparr>
      in (if b3_traceId r \<noteq> []
          then B3TraceIdToUberTraceId (b3_traceId r) (b3_spanId r) (b3_parentSpanID r) (b3_flag r)
          else [],
          b3_UberTraceId r))"

record jaeger_ctx =
  sc_TraceID :: string
  sc_SpanID :: string
  sc_ParentID :: string
  sc_Flags :: "8 word"

definition flag_text :: "jaeger_ctx \<Rightarrow> string" where
  "flag_text sc = nat_text (unat (sc_Flags sc))"

definition SetContextWithB3 :: "'ctx md_api \<Rightarrow> 'ctx \<Rightarrow> jaeger_ctx \<Rightarrow> 'ctx" where
  "SetContextWithB3 M ctx spanCtx =
     (if sc_TraceID spanCtx = [] then ctx
      else
        let reCtx = InAndOutContextSetKV M ctx ''x-b3-traceid'' (sc_TraceID spanCtx);
            reCtx = InAndOutContextSetKV M reCtx ''x-b3-spanid'' (sc_SpanID spanCtx);
            reCtx = InAndOutContextSetKV M reCtx ''x-b3-sampled'' (flag_text spanCtx)
        in InAndOutContextSetKV M reCtx ''x-b3-parentspanid'' (sc_ParentID spanCtx))"

definition UserHeaderToSetContextWithB3 :: "'ctx md_api \<Rightarrow> 'ctx \<Rightarrow> md \<Rightarrow> 'ctx" where
  "UserHeaderToSetContextWithB3 M ctx header =
     (let m = fold (\<lambda>(key, vals). md_Append M key vals) header [] in
      fold (\<lambda>key reCtx.
              case md_Get M m key of
                [] \<Rightarrow> reCtx
              | v # _ \<Rightarrow> InAndOutContextSetKV M reCtx key v)
        [''x-b3-traceid'', ''x-b3-spanid'', ''x-b3-sampled'', ''x-b3-parentspanid''] ctx)"

text \<open>A span context that is not Jaeger's is \<open>None\<close>; a nil \<open>MD\<close> is the empty map here, as it is replaced.\<close>

definition SetMdWithB3 :: "'ctx md_api \<Rightarrow> md \<Rightarrow> jaeger_ctx option \<Rightarrow> md" where
  "SetMdWithB3 M m openSpanCtx =
     (case openSpanCtx of
        None \<Rightarrow> m
      | Some spanCtx \<Rightarrow>
          md_Set M ''x-b3-parentspanid'' (sc_ParentID spanCtx)
            (md_Set M ''x-b3-sampled'' (flag_text spanCtx)
              (md_Set M ''x-b3-spanid'' (sc_SpanID spanCtx)
                (md_Set M ''x-b3-traceid'' (sc_TraceID spanCtx) m))))"

definition GetSpanCtxFromCtxB3KV ::
    "'ctx md_api \<Rightarrow> unicode_tables \<Rightarrow> (string \<Rightarrow> 'sc \<times> gerr option) \<Rightarrow> 'ctx \<Rightarrow> 'sc option \<times> gerr option" where
  "GetSpanCtxFromCtxB3KV M U ContextFromString ctx =
     (let m = (case FromIncomingContext M ctx of None \<Rightarrow> [] | Some m \<Rightarrow> m);
          B3CombineTraceId = fst (GetB3CombineTraceIdAndUberTraceId U m)
      in if B3CombineTraceId \<noteq> []
         then (let (spanCtx, err) = ContextFromString B3CombineTraceId in (Some spanCtx, err))
         else (None, None))"

definition GetSpanCtxFromCtx ::
    "'ctx md_api \<Rightarrow> unicode_tables \<Rightarrow> (string \<Rightarrow> 'sc \<times> gerr option) \<Rightarrow> 'ctx \<Rightarrow> 'sc option \<times> gerr option" where
  "GetSpanCtxFromCtx M U ContextFromString ctx =
     (let m = (case FromIncomingContext M ctx of None \<Rightarrow> [] | Some m \<Rightarrow> m);
          B3CombineTraceId = fst (GetB3CombineTraceIdAndUberTraceId U m)
      in if B3CombineTraceId \<noteq> []
         then (let (spanCtx, err) = ContextFromString B3CombineTraceId in (Some spanCtx, err))
         else (None, None))"

section \<open>Spans\<close>

datatype 'sc span_ref = ChildOf 'sc | RPCServerOption "'sc option"

record ('ctx, 'span, 'sc) tracer_api =
  SpanFromContext :: "'ctx \<Rightarrow> 'span option"
  ContextWithSpan :: "'ctx \<Rightarrow> 'span \<Rightarrow> 'ctx"
  Context_of :: "'span \<Rightarrow> 'sc"
  StartSpanOf :: "'span \<Rightarrow> string \<Rightarrow> 'sc span_ref \<Rightarrow> 'span"      \<comment> \<open>with the tracer of a span\<close>
  StartSpan :: "string \<Rightarrow> 'sc span_ref \<Rightarrow> 'span"                  \<comment> \<open>with the global tracer\<close>
  Extract :: "md \<Rightarrow> 'sc option"

definition StartSpanWrapper ::
    "'ctx md_api \<Rightarrow> unicode_tables \<Rightarrow> ('ctx, 'span, 'sc) tracer_api \<Rightarrow> 'ctx \<Rightarrow> string \<Rightarrow> 'ctx \<times> 'span" where
  "StartSpanWrapper M U T ctx operationName =
     (let reSpan =
            (case SpanFromContext T ctx of
               Some spanParent \<Rightarrow> StartSpanOf T spanParent operationName (ChildOf (Context_of T spanParent))
             | None \<Rightarrow>
                 let m = (case FromIncomingContext M ctx of None \<Rightarrow> [] | Some m \<Rightarrow> m);
                     B3CombineTraceId = fst (GetB3CombineTraceIdAndUberTraceId U m);
                     m = (if B3CombineTraceId \<noteq> [] then AList.update ''uber-trace-id'' [B3CombineTraceId] m else m)
                 in StartSpan T operationName (RPCServerOption (Extract T m)))
      in (ContextWithSpan T ctx reSpan, reSpan))"

text \<open>The trace id of the Jaeger span in the context, if there is one, is \<open>span_trace ctx\<close>.\<close>

fun first_trace_id :: "unicode_tables \<Rightarrow> md \<Rightarrow> string" where
  "first_trace_id U [] = []"
| "first_trace_id U ((key, vals) # m) =
     (case vals of
        [] \<Rightarrow> first_trace_id U m
      | v # _ \<Rightarrow>
          if EqualFold U key ''x-b3-traceid'' then v
          else if EqualFold U key ''uber-trace-id'' then hd (split_byte (CHR '':'') v)
          else first_trace_id U m)"

definition GetTraceIdFromCtx ::
    "'ctx md_api \<Rightarrow> unicode_tables \<Rightarrow> ('ctx \<Rightarrow> string option) \<Rightarrow> 'ctx \<Rightarrow> string" where
  "GetTraceIdFromCtx M U span_trace ctx =
     (case span_trace ctx of
        Some t \<Rightarrow> t
      | None \<Rightarrow> first_trace_id U (case FromIncomingContext M ctx of None \<Rightarrow> [] | Some m \<Rightarrow> m))"

section \<open>\<open>CopyContext\<close> copies nothing\<close>

text \<open>
  \<open>CopyContext\<close> never returns a context: when there is metadata to copy it panics, because the new
  context it adds the metadata to is nil, and otherwise it returns that nil context.
\<close>

lemma CopyContext_never_copies:
  "CopyContext M ctx =
     (if FromIncomingContext M ctx = None \<and> FromOutgoingContext M ctx = None then Ret None
      else Panic NilContext)"
  by (simp add: CopyContext_def with_parent_def split: option.split)

section \<open>Reading the B3 keys\<close>

lemma EqualFold_lower:
  assumes "lower_key s" and "lower_key t"
  shows "EqualFold U s t \<longleftrightarrow> s = t"
proof -
  have *: "map (fold_rune U) (runes k) = map of_char k" if "lower_key k" for k
  proof -
    have "runes k = map of_char k"
      using that by (subst runes_ascii) (auto simp: ascii_def bytes_of_def lower_key_def list_all_iff)
    then show ?thesis using that
      by (auto simp: lower_key_def list_all_iff fold_rune_def)
  qed
  have "inj (of_char :: char \<Rightarrow> nat)" by (simp add: inj_on_def of_char_eq_iff)
  then show ?thesis using assms by (simp add: EqualFold_def * inj_map_eq_map)
qed

lemma lower_b3_keys [simp]:
  "lower_key ''x-b3-traceid''" "lower_key ''x-b3-spanid''" "lower_key ''x-b3-parentspanid''"
  "lower_key ''x-b3-sampled''" "lower_key ''uber-trace-id''"
  by (simp_all add: lower_key_def)

definition first_value :: "(string \<rightharpoonup> string list) \<Rightarrow> string \<Rightarrow> string \<Rightarrow> string" where
  "first_value m k d = (case m k of Some (v # _) \<Rightarrow> v | _ \<Rightarrow> d)"

lemma first_value_None: "m k = None \<Longrightarrow> first_value m k d = d"
  by (simp add: first_value_def)

lemma first_value_upd [simp]:
  "first_value (m(k \<mapsto> v # vs)) k' d = (if k' = k then v else first_value m k' d)"
  by (simp add: first_value_def)

lemma b3_entry_lower:
  "lower_key k \<Longrightarrow> b3_entry U (k, v # vs) r =
    (if k = ''x-b3-traceid'' then r\<lparr>b3_traceId := v\<rparr>
     else if k = ''x-b3-spanid'' then r\<lparr>b3_spanId := v\<rparr>
     else if k = ''x-b3-parentspanid'' then r\<lparr>b3_parentSpanID := v\<rparr>
     else if k = ''x-b3-sampled'' then r\<lparr>b3_flag := v\<rparr>
     else if k = ''uber-trace-id'' then r\<lparr>b3_UberTraceId := v\<rparr>
     else r)"
  by (simp add: b3_entry_def EqualFold_lower)

lemma b3_fold:
  "canonical_md m \<Longrightarrow> fold (b3_entry U) m r =
    \<lparr>b3_traceId = first_value (map_of m) ''x-b3-traceid'' (b3_traceId r),
     b3_spanId = first_value (map_of m) ''x-b3-spanid'' (b3_spanId r),
     b3_parentSpanID = first_value (map_of m) ''x-b3-parentspanid'' (b3_parentSpanID r),
     b3_flag = first_value (map_of m) ''x-b3-sampled'' (b3_flag r),
     b3_UberTraceId = first_value (map_of m) ''uber-trace-id'' (b3_UberTraceId r)\<rparr>"
proof (induction m arbitrary: r)
  case Nil
  then show ?case by (simp add: first_value_def)
next
  case (Cons e m)
  obtain k vs where e: "e = (k, vs)" by (cases e)
  have c: "canonical_md m" and k: "lower_key k" and fresh: "map_of m k = None"
    using Cons.prems by (auto simp: canonical_md_def e)
  note IH = Cons.IH[OF c]
  show ?case
  proof (cases vs)
    case Nil
    then show ?thesis using Cons.IH[OF c] fresh by (simp add: e b3_entry_def first_value_def)
  next
    case (Cons v vs')
    show ?thesis
      using first_value_None[of "map_of m", OF fresh]
      by (cases r) (auto simp: e Cons IH b3_entry_lower[OF k] simp del: fun_upd_apply)
  qed
qed

text \<open>The string that is made of canonical metadata does not depend on the order of the map.\<close>

definition combined_id :: "(string \<rightharpoonup> string list) \<Rightarrow> string" where
  "combined_id m =
     B3TraceIdToUberTraceId (first_value m ''x-b3-traceid'' []) (first_value m ''x-b3-spanid'' [])
       (first_value m ''x-b3-parentspanid'' []) (first_value m ''x-b3-sampled'' [])"

lemma GetB3Combine_canonical:
  "canonical_md m \<Longrightarrow> GetB3CombineTraceIdAndUberTraceId U m =
     (combined_id (map_of m), first_value (map_of m) ''uber-trace-id'' [])"
  by (simp add: GetB3CombineTraceIdAndUberTraceId_def b3_fold combined_id_def B3TraceIdToUberTraceId_def)

section \<open>Writing them\<close>

definition in_view :: "'ctx md_api \<Rightarrow> 'ctx \<Rightarrow> string \<rightharpoonup> string list" where
  "in_view M c = map_of (case FromIncomingContext M c of None \<Rightarrow> [] | Some m \<Rightarrow> m)"

definition out_view :: "'ctx md_api \<Rightarrow> 'ctx \<Rightarrow> string \<rightharpoonup> string list" where
  "out_view M c = map_of (case FromOutgoingContext M c of None \<Rightarrow> [] | Some m \<Rightarrow> m)"

lemma SetKV_view:
  assumes M: "md_laws M" and k: "lower_key k"
  shows "in_view M (InAndOutContextSetKV M c k v) = (in_view M c)(k \<mapsto> [v])"
    and "out_view M (InAndOutContextSetKV M c k v) = (out_view M c)(k \<mapsto> [v])"
proof -
  define i where "i = (case FromIncomingContext M c of None \<Rightarrow> [] | Some m \<Rightarrow> m)"
  define out where "out = (case FromOutgoingContext M c of None \<Rightarrow> [] | Some m \<Rightarrow> m)"
  define c1 where "c1 = NewIncomingContext M c (md_Set M k v i)"
  have nil: "canonical_md []" by (simp add: canonical_md_def)
  have can: "canonical_md i" "canonical_md out"
    using M nil unfolding i_def out_def md_laws_def by (auto split: option.split)
  have set: "canonical_md (md_Set M k v m)" "map_of (md_Set M k v m) = (map_of m)(k \<mapsto> [v])"
    if "canonical_md m" for m using M k that by (auto simp: md_laws_def)
  have eq: "InAndOutContextSetKV M c k v = NewOutgoingContext M c1 (md_Set M k v out)"
    by (simp add: InAndOutContextSetKV_def c1_def i_def out_def Let_def)
  have "FromIncomingContext M (NewOutgoingContext M c1 (md_Set M k v out)) = FromIncomingContext M c1"
    using M set(1)[OF can(2)] by (simp add: md_laws_def)
  moreover obtain m1 where "FromIncomingContext M c1 = Some m1" "map_of m1 = map_of (md_Set M k v i)"
    using M set(1)[OF can(1)] unfolding md_laws_def c1_def by blast
  ultimately show "in_view M (InAndOutContextSetKV M c k v) = (in_view M c)(k \<mapsto> [v])"
    using set(2)[OF can(1)] by (simp add: in_view_def eq i_def)
  obtain m2 where "FromOutgoingContext M (NewOutgoingContext M c1 (md_Set M k v out)) = Some m2"
    "map_of m2 = map_of (md_Set M k v out)"
    using M set(1)[OF can(2)] unfolding md_laws_def by blast
  then show "out_view M (InAndOutContextSetKV M c k v) = (out_view M c)(k \<mapsto> [v])"
    using set(2)[OF can(2)] by (simp add: out_view_def eq out_def)
qed

lemma in_view_canonical:
  "md_laws M \<Longrightarrow> canonical_md (case FromIncomingContext M c of None \<Rightarrow> [] | Some m \<Rightarrow> m)"
  by (cases "FromIncomingContext M c") (simp_all add: md_laws_def, simp add: canonical_md_def)

lemma GetSpanCtx_view:
  assumes "md_laws M"
  shows "GetSpanCtxFromCtxB3KV M U parse c =
    (if combined_id (in_view M c) = [] then (None, None)
     else (Some (fst (parse (combined_id (in_view M c)))), snd (parse (combined_id (in_view M c)))))"
  by (simp add: GetSpanCtxFromCtxB3KV_def GetB3Combine_canonical[OF in_view_canonical[OF assms]]
      in_view_def split: prod.split)

definition span_text :: "jaeger_ctx \<Rightarrow> string" where
  "span_text sp = sc_TraceID sp @ '':'' @ sc_SpanID sp @ '':'' @ sc_ParentID sp @ '':'' @ flag_text sp"

lemma SetContextWithB3_view:
  assumes "md_laws M" and "sc_TraceID sp \<noteq> []"
  shows "in_view M (SetContextWithB3 M c sp) = (in_view M c)(''x-b3-traceid'' \<mapsto> [sc_TraceID sp],
      ''x-b3-spanid'' \<mapsto> [sc_SpanID sp], ''x-b3-sampled'' \<mapsto> [flag_text sp], ''x-b3-parentspanid'' \<mapsto> [sc_ParentID sp])"
    and "out_view M (SetContextWithB3 M c sp) = (out_view M c)(''x-b3-traceid'' \<mapsto> [sc_TraceID sp],
      ''x-b3-spanid'' \<mapsto> [sc_SpanID sp], ''x-b3-sampled'' \<mapsto> [flag_text sp], ''x-b3-parentspanid'' \<mapsto> [sc_ParentID sp])"
  using assms(2) by (simp_all add: SetContextWithB3_def SetKV_view[OF assms(1)] del: fun_upd_apply)

lemma combined_id_span:
  assumes "sc_TraceID sp \<noteq> []" and "sc_SpanID sp \<noteq> []" and "sc_ParentID sp \<noteq> []"
  shows "combined_id (m(''x-b3-traceid'' \<mapsto> [sc_TraceID sp], ''x-b3-spanid'' \<mapsto> [sc_SpanID sp],
      ''x-b3-sampled'' \<mapsto> [flag_text sp], ''x-b3-parentspanid'' \<mapsto> [sc_ParentID sp])) = span_text sp"
  using assms
  by (simp add: combined_id_def B3TraceIdToUberTraceId_def span_text_def flag_text_def del: fun_upd_apply)

text \<open>
  C27: A span survives the trip through a context: after \<open>SetContextWithB3\<close>, the reader of the B3 keys
  gets back the text \<open>trace:span:parent:flags\<close> of that span, whatever keys the context had before, so
  that a parser inverse to this text gives the span itself; the outgoing metadata, which the next
  service receives, combines to the same text; and every key that is not one of the four is kept.
\<close>

theorem span_survives_context:
  assumes "md_laws M" and "sc_TraceID sp \<noteq> []" and "sc_SpanID sp \<noteq> []" and "sc_ParentID sp \<noteq> []"
    and "ContextFromString (span_text sp) = (sp, None)"
    and "c' = SetContextWithB3 M c sp"
  shows "GetSpanCtxFromCtxB3KV M U ContextFromString c' = (Some sp, None) \<and>
    combined_id (out_view M c') = span_text sp \<and>
    (\<forall>k. k \<notin> {''x-b3-traceid'', ''x-b3-spanid'', ''x-b3-sampled'', ''x-b3-parentspanid''} \<longrightarrow>
       in_view M c' k = in_view M c k \<and> out_view M c' k = out_view M c k)"
proof -
  have "combined_id (in_view M c') = span_text sp" "combined_id (out_view M c') = span_text sp"
    unfolding assms(6) SetContextWithB3_view[OF assms(1,2)] by (rule combined_id_span[OF assms(2-4)])+
  moreover have "span_text sp \<noteq> []" by (simp add: span_text_def)
  ultimately show ?thesis
    by (simp add: GetSpanCtx_view[OF assms(1)] assms(5) SetContextWithB3_view[OF assms(1,2)] assms(6))
qed

text \<open>An instance: a context is its two metadata maps, of which well-formed ones are read.\<close>

definition checked_md :: "md option \<Rightarrow> md option" where
  "checked_md m = (case m of None \<Rightarrow> None | Some m \<Rightarrow> if canonical_md m then Some m else None)"

definition append_md :: "string \<Rightarrow> string list \<Rightarrow> md \<Rightarrow> md" where
  "append_md k vs m = AList.update k ((case map_of m k of None \<Rightarrow> [] | Some v \<Rightarrow> v) @ vs) m"

definition example_md_api :: "(md option \<times> md option) md_api" where
  "example_md_api = \<lparr>FromIncomingContext = (\<lambda>c. checked_md (fst c)), FromOutgoingContext = (\<lambda>c. checked_md (snd c)),
     NewIncomingContext = (\<lambda>c m. (Some m, snd c)), NewOutgoingContext = (\<lambda>c m. (fst c, Some m)),
     AppendToOutgoingContext = (\<lambda>c k v. (fst c, Some (append_md k [v] (case snd c of None \<Rightarrow> [] | Some m \<Rightarrow> m)))),
     md_Join = (\<lambda>m m'. fold (\<lambda>(k, vs). append_md k vs) m' m), md_Pairs = (\<lambda>k v. [(k, [v])]),
     md_Set = (\<lambda>k v m. AList.update k [v] m), md_Get = (\<lambda>m k. case map_of m k of None \<Rightarrow> [] | Some v \<Rightarrow> v),
     md_Append = append_md\<rparr>"

lemma example_md_laws: "md_laws example_md_api"
  by (auto simp: md_laws_def example_md_api_def checked_md_def canonical_md_def gomap_simps
      distinct_update update_keys dom_update split: option.splits if_splits)

definition example_span :: jaeger_ctx where
  "example_span = \<lparr>sc_TraceID = ''4bf9'', sc_SpanID = ''00f0'', sc_ParentID = ''0a1b'', sc_Flags = 1\<rparr>"

lemma span_survives_context_witness:
  "GetSpanCtxFromCtxB3KV example_md_api ascii_tables (\<lambda>t. (example_span, None))
     (SetContextWithB3 example_md_api (Some [(''x-b3-traceid'', [''stale''])], None) example_span) =
   (Some example_span, None)"
  using span_survives_context[OF example_md_laws, of example_span "\<lambda>t. (example_span, None)"]
  by (simp add: example_span_def)

end
