(* ===== verification/Interceptors.thy ===== *)
theory Interceptors
  imports TraceMd
begin

text \<open>
  The tracing interceptors: \<open>grpc-client-interceptor\<close> (unary), \<open>grpc-server-interceptor\<close> (unary and
  stream) and \<open>http-server-interceptor\<close>, with their \<open>recover\<close>.

  What an interceptor writes into its span is the list of \<open>span_item\<close>s, in order. The intercepted
  call is a function on its context and an outside world \<open>'w\<close> that is kept when it panics. \<open>params\<close> is the
  JSON text of the request, \<open>stack\<close> the text of \<open>debug.Stack()\<close>; the error text and code are those of
  \<open>err_text\<close> and \<open>ParseRPCErrorCode\<close>. The metadata package, the tracer and Jaeger's parser are the record
  \<open>trace_env\<close>. Logging is not modelled.
\<close>

section \<open>Span items and errors\<close>

datatype span_item =
    LogFields string string
  | LogKV string string
  | SetTag string string
  | SetTagInt string int
  | SetError
  | Finish

definition PANIC_ERR_CODE :: int where "PANIC_ERR_CODE = 590"

definition panic_error :: gerr where
  "panic_error = StatusErr PANIC_ERR_CODE ''server inner error''"

record err_api =
  ea_fmt_status :: "int \<Rightarrow> string \<Rightarrow> string"
  ea_gjson_code :: "string \<Rightarrow> int option"

record ('ctx, 'span) trace_env =
  te_md :: "'ctx md_api"
  te_U :: unicode_tables
  te_tracer :: "('ctx, 'span, jaeger_ctx) tracer_api"
  te_parse :: "string \<Rightarrow> jaeger_ctx \<times> gerr option"

text \<open>The span of an incoming call: continues the trace that the B3 keys of the context name.\<close>

definition server_span :: "('ctx, 'span) trace_env \<Rightarrow> 'ctx \<Rightarrow> string \<Rightarrow> 'span" where
  "server_span E ctx name =
     StartSpan (te_tracer E) name
       (RPCServerOption (fst (GetSpanCtxFromCtxB3KV (te_md E) (te_U E) (te_parse E) ctx)))"

definition code_of :: "err_api \<Rightarrow> gerr \<Rightarrow> int" where
  "code_of A e = ParseRPCErrorCode (ea_fmt_status A) (ea_gjson_code A) (Some e)"

text \<open>\<open>s[:n]\<close>: a slice beyond the end panics.\<close>

definition slice_to :: "nat \<Rightarrow> string \<Rightarrow> string go" where
  "slice_to n s = (if n \<le> length s then Ret (take n s) else Panic SliceOutOfRange)"

text \<open>The last item of the three gRPC interceptors for an error: its text, cut when it is long.\<close>

definition error_msg_item :: "err_api \<Rightarrow> gerr \<Rightarrow> span_item go" where
  "error_msg_item A e =
     (if length (err_text (ea_fmt_status A) e) > 200
      then go_map (LogKV ''Grpc_Err_Msg'') (slice_to 800 (err_text (ea_fmt_status A) e))
      else Ret (LogKV ''Grpc_Err_Msg'' (err_text (ea_fmt_status A) e)))"

text \<open>
  What a function body did before it returned or panicked: the items written and the world, with the
  panic (if any) to be recovered. \<open>log.Fatal\<close> inside a call leaves the process.
\<close>

definition recover_items :: "string \<Rightarrow> bool \<Rightarrow> span_item list" where
  "recover_items stack mark = (if mark then [SetError] else []) @ [LogKV ''Panic'' (take 800 stack)]"

section \<open>The gRPC interceptors\<close>

type_synonym 'w call = "'w \<Rightarrow> gerr option go \<times> 'w"

definition client_context :: "('ctx, 'span) trace_env \<Rightarrow> 'ctx \<Rightarrow> string \<Rightarrow> 'ctx" where
  "client_context E ctx name =
     (let (ctxNew, span) = StartSpanWrapper (te_md E) (te_U E) (te_tracer E) ctx name
      in SetContextWithB3 (te_md E) ctxNew (Context_of (te_tracer E) span))"

definition JaegerGrpcUnaryClientInterceptor ::
    "('ctx, 'span) trace_env \<Rightarrow> err_api \<Rightarrow> string \<Rightarrow> 'ctx \<Rightarrow> string \<Rightarrow> string \<Rightarrow> string \<Rightarrow> ('ctx \<Rightarrow> 'w call) \<Rightarrow> 'w \<Rightarrow>
     (gerr option \<times> span_item list) go \<times> 'w" where
  "JaegerGrpcUnaryClientInterceptor E A stack ctx target_name method_name params invoker w =
     (let items = [SetTag ''grpc.type'' ''client_unary'', LogFields ''Param'' params] in
      case invoker (client_context E ctx (target_name @ method_name)) w of
        (Exit m, w) \<Rightarrow> (Exit m, w)
      | (Panic p, w) \<Rightarrow> (Ret (Some panic_error, items @ recover_items stack False @ [Finish]), w)
      | (Ret None, w) \<Rightarrow> (Ret (None, items @ [SetTagInt ''grpc.status_code'' 0, Finish]), w)
      | (Ret (Some err), w) \<Rightarrow>
          let items = items @ [SetError, SetTagInt ''grpc.status_code'' (code_of A err)] in
          (case error_msg_item A err of
             Ret i \<Rightarrow> (Ret (Some err, items @ [i, Finish]), w)
           | Panic p \<Rightarrow> (Ret (Some panic_error, items @ recover_items stack False @ [Finish]), w)
           | Exit m \<Rightarrow> (Exit m, w)))"

text \<open>The server's handler returns a response too; it is kept when only the error handling panics.\<close>

definition JaegerGrpcUnaryServerInterceptor ::
    "('ctx, 'span) trace_env \<Rightarrow> err_api \<Rightarrow> string \<Rightarrow> 'ctx \<Rightarrow> string \<Rightarrow> string \<Rightarrow>
     ('ctx \<Rightarrow> 'w \<Rightarrow> ('r option \<times> gerr option) go \<times> 'w) \<Rightarrow> 'w \<Rightarrow>
     ('r option \<times> gerr option \<times> span_item list) go \<times> 'w" where
  "JaegerGrpcUnaryServerInterceptor E A stack ctx FullMethod params handler w =
     (let items = [LogFields ''Param'' params, SetTag ''grpc.type'' ''server_unary''] in
      case handler (ContextWithSpan (te_tracer E) ctx (server_span E ctx FullMethod)) w of
        (Exit m, w) \<Rightarrow> (Exit m, w)
      | (Panic p, w) \<Rightarrow> (Ret (None, Some panic_error, items @ recover_items stack True @ [Finish]), w)
      | (Ret (resp, None), w) \<Rightarrow> (Ret (resp, None, items @ [SetTagInt ''grpc.status_code'' 0, Finish]), w)
      | (Ret (resp, Some err), w) \<Rightarrow>
          let items = items @ [SetError, SetTagInt ''grpc.status_code'' (code_of A err)] in
          (case error_msg_item A err of
             Ret i \<Rightarrow> (Ret (resp, Some err, items @ [i, Finish]), w)
           | Panic p \<Rightarrow> (Ret (resp, Some panic_error, items @ recover_items stack True @ [Finish]), w)
           | Exit m \<Rightarrow> (Exit m, w)))"

text \<open>
  The stream interceptor also sends the B3 metadata as header and trailer (\<open>send\<close>), before the handler
  runs, and marks neither an error nor a panic on the span.
\<close>

definition JaegerGrpcStreamServerInterceptor ::
    "('ctx, 'span) trace_env \<Rightarrow> err_api \<Rightarrow> string \<Rightarrow> 'ctx \<Rightarrow> string \<Rightarrow> (md \<Rightarrow> 'w \<Rightarrow> 'w) \<Rightarrow> (md \<Rightarrow> 'w \<Rightarrow> 'w) \<Rightarrow>
     'w call \<Rightarrow> 'w \<Rightarrow> (gerr option \<times> span_item list) go \<times> 'w" where
  "JaegerGrpcStreamServerInterceptor E A stack ctx FullMethod SetHeader SetTrailer handler w =
     (let items = [SetTag ''grpc.type'' ''server_stream''];
          m = SetMdWithB3 (te_md E) (case FromIncomingContext (te_md E) ctx of None \<Rightarrow> [] | Some m \<Rightarrow> m)
                (Some (Context_of (te_tracer E) (server_span E ctx FullMethod)));
          w = SetTrailer m (SetHeader m w) in
      case handler w of
        (Exit m, w) \<Rightarrow> (Exit m, w)
      | (Panic p, w) \<Rightarrow> (Ret (Some panic_error, items @ recover_items stack False @ [Finish]), w)
      | (Ret None, w) \<Rightarrow> (Ret (None, items @ [SetTagInt ''grpc.status_code'' 0, Finish]), w)
      | (Ret (Some err), w) \<Rightarrow>
          let items = items @ [SetTagInt ''grpc.status_code'' (code_of A err)] in
          (case error_msg_item A err of
             Ret i \<Rightarrow> (Ret (Some err, items @ [i, Finish]), w)
           | Panic p \<Rightarrow> (Ret (Some panic_error, items @ recover_items stack False @ [Finish]), w)
           | Exit m \<Rightarrow> (Exit m, w)))"

definition JaegerGrpcStreamClientInterceptor :: "('w \<Rightarrow> (gerr + 'st) go \<times> 'w) \<Rightarrow> 'w \<Rightarrow> (gerr + 'st) go \<times> 'w" where
  "JaegerGrpcStreamClientInterceptor streamer w = streamer w"

section \<open>The HTTP interceptor\<close>

text \<open>
  \<open>c.Next()\<close> runs the rest of the chain on the writer's state \<open>'h\<close>; \<open>gin_api\<close> holds what the interceptor
  asks gin for. \<open>body_of\<close> is the text of a \<open>responseBodyWriter\<close>, when the writer is one.
\<close>

record 'h gin_api =
  gin_Status :: "'h \<Rightarrow> int"
  gin_JSON :: "int \<Rightarrow> string \<Rightarrow> 'h \<Rightarrow> 'h"
  gin_body_of :: "'h \<Rightarrow> string option"

definition http_finish :: "'h gin_api \<Rightarrow> 'h \<Rightarrow> span_item list" where
  "http_finish G h =
     (if gin_Status G h \<noteq> 200
      then SetError # (case gin_body_of G h of None \<Rightarrow> [] | Some b \<Rightarrow> [LogFields ''err_msg'' b])
      else []) @
     [SetTagInt ''http.status_code'' (gin_Status G h), Finish]"

record http_request =
  hr_URI :: string
  hr_Method :: string
  hr_Proto :: string
  hr_Header :: md
  hr_KVParam :: string
  hr_BodyParam :: string

definition http_context :: "('ctx, 'span) trace_env \<Rightarrow> 'ctx \<Rightarrow> http_request \<Rightarrow> 'ctx" where
  "http_context E ctx req =
     (let ctx = UserHeaderToSetContextWithB3 (te_md E) ctx (hr_Header req);
          span = server_span E ctx (hr_URI req);
          ctxNew = ContextWithSpan (te_tracer E) ctx span
      in SetContextWithB3 (te_md E) ctxNew (Context_of (te_tracer E) span))"

definition JaegerHTTPServerInterceptor ::
    "('ctx, 'span) trace_env \<Rightarrow> 'h gin_api \<Rightarrow> string \<Rightarrow> 'ctx \<Rightarrow> http_request \<Rightarrow> ('ctx \<Rightarrow> 'h \<Rightarrow> unit go \<times> 'h) \<Rightarrow>
     'h \<Rightarrow> span_item list go \<times> 'h" where
  "JaegerHTTPServerInterceptor E G stack ctx req Next h =
     (let KVParam = hr_KVParam req;
          BodyParam = hr_BodyParam req;
          items = [SetTag ''http.method'' (hr_Method req), SetTag ''http.proto'' (hr_Proto req)];
          items = items @ (if KVParam \<noteq> [] then [LogFields ''KV_Param'' KVParam] else []);
          items = items @ (if BodyParam \<noteq> [] then [LogFields ''Body_Param'' BodyParam] else []) in
      case Next (http_context E ctx req) h of
        (Exit m, h) \<Rightarrow> (Exit m, h)
      | (Ret u, h) \<Rightarrow> (Ret (items @ http_finish G h), h)
      | (Panic p, h) \<Rightarrow>
          let panicStr = take 800 stack;
              h = gin_JSON G PANIC_ERR_CODE panicStr h in
          (Ret (items @ [SetError, LogKV ''Panic'' panicStr] @ http_finish G h), h))"

section \<open>What comes out of an interceptor\<close>

text \<open>The error the caller sees, as a function of how the call ended.\<close>

definition visible_error :: "err_api \<Rightarrow> gerr option go \<Rightarrow> gerr option" where
  "visible_error A r =
     (case r of
        Ret None \<Rightarrow> None
      | Ret (Some e) \<Rightarrow>
          (let n = length (err_text (ea_fmt_status A) e) in
           if 200 < n \<and> n < 800 then Some panic_error else Some e)
      | _ \<Rightarrow> Some panic_error)"

lemma error_msg_item_eq:
  "error_msg_item A e =
     (let t = err_text (ea_fmt_status A) e in
      if 200 < length t \<and> length t < 800 then Panic SliceOutOfRange
      else Ret (LogKV ''Grpc_Err_Msg'' (take 800 t)))"
  by (auto simp: error_msg_item_def slice_to_def Let_def)

definition example_trace_env :: "(md option \<times> md option, jaeger_ctx) trace_env" where
  "example_trace_env = \<lparr>te_md = example_md_api, te_U = ascii_tables,
     te_tracer = \<lparr>SpanFromContext = (\<lambda>_. None), ContextWithSpan = (\<lambda>c s. c), Context_of = (\<lambda>s. s),
       StartSpanOf = (\<lambda>s n r. s), StartSpan = (\<lambda>n r. example_span), Extract = (\<lambda>m. None)\<rparr>,
     te_parse = (\<lambda>t. (example_span, None))\<rparr>"

lemma client_interceptor_result:
  assumes "invoker (client_context E ctx (target @ mt)) w = (r, w')" and "\<And>m. r \<noteq> Exit m"
  shows "\<exists>items. JaegerGrpcUnaryClientInterceptor E A stack ctx target mt params invoker w =
      (Ret (visible_error A r, items @ [Finish]), w') \<and>
    Finish \<notin> set items \<and> (r = Ret None \<longrightarrow> SetTagInt ''grpc.status_code'' 0 \<in> set items)"
  using assms
  by (cases r)
    (auto simp: JaegerGrpcUnaryClientInterceptor_def visible_error_def error_msg_item_eq Let_def
      recover_items_def split: option.split)

text \<open>
  C26: Unless the call leaves the process, the client interceptor returns, and the span carries exactly this, in this
  order: the type tag and the parameters; for a success the status code 0; for an error the error mark, its
  status code and its text, which is cut to 800 bytes when it is longer than that; for a panic of the call only
  the stack, cut to 800 bytes, without an error mark; and at last the end of the span. The caller gets the call's
  own error, except that a panic becomes the status 590, and so does an error whose text has between 201 and
  799 bytes: that text is sliced beyond its end, and the stack of the resulting panic is written in its place.
\<close>

theorem client_interceptor_error:
  assumes "invoker (client_context E ctx (target @ mt)) w = (r, w')" and "\<And>m. r \<noteq> Exit m"
  shows "JaegerGrpcUnaryClientInterceptor E A stack ctx target mt params invoker w =
    (case r of
       Ret None \<Rightarrow>
         (Ret (None,
           [SetTag ''grpc.type'' ''client_unary'', LogFields ''Param'' params,
            SetTagInt ''grpc.status_code'' 0, Finish]), w')
     | Ret (Some err) \<Rightarrow>
         let t = err_text (ea_fmt_status A) err;
             cut = 200 < length t \<and> length t < 800
         in (Ret (Some (if cut then StatusErr 590 ''server inner error'' else err),
           [SetTag ''grpc.type'' ''client_unary'', LogFields ''Param'' params,
            SetError, SetTagInt ''grpc.status_code'' (ParseRPCErrorCode (ea_fmt_status A) (ea_gjson_code A) (Some err)),
            if cut then LogKV ''Panic'' (take 800 stack) else LogKV ''Grpc_Err_Msg'' (take 800 t), Finish]), w')
     | _ \<Rightarrow>
         (Ret (Some (StatusErr 590 ''server inner error''),
           [SetTag ''grpc.type'' ''client_unary'', LogFields ''Param'' params,
            LogKV ''Panic'' (take 800 stack), Finish]), w'))"
  using assms
  by (cases r)
    (auto simp: JaegerGrpcUnaryClientInterceptor_def panic_error_def PANIC_ERR_CODE_def error_msg_item_eq code_of_def
      recover_items_def Let_def split: option.split)

definition example_err_api :: err_api where
  "example_err_api = \<lparr>ea_fmt_status = (\<lambda>c d. d), ea_gjson_code = (\<lambda>_. None)\<rparr>"

lemma client_interceptor_error_witness:
  "JaegerGrpcUnaryClientInterceptor example_trace_env example_err_api ''stack'' (None, None) ''t'' ''m'' ''{}''
      (\<lambda>c w. (Ret (Some (PlainErr (replicate 300 (CHR ''x'')))), Suc w)) (0 :: nat) =
    (Ret (Some (StatusErr 590 ''server inner error''),
       [SetTag ''grpc.type'' ''client_unary'', LogFields ''Param'' ''{}'', SetError,
        SetTagInt ''grpc.status_code''
          (ParseRPCErrorCode (\<lambda>c d. d) (\<lambda>_. None) (Some (PlainErr (replicate 300 (CHR ''x''))))),
        LogKV ''Panic'' ''stack'', Finish]), Suc 0)"
  using client_interceptor_error[of "\<lambda>c w. (Ret (Some (PlainErr (replicate 300 (CHR ''x'')))), w + 1)"
      example_trace_env "(None, None)" "''t''" "''m''" 0 "Ret (Some (PlainErr (replicate 300 (CHR ''x''))))" "Suc 0"
      example_err_api "''stack''" "''{}''"]
  by (simp add: example_err_api_def Let_def)

lemma unary_interceptor_result:
  assumes "handler (ContextWithSpan (te_tracer E) ctx (server_span E ctx FullMethod)) w = (r, w')"
    and "\<And>m. r \<noteq> Exit m"
  shows "\<exists>items. JaegerGrpcUnaryServerInterceptor E A stack ctx FullMethod params handler w =
      (Ret (case r of Ret (resp, _) \<Rightarrow> resp | _ \<Rightarrow> None,
            visible_error A (go_map snd r), items @ [Finish]), w') \<and> Finish \<notin> set items \<and>
      (SetError \<in> set items \<longleftrightarrow> visible_error A (go_map snd r) \<noteq> None)"
  using assms
  by (cases r)
    (auto simp: JaegerGrpcUnaryServerInterceptor_def visible_error_def error_msg_item_eq Let_def
      recover_items_def split: option.split)

lemma stream_interceptor_result:
  assumes "m = SetMdWithB3 (te_md E) (case FromIncomingContext (te_md E) ctx of None \<Rightarrow> [] | Some m \<Rightarrow> m)
               (Some (Context_of (te_tracer E) (server_span E ctx FullMethod)))"
    and "shandler (SetTrailer m (SetHeader m w)) = (sr, w'')" and "\<And>m. sr \<noteq> Exit m"
  shows "\<exists>items. JaegerGrpcStreamServerInterceptor E A stack ctx FullMethod SetHeader SetTrailer shandler w =
      (Ret (visible_error A sr, items @ [Finish]), w'') \<and> Finish \<notin> set items \<and> SetError \<notin> set items"
  using assms(2,3)
  by (cases sr)
    (auto simp: JaegerGrpcStreamServerInterceptor_def assms(1) visible_error_def error_msg_item_eq Let_def
      recover_items_def split: option.split)

text \<open>
  Server interceptors: whatever the handler does short of leaving the process, a response and an error
  are returned and the span is finished last. The unary interceptor returns the handler's response and the
  same error as the client interceptor would; a span has the error mark exactly when an error is
  returned. The stream interceptor sends the span's B3 metadata before the handler runs, returns the
  same error and never marks one.
\<close>

lemma server_interceptors_error:
  assumes "handler (ContextWithSpan (te_tracer E) ctx (server_span E ctx FullMethod)) w = (r, w')"
    and "\<And>m. r \<noteq> Exit m"
    and "m = SetMdWithB3 (te_md E) (case FromIncomingContext (te_md E) ctx of None \<Rightarrow> [] | Some m \<Rightarrow> m)
               (Some (Context_of (te_tracer E) (server_span E ctx FullMethod)))"
    and "shandler (SetTrailer m (SetHeader m w)) = (sr, w'')" and "\<And>m. sr \<noteq> Exit m"
  shows "(\<exists>items. JaegerGrpcUnaryServerInterceptor E A stack ctx FullMethod params handler w =
      (Ret (case r of Ret (resp, _) \<Rightarrow> resp | _ \<Rightarrow> None,
            visible_error A (go_map snd r), items @ [Finish]), w') \<and> Finish \<notin> set items \<and>
      (SetError \<in> set items \<longleftrightarrow> visible_error A (go_map snd r) \<noteq> None)) \<and>
    (\<exists>items. JaegerGrpcStreamServerInterceptor E A stack ctx FullMethod SetHeader SetTrailer shandler w =
      (Ret (visible_error A sr, items @ [Finish]), w'') \<and> Finish \<notin> set items \<and> SetError \<notin> set items)"
  using unary_interceptor_result[where handler = handler, OF assms(1,2)]
    stream_interceptor_result[where shandler = shandler and w = w and SetHeader = SetHeader and SetTrailer = SetTrailer,
      OF assms(3,4,5)] by blast

lemma server_interceptors_error_witness:
  "\<exists>items. JaegerGrpcUnaryServerInterceptor example_trace_env example_err_api ''stack'' (None, None) ''m'' ''{}''
      (\<lambda>c w. (Panic NilDeref, w)) (0 :: nat) = (Ret (None :: nat option, Some panic_error, items @ [Finish]), 0)"
  using server_interceptors_error[where handler = "\<lambda>c w. (Panic NilDeref, w)" and E = example_trace_env
      and ctx = "(None, None)" and FullMethod = "''m''" and w = "0 :: nat" and w' = 0
      and r = "Panic NilDeref :: (nat option \<times> gerr option) go" and shandler = "\<lambda>w. (Ret None, w)"
      and SetTrailer = "\<lambda>m w. w" and SetHeader = "\<lambda>m w. w" and sr = "Ret None" and w'' = 0
      and A = example_err_api and stack = "''stack''" and params = "''{}''", OF _ _ refl]
  by (auto simp: visible_error_def)

lemma http_interceptor_result:
  assumes "Next (http_context E ctx req) h = (r, h')" and "\<And>m. r \<noteq> Exit m"
    and "final = (if r = Ret () then h' else gin_JSON G 590 (take 800 stack) h')"
  shows "\<exists>items. JaegerHTTPServerInterceptor E G stack ctx req Next h =
      (Ret (items @ [SetTagInt ''http.status_code'' (gin_Status G final), Finish]), final) \<and>
    (SetError \<in> set items \<longleftrightarrow> r \<noteq> Ret () \<or> gin_Status G final \<noteq> 200) \<and>
    (gin_body_of G final = None \<longrightarrow> (\<forall>b. LogFields ''err_msg'' b \<notin> set items))"
proof (cases r)
  case (Ret u)
  then show ?thesis using assms
    by (cases "gin_body_of G h'") (auto simp: JaegerHTTPServerInterceptor_def http_finish_def Let_def)
next
  case (Panic p)
  then show ?thesis using assms
    by (cases "gin_body_of G final")
      (auto simp: JaegerHTTPServerInterceptor_def http_finish_def Let_def PANIC_ERR_CODE_def)
qed (use assms in simp)

text \<open>
  The HTTP interceptor returns whenever the rest of the chain does not leave the process: the status it
  tags is the writer's final one, a panic is answered with 590 and the stack cut to 800 bytes, and the error
  mark is set exactly when the chain panicked or the status is not 200. No \<open>err_msg\<close> is logged unless
  the writer is a \<open>responseBodyWriter\<close>.
\<close>

lemma http_interceptor_reports:
  assumes "Next (http_context E ctx req) h = (r, h')" and "\<And>m. r \<noteq> Exit m"
    and "final = (if r = Ret () then h' else gin_JSON G 590 (take 800 stack) h')"
  shows "\<exists>items. JaegerHTTPServerInterceptor E G stack ctx req Next h =
      (Ret (items @ [SetTagInt ''http.status_code'' (gin_Status G final), Finish]), final) \<and>
    (SetError \<in> set items \<longleftrightarrow> r \<noteq> Ret () \<or> gin_Status G final \<noteq> 200) \<and>
    (gin_body_of G final = None \<longrightarrow> (\<forall>b. LogFields ''err_msg'' b \<notin> set items))"
  using assms by (rule http_interceptor_result)

definition example_gin :: "int gin_api" where
  "example_gin = \<lparr>gin_Status = (\<lambda>h. h), gin_JSON = (\<lambda>c s h. c), gin_body_of = (\<lambda>h. None)\<rparr>"

definition example_request :: http_request where
  "example_request = \<lparr>hr_URI = ''/x'', hr_Method = ''GET'', hr_Proto = ''HTTP/1.1'', hr_Header = [],
     hr_KVParam = [], hr_BodyParam = []\<rparr>"

lemma http_interceptor_reports_witness:
  "\<exists>items. JaegerHTTPServerInterceptor example_trace_env example_gin ''stack'' (None, None) example_request
      (\<lambda>c h. (Panic NilDeref, h)) 200 =
     (Ret (items @ [SetTagInt ''http.status_code'' 590, Finish]), 590) \<and> SetError \<in> set items"
  using http_interceptor_reports[of "\<lambda>c h. (Panic NilDeref, h)" example_trace_env "(None, None)" example_request
      200 "Panic NilDeref" 200 590 example_gin "''stack''"]
  by (auto simp: example_gin_def)

end
