(* ===== verification/Gateway.thy ===== *)
theory Gateway
  imports GrpcClient Interceptors
begin

text \<open>
  The HTTP gateway: client creation by interface name (\<open>proto/pb/grpc-conn-client.go\<close>), the routes of the
  common service (\<open>proto/pb/extra.pb.gw.go\<close>), the registered routes and the middlewares of
  \<open>panda-grpc-gw/main.go\<close>, and the two callers of created clients, \<open>SayHello\<close> of \<open>panda-auth\<close> and
  \<open>handleTest\<close> of \<open>panda-account\<close>.

  The response writer is that of \<open>net/http\<close>: the headers a client sees are those present when the status is
  written, which the first \<open>Write\<close> does. The gateway runtime's \<open>AnnotateContext\<close>, \<open>HTTPError\<close> and response
  forwarding, the Kubernetes proxy and the gRPC calls are parameters; cancelling contexts, logging and
  serving of the static assets are not modelled.
\<close>

section \<open>Creating clients\<close>

datatype 'conn grpc_client =
    PandaAccountClient 'conn
  | PandaAuthClient 'conn
  | CommonServiceClient 'conn

text \<open>The client interface of the package that a generated client implements.\<close>

primrec implements :: "'conn grpc_client \<Rightarrow> string" where
  "implements (PandaAccountClient c) = ''PandaAccountClient''"
| "implements (PandaAuthClient c) = ''PandaAuthClient''"
| "implements (CommonServiceClient c) = ''CommonServiceClient''"

text \<open>\<open>T\<close> is the name of the type argument.\<close>

definition CreateClient ::
    "('w, 'conn, 'cfg, 'cl) rpc_env \<Rightarrow> unicode_tables \<Rightarrow> string \<Rightarrow> ('w, 'conn, 'cfg, 'cl) rpc_state \<Rightarrow>
     ((gerr + 'conn grpc_client option) \<times> ('w, 'conn, 'cfg, 'cl) rpc_state) go" where
  "CreateClient X U T s =
     (let name = CamelToKebabCase U (TrimSuffix T ''Client'');
          make = (\<lambda>new. go_map (\<lambda>(r, s). (case r of Inl err \<Rightarrow> Inl err | Inr conn \<Rightarrow> Inr (Some (new conn)), s))
                          (GetConn X name s))
      in if name = ''panda-account'' then make PandaAccountClient
         else if name = ''panda-auth'' then make PandaAuthClient
         else if name = ''panda-export'' then make CommonServiceClient
         else Ret (Inr None, s))"

definition CreateClientWrapper ::
    "('w, 'conn, 'cfg, 'cl) rpc_env \<Rightarrow> unicode_tables \<Rightarrow> string \<Rightarrow> ('w, 'conn, 'cfg, 'cl) rpc_state \<Rightarrow>
     ('conn grpc_client option \<times> ('w, 'conn, 'cfg, 'cl) rpc_state) go" where
  "CreateClientWrapper X U T s =
     go_map (\<lambda>(tmp, s).
       (case tmp of
          Inr (Some cc) \<Rightarrow> if implements cc = T then Some cc else None
        | _ \<Rightarrow> None, s))
     (CreateClient X U T s)"

lemma kebab_names:
  "CamelToKebabCase U (TrimSuffix ''PandaAccountClient'' ''Client'') = ''panda-account''"
  "CamelToKebabCase U (TrimSuffix ''PandaAuthClient'' ''Client'') = ''panda-auth''"
  "CamelToKebabCase U (TrimSuffix ''CommonServiceClient'' ''Client'') = ''common-service''"
proof -
  have "TrimSuffix ''PandaAccountClient'' ''Client'' = ''PandaAccount''"
    "TrimSuffix ''PandaAuthClient'' ''Client'' = ''PandaAuth''"
    "TrimSuffix ''CommonServiceClient'' ''Client'' = ''CommonService''"
    using TrimSuffix_append[of "''PandaAccount''" "''Client''"] TrimSuffix_append[of "''PandaAuth''" "''Client''"]
      TrimSuffix_append[of "''CommonService''" "''Client''"] by simp_all
  then show "CamelToKebabCase U (TrimSuffix ''PandaAccountClient'' ''Client'') = ''panda-account''"
    "CamelToKebabCase U (TrimSuffix ''PandaAuthClient'' ''Client'') = ''panda-auth''"
    "CamelToKebabCase U (TrimSuffix ''CommonServiceClient'' ''Client'') = ''common-service''"
    by (simp_all add: CamelToKebabCase_examples)
qed

text \<open>
  A client is made for the two services of the package, over the connection of \<open>GetConn\<close>, and for the
  common service never: no service is called \<open>common-service\<close>.
\<close>

lemma CreateClientWrapper_account:
  "CreateClientWrapper X U ''PandaAccountClient'' s =
     go_map (\<lambda>(r, s). (case r of Inl e \<Rightarrow> None | Inr c \<Rightarrow> Some (PandaAccountClient c), s)) (GetConn X ''panda-account'' s)"
  by (cases "GetConn X ''panda-account'' s")
    (auto simp: CreateClientWrapper_def CreateClient_def kebab_names split: sum.splits)

lemma CreateClientWrapper_auth:
  "CreateClientWrapper X U ''PandaAuthClient'' s =
     go_map (\<lambda>(r, s). (case r of Inl e \<Rightarrow> None | Inr c \<Rightarrow> Some (PandaAuthClient c), s)) (GetConn X ''panda-auth'' s)"
  by (cases "GetConn X ''panda-auth'' s")
    (auto simp: CreateClientWrapper_def CreateClient_def kebab_names split: sum.splits)

lemma CreateClientWrapper_common:
  "CreateClientWrapper X U ''CommonServiceClient'' s = Ret (None, s)"
  by (simp add: CreateClientWrapper_def CreateClient_def kebab_names)

section \<open>Callers of created clients\<close>

text \<open>
  Both handlers open a span first, mark it, and make the call in its context; the client is looked up in the
  handler's own context. \<open>call\<close> is the remote call with its context and its request's name: an error or the
  reply's text. It runs through the client's interceptors, so it may change the connections, or leave the process.
\<close>

type_synonym ('w, 'conn, 'cfg, 'cl, 'ctx) remote_call =
  "'ctx \<Rightarrow> 'conn \<Rightarrow> string \<Rightarrow> ('w, 'conn, 'cfg, 'cl) rpc_state \<Rightarrow>
   ((gerr + string) \<times> ('w, 'conn, 'cfg, 'cl) rpc_state) go"

definition demo_span :: "('ctx, 'span) trace_env \<Rightarrow> 'ctx \<Rightarrow> string \<Rightarrow> string \<Rightarrow> 'ctx \<times> span_item list" where
  "demo_span E ctx name event =
     (let (ctxNew, span) = StartSpanWrapper (te_md E) (te_U E) (te_tracer E) ctx name
      in (ctxNew, [SetTag ''custom-tag'' ''hahahahhahhahahahahha'', LogFields ''event'' event, Finish]))"

definition SayHello ::
    "('w, 'conn, 'cfg, 'cl) rpc_env \<Rightarrow> unicode_tables \<Rightarrow> ('ctx, 'span) trace_env \<Rightarrow>
     ('w, 'conn, 'cfg, 'cl, 'ctx) remote_call \<Rightarrow> 'ctx \<Rightarrow> ('w, 'conn, 'cfg, 'cl) rpc_state \<Rightarrow>
     ((string \<times> gerr option) \<times> span_item list \<times> ('w, 'conn, 'cfg, 'cl) rpc_state) go" where
  "SayHello X U E call ctx s =
     (let (ctxNew, items) = demo_span E ctx ''ToServerCallSayHello'' ''ToServerCallSayHello handling grpc request'' in
      go_bind (CreateClientWrapper X U ''PandaAccountClient'' s) (\<lambda>(cc, s).
        case cc of
          Some (PandaAccountClient conn) \<Rightarrow>
            go_map (\<lambda>(r, s). ((case r of Inl err \<Rightarrow> err_text (re_fmt_status X) err | Inr hello \<Rightarrow> hello, None), items, s))
              (call ctxNew conn ''123231'' s)
        | _ \<Rightarrow> Ret ((''lgxsdjkl'', None), items, s)))"

text \<open>
  The JSON objects that the handlers of \<open>panda-account\<close> write, one for each \<open>c.JSON\<close>: status, key and value. A
  value is a text, or the message \<open>*pb.HelloResponse\<close> with its one field.
\<close>

datatype test_json = ReplyJson string | TextJson string

definition handleTest ::
    "('w, 'conn, 'cfg, 'cl) rpc_env \<Rightarrow> unicode_tables \<Rightarrow> ('ctx, 'span) trace_env \<Rightarrow>
     ('w, 'conn, 'cfg, 'cl, 'ctx) remote_call \<Rightarrow> 'ctx \<Rightarrow> ('w, 'conn, 'cfg, 'cl) rpc_state \<Rightarrow>
     ((int \<times> string \<times> test_json) list \<times> span_item list \<times> ('w, 'conn, 'cfg, 'cl) rpc_state) go" where
  "handleTest X U E call ctx s =
     (let (ctxNew, items) = demo_span E ctx ''handleGetTest'' ''handling HTTP request'' in
      go_bind (CreateClientWrapper X U ''PandaAuthClient'' s) (\<lambda>(cc, s).
        case cc of
          Some (PandaAuthClient conn) \<Rightarrow>
            go_map (\<lambda>(r, s).
              (case r of
                 Inl err \<Rightarrow> []
               | Inr hello \<Rightarrow> [(200, ''message'', ReplyJson hello), (200, ''message'', TextJson ''Hello, World!'')], items, s))
              (call ctxNew conn ''11'' s)
        | _ \<Rightarrow> Ret ([(200, ''message'', TextJson ''Hello, World!'')], items, s)))"

lemma SayHello_no_error:
  "SayHello X U E call ctx s = Ret ((reply, err), items, s') \<Longrightarrow> err = None"
  by (cases "GetConn X ''panda-account'' s")
    (auto simp: SayHello_def CreateClientWrapper_account go_simps split: sum.splits prod.splits, metis sum.exhaust)

lemma handleTest_replies:
  "handleTest X U E call ctx s = Ret (rs, items, s') \<Longrightarrow> length rs \<le> 2 \<and> (\<forall>r \<in> set rs. fst r = 200)"
  by (cases "GetConn X ''panda-auth'' s")
    (auto simp: handleTest_def CreateClientWrapper_auth go_simps sum.case_eq_if split: if_splits prod.splits)

section \<open>The response writer\<close>

record http_writer =
  hw_headers :: md
  hw_status :: "(int \<times> md) option"     \<comment> \<open>status and headers, once they are written\<close>
  hw_body :: string

definition hw_WriteHeader :: "int \<Rightarrow> http_writer \<Rightarrow> http_writer" where
  "hw_WriteHeader code w =
     (case hw_status w of None \<Rightarrow> w\<lparr>hw_status := Some (code, hw_headers w)\<rparr> | Some x \<Rightarrow> w)"

definition hw_Write :: "string \<Rightarrow> http_writer \<Rightarrow> http_writer" where
  "hw_Write data w = (let w = hw_WriteHeader 200 w in w\<lparr>hw_body := hw_body w @ data\<rparr>)"

text \<open>
  \<open>Add\<close> of an \<open>http.Header\<close> writes the key in its canonical form, the first letter and every letter after a hyphen in
  upper case, the others in lower case; a key with a byte that no header name has stays as it is.
\<close>

definition header_byte :: "char \<Rightarrow> bool" where
  "header_byte c \<longleftrightarrow> c \<in> set ''!#$%&*+-.^_|~'' \<or> of_char c \<in> {0x27, 0x60 :: nat} \<or> of_char c \<in> {48..57 :: nat} \<or>
     of_char c \<in> {65..90 :: nat} \<or> of_char c \<in> {97..122 :: nat}"

primrec canonical_letters :: "bool \<Rightarrow> string \<Rightarrow> string" where
  "canonical_letters upper [] = []"
| "canonical_letters upper (c # cs) =
     (let n = of_char c :: nat in
      if upper \<and> 97 \<le> n \<and> n \<le> 122 then char_of (n - 32)
      else if \<not> upper \<and> 65 \<le> n \<and> n \<le> 90 then char_of (n + 32) else c)
     # canonical_letters (c = CHR ''-'') cs"

definition CanonicalHeaderKey :: "string \<Rightarrow> string" where
  "CanonicalHeaderKey key = (if list_all header_byte key then canonical_letters True key else key)"

definition header_Add :: "string \<Rightarrow> string \<Rightarrow> http_writer \<Rightarrow> http_writer" where
  "header_Add key v w =
     (let key = CanonicalHeaderKey key in
      w\<lparr>hw_headers := AList.update key ((case map_of (hw_headers w) key of None \<Rightarrow> [] | Some vs \<Rightarrow> vs) @ [v]) (hw_headers w)\<rparr>)"

lemma canonical_content_type: "CanonicalHeaderKey ''content-type'' = ''Content-Type''"
  by code_simp

fun add_headers :: "md \<Rightarrow> http_writer \<Rightarrow> http_writer" where
  "add_headers [] w = w"
| "add_headers ((key, vals) # m) w = add_headers m (fold (header_Add key) vals w)"

lemma add_headers_sent [simp]:
  "hw_status (add_headers m w) = hw_status w" "hw_body (add_headers m w) = hw_body w"
proof -
  have f: "hw_status (fold (header_Add k) vs w) = hw_status w \<and> hw_body (fold (header_Add k) vs w) = hw_body w" for k vs w
    by (induction vs arbitrary: w) (simp_all add: header_Add_def Let_def)
  show "hw_status (add_headers m w) = hw_status w" "hw_body (add_headers m w) = hw_body w"
    by (induction m w rule: add_headers.induct) (simp_all add: f)
qed

text \<open>
  The writer of the HTTP interceptor's package that keeps a copy of the body. The interceptor looks for it
  but nothing installs it.
\<close>

record responseBodyWriter =
  rb_inner :: http_writer
  rb_body :: string

definition rb_Write :: "string \<Rightarrow> responseBodyWriter \<Rightarrow> responseBodyWriter" where
  "rb_Write s r = r\<lparr>rb_body := rb_body r @ s, rb_inner := hw_Write s (rb_inner r)\<rparr>"

definition rb_WriteString :: "string \<Rightarrow> responseBodyWriter \<Rightarrow> responseBodyWriter" where
  "rb_WriteString s r = r\<lparr>rb_body := rb_body r @ s, rb_inner := hw_Write s (rb_inner r)\<rparr>"

text \<open>The copy stays equal to what has been written.\<close>

lemma rb_copy:
  assumes "rb_body r = hw_body (rb_inner r)"
  shows "rb_body (rb_Write s r) = hw_body (rb_inner (rb_Write s r))"
    and "rb_body (rb_WriteString s r) = hw_body (rb_inner (rb_WriteString s r))"
  using assms by (simp_all add: rb_Write_def rb_WriteString_def hw_Write_def hw_WriteHeader_def Let_def split: option.split)

section \<open>The routes of the common service\<close>

record gw_runtime =
  gr_AnnotateContext :: "gerr option"
  gr_HTTPError :: "gerr \<Rightarrow> http_writer \<Rightarrow> http_writer"

record 'st pprof_call =
  pc_read_body :: "gerr option"                \<comment> \<open>\<open>IOReaderFactory(req.Body)\<close>\<close>
  pc_decode :: "gerr option"                   \<comment> \<open>decoding the request\<close>
  pc_decode_EOF :: bool                        \<comment> \<open>the decoding error is \<open>io.EOF\<close>\<close>
  pc_DownloadPprofFile :: "gerr + 'st"
  pc_Header :: "'st \<Rightarrow> gerr + md"
  pc_RecvMsg :: "'st \<Rightarrow> gerr + string"

definition request_SetLogLevel ::
    "(string \<Rightarrow> gerr + 'r) \<Rightarrow> (string \<rightharpoonup> string) \<Rightarrow> gerr + 'r" where
  "request_SetLogLevel client pathParams =
     (case pathParams ''level'' of
        None \<Rightarrow> Inl (StatusErr 3 ''missing parameter level'')
      | Some val \<Rightarrow> client val)"

text \<open>The text of a status made with \<open>"%v"\<close> is the error's text.\<close>

definition request_DownloadPprofFile :: "err_api \<Rightarrow> 'st pprof_call \<Rightarrow> 'st option \<times> md \<times> gerr option" where
  "request_DownloadPprofFile A C =
     (case pc_read_body C of
        Some berr \<Rightarrow> (None, [], Some (StatusErr 3 (err_text (ea_fmt_status A) berr)))
      | None \<Rightarrow>
         (case (if pc_decode_EOF C then None else pc_decode C) of
            Some err \<Rightarrow> (None, [], Some (StatusErr 3 (err_text (ea_fmt_status A) err)))
          | None \<Rightarrow>
              (case pc_DownloadPprofFile C of
                 Inl err \<Rightarrow> (None, [], Some err)
               | Inr stream \<Rightarrow> (case pc_Header C stream of
                                 Inl err \<Rightarrow> (None, [], Some err) | Inr header \<Rightarrow> (Some stream, header, None)))))"

definition level_route ::
    "gw_runtime \<Rightarrow> (gerr + 'r) \<Rightarrow> ('r \<Rightarrow> http_writer \<Rightarrow> http_writer) \<Rightarrow> http_writer \<Rightarrow> http_writer" where
  "level_route R resp forward w =
     (case gr_AnnotateContext R of
        Some err \<Rightarrow> gr_HTTPError R err w
      | None \<Rightarrow> (case resp of Inl err \<Rightarrow> gr_HTTPError R err w | Inr r \<Rightarrow> forward r w))"

text \<open>
  The handler of \<open>download-pprof\<close>. It does not look at the error of its request: \<open>resp\<close> is then a nil
  interface. \<open>write_err\<close> is the error of writing to the connection.
\<close>

definition download_pprof_route ::
    "gw_runtime \<Rightarrow> err_api \<Rightarrow> 'st pprof_call \<Rightarrow> gerr option \<Rightarrow> http_writer \<Rightarrow> unit go \<times> http_writer" where
  "download_pprof_route R A C write_err w =
     (case gr_AnnotateContext R of
        Some err \<Rightarrow> (Ret (), gr_HTTPError R err w)
      | None \<Rightarrow>
         (case request_DownloadPprofFile A C of
            (None, header, err) \<Rightarrow> (Panic NilDeref, w)
          | (Some resp, header, err) \<Rightarrow>
             (case pc_RecvMsg C resp of
                Inl err \<Rightarrow> (Ret (), gr_HTTPError R err w)
              | Inr data \<Rightarrow>
                  let w = hw_Write data w in
                  (case write_err of
                     Some err \<Rightarrow> (Ret (), gr_HTTPError R err w)
                   | None \<Rightarrow> (Ret (), hw_WriteHeader 200 (add_headers header w))))))"

lemma request_error_no_stream:
  "request_DownloadPprofFile A C = (resp, header, err) \<Longrightarrow> resp = None \<longleftrightarrow> err \<noteq> None"
  by (auto simp: request_DownloadPprofFile_def split: option.splits sum.splits if_splits)

text \<open>
  The route \<open>download-pprof\<close> of the gateway, on a fresh response: an error of the gRPC request makes it
  panic; otherwise, when the archive arrives and is written, the response has status 200 and the archive as
  its body, and none of the headers that the server put on the stream: they are added to the
  response after its headers have been written.
\<close>

lemma download_route_outcome:
  assumes "gr_AnnotateContext R = None" and "hw_status w = None"
    and "request_DownloadPprofFile A C = (resp, header, err)"
  shows "(err \<noteq> None \<longrightarrow> download_pprof_route R A C write_err w = (Panic NilDeref, w)) \<and>
    (\<forall>stream data. resp = Some stream \<longrightarrow> pc_RecvMsg C stream = Inr data \<longrightarrow> write_err = None \<longrightarrow>
       (\<exists>w'. download_pprof_route R A C write_err w = (Ret (), w') \<and>
          hw_status w' = Some (200, hw_headers w) \<and> hw_body w' = hw_body w @ data))"
  using assms request_error_no_stream[OF assms(3)]
  by (auto simp: download_pprof_route_def hw_Write_def hw_WriteHeader_def Let_def)

lemma download_route_outcome_witness:
  "\<exists>w'. download_pprof_route \<lparr>gr_AnnotateContext = None, gr_HTTPError = (\<lambda>e w. w)\<rparr> example_err_api
     \<lparr>pc_read_body = None, pc_decode = None, pc_decode_EOF = False, pc_DownloadPprofFile = Inr (0::nat),
      pc_Header = (\<lambda>_. Inr [(''content-type'', [''application/zip''])]), pc_RecvMsg = (\<lambda>_. Inr ''zip'')\<rparr> None
     \<lparr>hw_headers = [], hw_status = None, hw_body = []\<rparr> = (Ret (), w') \<and>
   hw_status w' = Some (200, []) \<and> hw_body w' = ''zip''"
  using download_route_outcome[where R = "\<lparr>gr_AnnotateContext = None, gr_HTTPError = (\<lambda>e w. w)\<rparr>" and
      w = "\<lparr>hw_headers = [], hw_status = None, hw_body = []\<rparr>" and A = example_err_api and
      C = "\<lparr>pc_read_body = None, pc_decode = None, pc_decode_EOF = False, pc_DownloadPprofFile = Inr (0::nat),
        pc_Header = (\<lambda>_. Inr [(''content-type'', [''application/zip''])]), pc_RecvMsg = (\<lambda>_. Inr ''zip'')\<rparr>" and
      resp = "Some 0" and header = "[(''content-type'', [''application/zip''])]" and err = None and write_err = None]
  by (simp add: request_DownloadPprofFile_def)

section \<open>Registering the routes\<close>

text \<open>Method, pattern and connection of a route, in the order of registration.\<close>

type_synonym 'conn gw_route = "string \<times> string \<times> 'conn"

definition RegisterCommonServiceHandlerClientWithServiceName ::
    "'conn \<Rightarrow> string \<Rightarrow> 'conn gw_route list \<Rightarrow> gerr option \<times> 'conn gw_route list" where
  "RegisterCommonServiceHandlerClientWithServiceName client serviceName mux =
     (if serviceName = []
      then (Some (PlainErr ''[RegisterCommonServiceHandlerClientWithServiceName] serviceName is empty''), mux)
      else (None, mux @ [(''GET'', ''/v1/'' @ serviceName @ ''/level/{level}'', client),
                         (''POST'', ''/v1/'' @ serviceName @ ''/download-pprof'', client)]))"

definition RegisterCommonServiceHandlerWithServiceName ::
    "'conn \<Rightarrow> string \<Rightarrow> 'conn gw_route list \<Rightarrow> gerr option \<times> 'conn gw_route list" where
  "RegisterCommonServiceHandlerWithServiceName conn serviceName mux =
     RegisterCommonServiceHandlerClientWithServiceName conn serviceName mux"

definition RegisterPandaAccountHandler :: "'conn \<Rightarrow> 'conn gw_route list \<Rightarrow> 'conn gw_route list" where
  "RegisterPandaAccountHandler conn mux =
     mux @ [(''POST'', ''/v1/panda-account/say-hello2demo-grpc_client_wrapper'', conn),
            (''POST'', ''/v1/upload'', conn), (''GET'', ''/v1/download/{file_id}'', conn)]"

definition RegisterPandaAuthHandler :: "'conn \<Rightarrow> 'conn gw_route list \<Rightarrow> 'conn gw_route list" where
  "RegisterPandaAuthHandler conn mux = mux @ [(''POST'', ''/v1/panda-auth/say-hello'', conn)]"

text \<open>One of the three dials of \<open>main\<close>: a service that cannot be dialled is logged and left out.\<close>

definition dial_and_register ::
    "('w, 'conn, 'cfg, 'cl) rpc_env \<Rightarrow> string \<Rightarrow> ('conn \<Rightarrow> 'conn gw_route list \<Rightarrow> 'conn gw_route list) \<Rightarrow>
     'conn gw_route list \<times> ('w, 'conn, 'cfg, 'cl) rpc_state \<Rightarrow>
     ('conn gw_route list \<times> ('w, 'conn, 'cfg, 'cl) rpc_state) go" where
  "dial_and_register X svc register =
     (\<lambda>(mux, s). go_map (\<lambda>(r, s).
        (case r of
           Inl err \<Rightarrow> mux
         | Inr conn \<Rightarrow> snd (RegisterCommonServiceHandlerWithServiceName conn svc (register conn mux)), s))
        (DialWrapper X svc s))"

definition register_gateway ::
    "('w, 'conn, 'cfg, 'cl) rpc_env \<Rightarrow> ('w, 'conn, 'cfg, 'cl) rpc_state \<Rightarrow>
     ('conn gw_route list \<times> ('w, 'conn, 'cfg, 'cl) rpc_state) go" where
  "register_gateway X s =
     go_bind (dial_and_register X ''panda-account'' RegisterPandaAccountHandler ([], s)) (\<lambda>g.
     go_bind (dial_and_register X ''panda-auth'' RegisterPandaAuthHandler g) (\<lambda>g.
     dial_and_register X ''panda-export'' (\<lambda>conn mux. mux) g))"

lemma dial_and_register_appends:
  "dial_and_register X svc register (mux, s) = Ret (mux', s') \<Longrightarrow> (\<And>conn m. \<exists>rs. register conn m = m @ rs) \<Longrightarrow>
    \<exists>rs. mux' = mux @ rs"
proof -
  assume d: "dial_and_register X svc register (mux, s) = Ret (mux', s')" and r: "\<And>conn m. \<exists>rs. register conn m = m @ rs"
  obtain x where "DialWrapper X svc s = Ret (x, s')" and x: "mux' = (case x of Inl err \<Rightarrow> mux
      | Inr conn \<Rightarrow> snd (RegisterCommonServiceHandlerWithServiceName conn svc (register conn mux)))"
    using d by (auto simp: dial_and_register_def go_map_Ret_iff)
  show ?thesis
  proof (cases x)
    case (Inr conn)
    obtain rs where "register conn mux = mux @ rs" using r by blast
    with x Inr show ?thesis
      by (simp add: RegisterCommonServiceHandlerWithServiceName_def RegisterCommonServiceHandlerClientWithServiceName_def)
  qed (simp add: x)
qed

section \<open>Middlewares and the other handlers\<close>

definition prefix2remove :: "string list" where
  "prefix2remove = [''/panda-gin-swagger'', ''/panda-grpc-gw'']"

definition RemovePrefix :: "string \<Rightarrow> string" where
  "RemovePrefix path = fold (\<lambda>prefix path. Replace1 path prefix []) prefix2remove path"

lemma RemovePrefix_grpc_gw:
  assumes "\<not> sublist ''/panda-gin-swagger'' (''/panda-grpc-gw'' @ path)"
  shows "RemovePrefix (''/panda-grpc-gw'' @ path) = path"
proof -
  have "RemovePrefix (''/panda-grpc-gw'' @ path) = Replace1 (''/panda-grpc-gw'' @ path) ''/panda-grpc-gw'' []"
    unfolding RemovePrefix_def prefix2remove_def fold_Cons fold_Nil o_apply id_apply Replace1_absent[OF assms] ..
  then show ?thesis by (simp only: Replace1_prefix[of "''/panda-grpc-gw''" path "[]"] list.distinct append_Nil not_False_eq_True)
qed

text \<open>What is removed need not be a prefix.\<close>

lemma RemovePrefix_inside: "RemovePrefix ''/v1/download/panda-grpc-gw.log'' = ''/v1/download.log''"
  by (simp add: RemovePrefix_def prefix2remove_def HasPrefix_def)

definition corsMiddleware :: "string \<Rightarrow> md \<times> int option" where
  "corsMiddleware method =
     ([(''Access-Control-Allow-Origin'', [''*'']),
       (''Access-Control-Allow-Methods'', [''GET, POST, OPTIONS'']),
       (''Access-Control-Allow-Headers'',
         [''Origin, Content-Type, Content-Length, Accept-Encoding, X-CSRF-Token, Authorization'']),
       (''Access-Control-Allow-Credentials'', [''true''])],
      if method = ''OPTIONS'' then Some 200 else None)"

text \<open>\<open>path.Clean\<close> and \<open>path.Join\<close> of the standard library, by elements.\<close>

fun clean_elements :: "bool \<Rightarrow> string list \<Rightarrow> string list \<Rightarrow> string list" where
  "clean_elements rooted out [] = out"
| "clean_elements rooted out (e # es) =
     (if e = [] \<or> e = ''.'' then clean_elements rooted out es
      else if e = ''..'' then
        (if out \<noteq> [] \<and> last out \<noteq> ''..'' then clean_elements rooted (butlast out) es
         else if rooted then clean_elements rooted out es
         else clean_elements rooted (out @ [''..'']) es)
      else clean_elements rooted (out @ [e]) es)"

fun join_slash :: "string list \<Rightarrow> string" where
  "join_slash [] = []"
| "join_slash [e] = e"
| "join_slash (e # es) = e @ ''/'' @ join_slash es"

definition path_Clean :: "string \<Rightarrow> string" where
  "path_Clean p =
     (let rooted = HasPrefix p ''/'';
          r = (if rooted then ''/'' else []) @ join_slash (clean_elements rooted [] (split_byte (CHR ''/'') p))
      in if r = [] then ''.'' else r)"

definition path_Join :: "string list \<Rightarrow> string" where
  "path_Join es = (let es = filter (\<lambda>e. e \<noteq> []) es in if es = [] then [] else path_Clean (join_slash es))"

datatype swagger_reply = NotFound | ServeFile string

definition serveSwaggerFile :: "string \<Rightarrow> swagger_reply" where
  "serveSwaggerFile path =
     (if \<not> HasSuffix path ''swagger.json'' then NotFound
      else ServeFile (path_Join [''./proto/'', TrimPrefix path ''/swagger/'']))"

text \<open>
  \<open>serveK8sApi\<close>: an error, or the request's URL with the scheme \<open>http\<close> and the
  host of the configuration, proxied with its transport. The configuration is
  there only after some call of \<open>GetK8sClient\<close>.
\<close>

datatype 'cfg k8s_reply = InternalServerError string | Proxy 'cfg string string

definition serveK8sApi :: "('cfg \<Rightarrow> string) \<Rightarrow> ('cfg, 'cl) k8s_state \<Rightarrow> 'cfg k8s_reply" where
  "serveK8sApi Host st =
     (case GetK8sConfig st of
        Inl err \<Rightarrow> InternalServerError ''Internal Server Error: serveK8sApi rest.InClusterConfig failed''
      | Inr config \<Rightarrow> Proxy config ''http'' (Host config))"

lemma serveK8sApi_before_client:
  "k8s_config st = None \<Longrightarrow>
    serveK8sApi Host st = InternalServerError ''Internal Server Error: serveK8sApi rest.InClusterConfig failed''"
  by (simp add: serveK8sApi_def GetK8sConfig_def)

end
