(* ===== verification/Reflect.thy ===== *)
theory Reflect
  imports Utils
begin

text \<open>
  The reflection-based helpers of \<open>common/utils/utils.go\<close>: \<open>DeepCopyV2\<close>, \<open>changeStu2Map\<close> and
  \<open>MarshWithOutOmitempty\<close>, over a datatype of Go values.

  A value carries the types that the code can observe through \<open>reflect\<close>. A pointer is the address of
  its cell with the cell's content, so two pointers with one address are aliases; cyclic structures
  are not represented (on them the code does not return). A struct field has its name, whether it is
  exported, its \<open>json\<close> tag, its declared type and its value; a nil interface is \<open>VNil\<close>. \<open>VScalar\<close> is
  a value of one of the kinds that \<open>DeepCopyV2\<close> returns as they are (booleans, signed integers and
  floats), \<open>VOther\<close> of a kind it does not know (unsigned integers, channels, functions); 0 is the
  zero value of both. Named string types are not represented.
\<close>

section \<open>Values\<close>

datatype gtype =
    TString | TScalar string | TOther string | TStruct string | TSlice gtype | TArray gtype
  | TMap gtype gtype | TPtr gtype | TIface

datatype gval =
    VNil
  | VStr string
  | VScalar string int
  | VOther string int
  | VStruct string "gfield list"
  | VSlice gtype "gval list"
  | VArray gtype "gval list"
  | VMap gtype gtype "(gval \<times> gval) list"
  | VPtr gtype "(nat \<times> gval) option"
and gfield = Field (f_name: string) (f_exported: bool) (f_tag: string) (f_type: gtype) (f_val: gval)

fun type_of :: "gval \<Rightarrow> gtype" where
  "type_of VNil = TIface"
| "type_of (VStr s) = TString"
| "type_of (VScalar k n) = TScalar k"
| "type_of (VOther k n) = TOther k"
| "type_of (VStruct T fs) = TStruct T"
| "type_of (VSlice t vs) = TSlice t"
| "type_of (VArray t vs) = TArray t"
| "type_of (VMap k v m) = TMap k v"
| "type_of (VPtr t p) = TPtr t"

text \<open>The zero value that \<open>reflect.New\<close> puts into a field that is not set.\<close>

fun zero_of :: "gval \<Rightarrow> gval" and zero_field :: "gfield \<Rightarrow> gfield" where
  "zero_of VNil = VNil"
| "zero_of (VStr s) = VStr []"
| "zero_of (VScalar k n) = VScalar k 0"
| "zero_of (VOther k n) = VOther k 0"
| "zero_of (VStruct T fs) = VStruct T (map zero_field fs)"
| "zero_of (VSlice t vs) = VSlice t []"
| "zero_of (VArray t vs) = VArray t (map zero_of vs)"
| "zero_of (VMap k v m) = VMap k v []"
| "zero_of (VPtr t p) = VPtr t None"
| "zero_field (Field n e tg t v) = Field n e tg t (if t = TIface then VNil else zero_of v)"

definition assignable :: "gtype \<Rightarrow> gval \<Rightarrow> bool" where
  "assignable t v \<longleftrightarrow> t = TIface \<or> type_of v = t"

section \<open>\<open>DeepCopyV2\<close>\<close>

fun is_basic :: "gval \<Rightarrow> bool" where
  "is_basic (VStr s) = True"
| "is_basic (VScalar k n) = True"
| "is_basic v = False"

fun is_ptr :: "gval \<Rightarrow> bool" where
  "is_ptr (VPtr t p) = True"
| "is_ptr v = False"

fun is_struct :: "gval \<Rightarrow> bool" where
  "is_struct (VStruct T fs) = True"
| "is_struct v = False"

text \<open>
  \<open>DeepCopyV2\<close> of a pointer looks at the pointee: basic kinds return the pointer itself, a struct the copy
  of the struct (not a pointer to it), a nil pointer panics in \<open>in.Type()\<close>. The loops over slices and
  maps panic in their first iteration: \<open>out.Field(i)\<close> on a slice, the assertion to
  \<open>reflect.Value\<close> on a map; \<open>MakeSlice\<close> panics for an array.
\<close>

fun DeepCopyV2 :: "gval \<Rightarrow> gval go" and copy_fields :: "gfield list \<Rightarrow> gfield list go" where
  "DeepCopyV2 VNil = Ret VNil"
| "DeepCopyV2 (VStr s) = Ret (VStr s)"
| "DeepCopyV2 (VScalar k n) = Ret (VScalar k n)"
| "DeepCopyV2 (VOther k n) = Ret (VOther k 0)"
| "DeepCopyV2 (VStruct T fs) = go_map (VStruct T) (copy_fields fs)"
| "DeepCopyV2 (VSlice t vs) = (if vs = [] then Ret (VSlice t []) else Panic ReflectFault)"
| "DeepCopyV2 (VArray t vs) = Panic ReflectFault"
| "DeepCopyV2 (VMap k v []) = Ret (VMap k v [])"
| "DeepCopyV2 (VMap k v ((key, val) # kvs)) = go_bind (DeepCopyV2 key) (\<lambda>_. Panic TypeAssertFault)"
| "DeepCopyV2 (VPtr t None) = Panic ReflectFault"
| "DeepCopyV2 (VPtr t (Some (a, u))) =
     (if t = TIface then Ret VNil
      else if is_ptr u then Ret (zero_of u)
      else if is_basic u then Ret (VPtr t (Some (a, u)))
      else DeepCopyV2 u)"
| "copy_fields [] = Ret []"
| "copy_fields (Field n e tg t v # fs) =
     go_bind
       (if e then
          go_bind (DeepCopyV2 v) (\<lambda>val.
            if val = VNil then Ret (zero_field (Field n e tg t v))
            else if assignable t val then Ret (Field n e tg t val)
            else Panic ReflectFault)
        else Ret (zero_field (Field n e tg t v)))
       (\<lambda>f. go_map ((#) f) (copy_fields fs))"

section \<open>\<open>changeStu2Map\<close>\<close>

datatype gdata = DMap "(string \<times> gdata) list" | DSlice "gdata list" | DVal gval

definition parseJSONTag :: "string \<Rightarrow> string list" where
  "parseJSONTag tag = split_byte (CHR '','') tag"

definition json_name :: "string \<Rightarrow> string \<Rightarrow> string" where
  "json_name tag name = (if tag \<noteq> [] then hd (parseJSONTag tag) else name)"

text \<open>
  \<open>Interface()\<close> of an unexported field, \<open>Type()\<close> of a nil pointer's element or of a nil interface, and
  \<open>NumField\<close> of anything but a struct panic.
\<close>

fun changeStu2Map :: "gval \<Rightarrow> gdata go"
  and change_fields :: "gfield list \<Rightarrow> (string \<times> gdata) list \<Rightarrow> gdata go"
  and change_list :: "gval list \<Rightarrow> gdata list go" where
  "changeStu2Map (VStruct T fs) = change_fields fs []"
| "changeStu2Map (VPtr t (Some (a, u))) =
     (if t \<noteq> TIface \<and> is_struct u then changeStu2Map u else Panic ReflectFault)"
| "changeStu2Map v = Panic ReflectFault"
| "change_fields [] data = Ret (DMap data)"
| "change_fields (Field n e tg t v # fs) data =
     (if tg = ''-'' then change_fields fs data
      else
        go_bind
          (if is_struct v \<or> t = TIface then (if e then changeStu2Map v else Panic ReflectFault)
           else
             case v of
               VSlice t' vs \<Rightarrow> if e \<or> vs = [] then go_map DSlice (change_list vs) else Panic ReflectFault
             | _ \<Rightarrow> if e then Ret (DVal v) else Panic ReflectFault)
          (\<lambda>d. change_fields fs (AList.update (json_name tg n) d data)))"
| "change_list [] = Ret []"
| "change_list (v # vs) = go_bind (changeStu2Map v) (\<lambda>d. go_map ((#) d) (change_list vs))"

text \<open>\<open>json.Marshal\<close> is the parameter: of a value, and of the map. The element of a pointer to an interface has the kind \<open>Interface\<close>.\<close>

definition MarshWithOutOmitempty ::
    "(gval \<Rightarrow> gerr + string) \<Rightarrow> (gdata \<Rightarrow> gerr + string) \<Rightarrow> gval \<Rightarrow> (gerr + string) go" where
  "MarshWithOutOmitempty marshal marshal_map v =
     (case v of
        VPtr TIface (Some (a, u)) \<Rightarrow> go_map marshal_map (changeStu2Map v)
      | _ \<Rightarrow>
         (case (case v of VPtr t (Some (a, u)) \<Rightarrow> u | _ \<Rightarrow> v) of
            VStruct T fs \<Rightarrow> go_map marshal_map (changeStu2Map v)
          | VSlice t vs \<Rightarrow> go_map marshal_map (changeStu2Map v)
          | _ \<Rightarrow> Ret (marshal v)))"

section \<open>When a deep copy succeeds\<close>

text \<open>
  \<open>regular\<close>: every field is exported and well typed, with no interface and no kind unknown to the copy.
  \<open>plain\<close>: nothing in the value but basic kinds, pointers to them, empty slices, empty maps and structs.
\<close>

fun regular :: "gval \<Rightarrow> bool" and regular_field :: "gfield \<Rightarrow> bool" where
  "regular VNil = False"
| "regular (VStr s) = True"
| "regular (VScalar k n) = True"
| "regular (VOther k n) = False"
| "regular (VStruct T fs) = list_all regular_field fs"
| "regular (VSlice t vs) = True"
| "regular (VArray t vs) = True"
| "regular (VMap k v m) = True"
| "regular (VPtr t None) = True"
| "regular (VPtr t (Some (a, u))) = (t \<noteq> TIface \<and> type_of u = t \<and> regular u)"
| "regular_field (Field n e tg t v) = (e \<and> t \<noteq> TIface \<and> type_of v = t \<and> regular v)"

fun plain :: "gval \<Rightarrow> bool" and plain_field :: "gfield \<Rightarrow> bool" where
  "plain VNil = True"
| "plain (VStr s) = True"
| "plain (VScalar k n) = True"
| "plain (VOther k n) = False"
| "plain (VStruct T fs) = list_all plain_field fs"
| "plain (VSlice t vs) = (vs = [])"
| "plain (VArray t vs) = False"
| "plain (VMap k v m) = (m = [])"
| "plain (VPtr t None) = False"
| "plain (VPtr t (Some (a, u))) = is_basic u"
| "plain_field (Field n e tg t v) = plain v"

lemma copy_not_exit:
  "DeepCopyV2 v \<noteq> Exit m" "copy_fields fs \<noteq> Exit m"
proof (induction v and fs rule: DeepCopyV2_copy_fields.induct)
  case (5 T fs)
  then show ?case by (cases "copy_fields fs") auto
next
  case (9 k v key val kvs)
  then show ?case by (cases "DeepCopyV2 key") auto
next
  case (13 n e tg t v fs)
  then show ?case by (cases "DeepCopyV2 v"; cases "copy_fields fs") auto
qed auto

lemma copy_cases: "(\<exists>r. DeepCopyV2 v = Ret r) \<or> (\<exists>p. DeepCopyV2 v = Panic p)"
  using copy_not_exit(1) by (cases "DeepCopyV2 v") auto

definition copy_claim :: "gval \<Rightarrow> bool" where
  "copy_claim v \<longleftrightarrow> regular v \<longrightarrow>
     (if plain v then DeepCopyV2 v = Ret v
      else if is_ptr v then (\<exists>p. DeepCopyV2 v = Panic p) \<or>
        (\<exists>r. DeepCopyV2 v = Ret r \<and> r \<noteq> VNil \<and> type_of r \<noteq> type_of v)
      else (\<exists>p. DeepCopyV2 v = Panic p))"

lemma type_of_zero_ptr: "is_ptr u \<Longrightarrow> type_of (zero_of u) = type_of u \<and> zero_of u \<noteq> VNil"
  by (cases u) auto

lemma gtype_ptr_neq [simp]: "TPtr t \<noteq> t" "t \<noteq> TPtr t"
  by (induction t) auto

lemma basic_not_ptr: "is_basic u \<Longrightarrow> \<not> is_ptr u"
  by (cases u) auto

lemma copy_claims:
  "copy_claim v"
  "list_all regular_field fs \<Longrightarrow>
     (if list_all plain_field fs then copy_fields fs = Ret fs else (\<exists>p. copy_fields fs = Panic p))"
proof (induction v and fs rule: DeepCopyV2_copy_fields.induct)
  case (9 k v key val kvs)
  then show ?case using copy_cases[of key] by (auto simp: copy_claim_def)
next
  case (11 t a u)
  show ?case
  proof (cases "t = TIface \<or> is_ptr u \<or> is_basic u")
    case True
    then show ?thesis
      using type_of_zero_ptr[of u] basic_not_ptr[of u] by (cases "is_basic u") (auto simp: copy_claim_def)
  next
    case False
    with 11 have u: "copy_claim u" by simp
    have "type_of u \<noteq> TPtr t'" for t' using False by (cases u) auto
    with False u show ?thesis
      by (auto simp: copy_claim_def split: if_splits)
  qed
next
  case (13 n e tg t v fs)
  show ?case
  proof (cases "regular_field (Field n e tg t v) \<and> list_all regular_field fs")
    case True
    then have v: "copy_claim v" and fs: "if list_all plain_field fs then copy_fields fs = Ret fs
        else (\<exists>p. copy_fields fs = Panic p)" and nn: "v \<noteq> VNil"
      using 13 by auto
    show ?thesis using True v fs nn
      by (auto simp: copy_claim_def assignable_def split: if_splits)
  qed (use 13 in auto)
qed (auto simp: copy_claim_def)

text \<open>
  \<open>DeepCopyV2\<close> of a struct whose fields are all exported, well typed and of the kinds it knows either
  returns exactly that struct or panics; it returns exactly when no field, at any depth of nested
  structs, holds a non-empty slice or map, an array, a nil pointer, or a pointer to anything but a
  basic kind.
\<close>

lemma DeepCopyV2_struct:
  assumes "regular (VStruct T fs)"
  shows "if plain (VStruct T fs) then DeepCopyV2 (VStruct T fs) = Ret (VStruct T fs)
         else (\<exists>p. DeepCopyV2 (VStruct T fs) = Panic p)"
  using copy_claims(1)[of "VStruct T fs", unfolded copy_claim_def, rule_format, OF assms]
  by (simp del: DeepCopyV2.simps plain.simps)

lemma DeepCopyV2_struct_witness:
  "\<exists>p. DeepCopyV2 (VStruct ''T'' [Field ''Name'' True [] TString (VStr ''x''),
      Field ''Tags'' True [] (TSlice TString) (VSlice TString [VStr ''y''])]) = Panic p"
  using DeepCopyV2_struct[of "''T''" "[Field ''Name'' True [] TString (VStr ''x''),
      Field ''Tags'' True [] (TSlice TString) (VSlice TString [VStr ''y''])]"] by simp

end
