(* ===== verification/Desensitize.thy ===== *)
theory Desensitize
  imports Reflect
begin

text \<open>
  \<open>common/utils/desensitization/desensitization.go\<close>: masking of sensitive log fields.

  \<open>findAndTransform\<close> runs on a reflected value, whose addressability decides what may be set: \<open>ad\<close> is
  \<open>CanSet\<close> of the value itself. Its result is the value after the assignments. Cells behind pointers may
  be shared with the value that the caller logged; \<open>store_cells\<close> writes the new contents of such cells
  back into that value. An empty slice or map stands for a nil one in \<open>is_zero\<close>. \<open>proto.Clone\<close>, the test for \<open>proto.Message\<close> and \<open>zap.Any\<close> are parameters.
\<close>

section \<open>The rules\<close>

type_synonym ds_rule = "string list \<times> (string \<Rightarrow> string)"

definition dsRules :: "ds_rule list" where
  "dsRules =
     [([''password'', ''Password''], \<lambda>raw. replicate (length raw) (CHR ''*'')),
      ([''phone'', ''Phone''], \<lambda>raw. MaskPhone raw)]"

definition dsRuleMap :: "string \<rightharpoonup> (string \<Rightarrow> string)" where
  "dsRuleMap = fold (\<lambda>r m. fold (\<lambda>f m. m(f \<mapsto> snd r)) (fst r) m) dsRules Map.empty"

definition apply_rule :: "string \<Rightarrow> string \<Rightarrow> string" where
  "apply_rule name str = (case dsRuleMap name of None \<Rightarrow> str | Some transform \<Rightarrow> transform str)"

section \<open>The traversal\<close>

text \<open>
  \<open>find_direct\<close> is the traversal after \<open>reflect.Indirect\<close>. A value of static type interface has kind
  \<open>Interface\<close> and is left alone. A field is set when it is exported and either behind a pointer or in an
  addressable struct; elements of a slice are always settable.
\<close>

fun find_direct :: "bool \<Rightarrow> gval \<Rightarrow> gval"
  and find_field :: "bool \<Rightarrow> gfield \<Rightarrow> gfield"
  and transform_settable :: "string \<Rightarrow> gval \<Rightarrow> gval"
  and transformSlice :: "gtype \<Rightarrow> gval list \<Rightarrow> gval list" where
  "find_direct ad (VStruct T fs) = VStruct T (map (find_field ad) fs)"
| "find_direct ad (VSlice t vs) = VSlice t (transformSlice t vs)"
| "find_direct ad v = v"
| "find_field ad (Field n e tg t v) =
     (if \<not> e \<or> t = TIface then Field n e tg t v
      else
        case v of
          VPtr t' None \<Rightarrow> Field n e tg t v
        | VPtr t' (Some (a, u)) \<Rightarrow>
            Field n e tg t (if t' = TIface then v else VPtr t' (Some (a, transform_settable n u)))
        | _ \<Rightarrow> Field n e tg t (if ad then transform_settable n v else v))"
| "transform_settable n (VStruct T fs) = VStruct T (map (find_field True) fs)"
| "transform_settable n (VSlice t vs) = VSlice t (transformSlice t vs)"
| "transform_settable n (VStr str) = VStr (apply_rule n str)"
| "transform_settable n v = v"
| "transformSlice t [] = []"
| "transformSlice t (v # vs) =
     (if t = TIface then v
      else
        case v of
          VPtr t' None \<Rightarrow> v
        | VPtr t' (Some (a, u)) \<Rightarrow> if t' = TIface then v else VPtr t' (Some (a, find_direct True u))
        | _ \<Rightarrow> find_direct True v) # transformSlice t vs"

definition findAndTransform :: "gval \<Rightarrow> gval" where
  "findAndTransform v =
     (case v of
        VPtr t None \<Rightarrow> v
      | VPtr t (Some (a, u)) \<Rightarrow> if t = TIface then v else VPtr t (Some (a, find_direct True u))
      | _ \<Rightarrow> find_direct False v)"

section \<open>Logging a value\<close>

fun is_zero :: "gval \<Rightarrow> bool" and is_zero_field :: "gfield \<Rightarrow> bool" where
  "is_zero VNil = True"
| "is_zero (VStr s) = (s = [])"
| "is_zero (VScalar k n) = (n = 0)"
| "is_zero (VOther k n) = (n = 0)"
| "is_zero (VStruct T fs) = list_all is_zero_field fs"
| "is_zero (VSlice t vs) = (vs = [])"
| "is_zero (VArray t vs) = list_all is_zero vs"
| "is_zero (VMap k v m) = (m = [])"
| "is_zero (VPtr t p) = (p = None)"
| "is_zero_field (Field n e tg t v) = (if t = TIface then v = VNil else is_zero v)"

text \<open>The cells of a value, and writing contents into the cells with the same address.\<close>

fun cells :: "gval \<Rightarrow> (nat \<times> gval) list" and field_cells :: "gfield \<Rightarrow> (nat \<times> gval) list" where
  "cells (VStruct T fs) = concat (map field_cells fs)"
| "cells (VSlice t vs) = concat (map cells vs)"
| "cells (VPtr t (Some (a, u))) = (a, u) # cells u"
| "cells v = []"
| "field_cells (Field n e tg t v) = cells v"

fun store_cells :: "(nat \<rightharpoonup> gval) \<Rightarrow> gval \<Rightarrow> gval" and store_field :: "(nat \<rightharpoonup> gval) \<Rightarrow> gfield \<Rightarrow> gfield" where
  "store_cells H (VStruct T fs) = VStruct T (map (store_field H) fs)"
| "store_cells H (VSlice t vs) = VSlice t (map (store_cells H) vs)"
| "store_cells H (VPtr t (Some (a, u))) =
     (case H a of Some w \<Rightarrow> VPtr t (Some (a, w)) | None \<Rightarrow> VPtr t (Some (a, store_cells H u)))"
| "store_cells H v = v"
| "store_field H (Field n e tg t v) = Field n e tg t (store_cells H v)"

record ds_api =
  is_proto :: "gval \<Rightarrow> bool"
  proto_Clone :: "gval \<Rightarrow> gval"

definition desensitization_copy :: "ds_api \<Rightarrow> gval \<Rightarrow> gval option go" where
  "desensitization_copy A val =
     (if val = VNil \<or> is_zero val then Ret None
      else if is_proto A val then Ret (Some (proto_Clone A val))
      else if is_struct (case val of VPtr t (Some (a, u)) \<Rightarrow> if t = TIface then VNil else u | _ \<Rightarrow> val)
           then go_map Some (DeepCopyV2 val)
           else Ret None)"

text \<open>Results: the value to log, and the caller's value afterwards.\<close>

definition desensitization :: "ds_api \<Rightarrow> gval \<Rightarrow> (gval \<times> gval) go" where
  "desensitization A val =
     go_map (\<lambda>copy. case copy of
         None \<Rightarrow> (val, val)
       | Some newVal \<Rightarrow>
           (findAndTransform newVal, store_cells (map_of (cells (findAndTransform newVal))) val))
       (desensitization_copy A val)"

text \<open>A zap field with a key; \<open>ZIface\<close> stands for the reflect and the stringer type.\<close>

datatype zap_field = ZString string string | ZIface string gval | ZOther string nat

definition FilterField :: "ds_api \<Rightarrow> (string \<Rightarrow> gval \<Rightarrow> zap_field) \<Rightarrow> zap_field \<Rightarrow> zap_field go" where
  "FilterField A zap_Any field =
     (case field of
        ZString key s \<Rightarrow>
          Ret (case dsRuleMap key of Some transform \<Rightarrow> ZString key (transform s) | None \<Rightarrow> field)
      | ZIface key v \<Rightarrow>
          if v \<noteq> VNil then go_map (\<lambda>r. zap_Any key (fst r)) (desensitization A v) else Ret field
      | ZOther key n \<Rightarrow> Ret field)"

section \<open>Proto messages are masked\<close>

text \<open>
  The named string fields of a value that a log line would show and the traversal can reach: exported, not
  held by an interface, through structs, pointers and slices.
\<close>

fun strs :: "gval \<Rightarrow> (string \<times> string) list"
  and strs_field :: "gfield \<Rightarrow> (string \<times> string) list"
  and strs_named :: "string \<Rightarrow> gval \<Rightarrow> (string \<times> string) list"
  and strs_elems :: "gtype \<Rightarrow> gval list \<Rightarrow> (string \<times> string) list" where
  "strs (VStruct T fs) = concat (map strs_field fs)"
| "strs (VSlice t vs) = strs_elems t vs"
| "strs v = []"
| "strs_field (Field n e tg t v) =
     (if \<not> e \<or> t = TIface then []
      else
        case v of
          VPtr t' None \<Rightarrow> []
        | VPtr t' (Some (a, u)) \<Rightarrow> if t' = TIface then [] else strs_named n u
        | _ \<Rightarrow> strs_named n v)"
| "strs_named n (VStruct T fs) = concat (map strs_field fs)"
| "strs_named n (VSlice t vs) = strs_elems t vs"
| "strs_named n (VStr s) = [(n, s)]"
| "strs_named n v = []"
| "strs_elems t [] = []"
| "strs_elems t (v # vs) =
     (if t = TIface then []
      else
        case v of
          VPtr t' None \<Rightarrow> []
        | VPtr t' (Some (a, u)) \<Rightarrow> if t' = TIface then [] else strs u
        | _ \<Rightarrow> strs v) @ strs_elems t vs"

definition mask_str :: "string \<times> string \<Rightarrow> string \<times> string" where
  "mask_str = (\<lambda>(n, s). (n, apply_rule n s))"

lemma strs_transform:
  "strs (find_direct True v) = map mask_str (strs v)"
  "strs_field (find_field True f) = map mask_str (strs_field f)"
  "strs_named n (transform_settable n v) = map mask_str (strs_named n v)"
  "strs_elems t (transformSlice t vs) = map mask_str (strs_elems t vs)"
proof (induction v and f and n v and t vs rule: strs_strs_field_strs_named_strs_elems.induct)
  case (1 T fs)
  then show ?case by (induction fs) auto
next
  case (4 n e tg t v)
  then show ?case by (cases v) (auto split: option.splits)
next
  case (5 n T fs)
  then show ?case by (induction fs) auto
next
  case (10 t v vs)
  then show ?case by (cases v) (auto split: option.splits)
qed (auto simp: mask_str_def)

lemma dsRuleMap_simps [simp]:
  "dsRuleMap ''password'' = Some (\<lambda>raw. replicate (length raw) (CHR ''*''))"
  "dsRuleMap ''Password'' = Some (\<lambda>raw. replicate (length raw) (CHR ''*''))"
  "dsRuleMap ''phone'' = Some MaskPhone" "dsRuleMap ''Phone'' = Some MaskPhone"
  by (simp_all add: dsRuleMap_def dsRules_def)

lemma dsRuleMap_other: "n \<notin> {''password'', ''Password'', ''phone'', ''Phone''} \<Longrightarrow> dsRuleMap n = None"
  by (simp add: dsRuleMap_def dsRules_def)

text \<open>
  C24: A logged proto message is masked: every exported string field that the traversal can reach in the
  clone, through structs, pointers and slices, is logged with the rule of its name applied (passwords
  as stars, phone numbers masked, all other names unchanged), in the same order, and nothing else is
  dropped or added.
\<close>

theorem proto_messages_masked:
  assumes "is_proto A val" and "\<not> is_zero val" and "t \<noteq> TIface"
    and "proto_Clone A val = VPtr t (Some (a, u))"
  shows "\<exists>u' val'. desensitization A val = Ret (VPtr t (Some (a, u')), val') \<and>
    strs u' = map (\<lambda>(n, s). (n,
      if n \<in> {''password'', ''Password''} then replicate (length s) (CHR ''*'')
      else if n \<in> {''phone'', ''Phone''} then MaskPhone s else s)) (strs u)"
proof -
  have m: "mask_str = (\<lambda>(n, s). (n,
      if n \<in> {''password'', ''Password''} then replicate (length s) (CHR ''*'')
      else if n \<in> {''phone'', ''Phone''} then MaskPhone s else s))"
    by (auto simp: mask_str_def fun_eq_iff apply_rule_def dsRuleMap_other)
  have "val \<noteq> VNil" using assms(2) by auto
  then show ?thesis
    using assms strs_transform(1)[of u, unfolded m]
    by (simp add: desensitization_def desensitization_copy_def findAndTransform_def)
qed

definition login_msg :: gval where
  "login_msg = VPtr (TStruct ''LoginReq'') (Some (1, VStruct ''LoginReq''
     [Field ''Name'' True [] TString (VStr ''lin''), Field ''Password'' True [] TString (VStr ''s3cret'')]))"

definition example_ds :: ds_api where
  "example_ds = \<lparr>is_proto = (\<lambda>v. v = login_msg), proto_Clone = (\<lambda>v. v)\<rparr>"

lemma proto_messages_masked_witness:
  "\<exists>u' val'. desensitization example_ds login_msg = Ret (VPtr (TStruct ''LoginReq'') (Some (1, u')), val') \<and>
     strs u' = [(''Name'', ''lin''), (''Password'', ''******'')]"
  using proto_messages_masked[of example_ds login_msg "TStruct ''LoginReq''" 1 "VStruct ''LoginReq''
     [Field ''Name'' True [] TString (VStr ''lin''), Field ''Password'' True [] TString (VStr ''s3cret'')]"]
  by (simp add: example_ds_def login_msg_def numeral_eq_Suc)

section \<open>Plain structs are not\<close>

text \<open>What happens to one field of a struct that is not a proto message.\<close>

fun mask_pointer_field :: "gfield \<Rightarrow> gfield" where
  "mask_pointer_field (Field n e tg t (VPtr t' (Some (a, VStr s)))) =
     Field n e tg t (VPtr t' (Some (a, VStr (apply_rule n s))))"
| "mask_pointer_field f = f"

lemma find_field_plain:
  "regular_field f \<Longrightarrow> plain_field f \<Longrightarrow> find_field False f = mask_pointer_field f"
  by (cases f rule: mask_pointer_field.cases) (auto split: option.split)

lemma store_cells_same:
  "\<forall>(a, u) \<in> set (cells v). H a = Some u \<Longrightarrow> store_cells H v = v"
  "\<forall>(a, u) \<in> set (field_cells f). H a = Some u \<Longrightarrow> store_field H f = f"
proof (induction H v and H f rule: store_cells_store_field.induct)
  case (1 H T fs)
  then show ?case by (induction fs) auto
next
  case (2 H t vs)
  then show ?case by (induction vs) auto
qed auto

lemma field_cells_mask [simp]: "map fst (field_cells (mask_pointer_field f)) = map fst (field_cells f)"
  by (cases f rule: mask_pointer_field.cases) auto

lemma store_masked_field:
  assumes "plain_field f" and "\<forall>(a, u) \<in> set (field_cells (mask_pointer_field f)). H a = Some u"
  shows "store_field H f = mask_pointer_field f"
proof (cases "mask_pointer_field f = f")
  case True
  with assms(2) store_cells_same(2) show ?thesis by metis
next
  case False
  then obtain n e tg t t' a s where "f = Field n e tg t (VPtr t' (Some (a, VStr s)))"
    by (cases f rule: mask_pointer_field.cases) auto
  with assms(2) show ?thesis by simp
qed

lemma map_of_all: "distinct (map fst ps) \<Longrightarrow> \<forall>(a, u) \<in> set ps. map_of ps a = Some u"
  by auto

text \<open>
  Logging a struct that is not a proto message masks no string field: a field of type \<open>string\<close> named
  \<open>Password\<close> is logged as it is. The only fields masked are top-level pointers to strings, and since
  the copy shares their cells, the caller's own value is overwritten with the masked text: after the
  call it equals the value logged.
\<close>

lemma plain_struct_transformed:
  assumes "regular (VStruct T fs)" and "plain (VStruct T fs)" and "distinct (map fst (cells (VStruct T fs)))"
    and "gs = map mask_pointer_field fs"
  shows "DeepCopyV2 (VStruct T fs) = Ret (VStruct T fs)" and "findAndTransform (VStruct T fs) = VStruct T gs"
    and "store_cells (map_of (cells (VStruct T gs))) (VStruct T fs) = VStruct T gs"
    and "map fst (cells (VStruct T gs)) = map fst (cells (VStruct T fs))"
proof -
  have find: "find_direct False (VStruct T fs) = VStruct T gs"
    using assms(1,2) by (auto simp: assms(4) list_all_iff find_field_plain)
  show "DeepCopyV2 (VStruct T fs) = Ret (VStruct T fs)"
    using copy_claims(1)[of "VStruct T fs"] assms(1,2) by (simp add: copy_claim_def)
  show "findAndTransform (VStruct T fs) = VStruct T gs"
    by (simp only: findAndTransform_def gval.case find)
  let ?H = "map_of (cells (VStruct T gs))"
  show addresses: "map fst (cells (VStruct T gs)) = map fst (cells (VStruct T fs))"
    by (simp add: assms(4) map_concat o_def)
  then have H: "\<forall>(a, u) \<in> set (cells (VStruct T gs)). ?H a = Some u"
    using assms(3) by (intro map_of_all) simp
  have "store_field ?H f = mask_pointer_field f" if "f \<in> set fs" for f
    using that assms(2) H by (intro store_masked_field) (auto simp: list_all_iff assms(4))
  then show "store_cells ?H (VStruct T fs) = VStruct T gs" by (simp add: assms(4))
qed

lemma plain_structs_unmasked:
  assumes "\<not> is_proto A (VStruct T fs)" and "regular (VStruct T fs)" and "plain (VStruct T fs)"
    and "distinct (map fst (cells (VStruct T fs)))"
  shows "desensitization A (VStruct T fs) =
    Ret (VStruct T (map mask_pointer_field fs), VStruct T (map mask_pointer_field fs))"
proof (cases "is_zero (VStruct T fs)")
  case True
  then have "mask_pointer_field f = f" if "f \<in> set fs" for f
    using that assms(3) by (cases f rule: mask_pointer_field.cases) (auto simp: list_all_iff split: if_splits)
  then have "map mask_pointer_field fs = fs" by (simp add: map_idI)
  with True show ?thesis by (simp add: desensitization_def desensitization_copy_def)
next
  case False
  note T = plain_struct_transformed[OF assms(2,3,4) refl]
  show ?thesis using False assms(1) T(1,3)
    by (simp add: desensitization_def desensitization_copy_def T(2)
        del: store_cells.simps cells.simps DeepCopyV2.simps is_zero.simps)
qed

lemma plain_structs_unmasked_witness:
  "desensitization example_ds (VStruct ''User'' [Field ''Password'' True [] TString (VStr ''s3cret''),
       Field ''Phone'' True [] (TPtr TString) (VPtr TString (Some (7, VStr ''13812345678'')))]) =
   Ret (VStruct ''User'' [Field ''Password'' True [] TString (VStr ''s3cret''),
       Field ''Phone'' True [] (TPtr TString) (VPtr TString (Some (7, VStr (apply_rule ''Phone'' ''13812345678''))))],
     VStruct ''User'' [Field ''Password'' True [] TString (VStr ''s3cret''),
       Field ''Phone'' True [] (TPtr TString) (VPtr TString (Some (7, VStr (apply_rule ''Phone'' ''13812345678''))))])"
  by (subst plain_structs_unmasked) (simp_all add: example_ds_def login_msg_def)

end
