(* ===== verification/Logger.thy ===== *)
theory Logger
  imports Desensitize TraceMd
begin

text \<open>
  \<open>common/log/logger.go\<close>: the process-wide logger. Its state is the atomic level and what has been written.

  Zap's methods are the parameter \<open>Z\<close>: \<open>Z l msg fields\<close> is \<open>(*zap.Logger).Debug\<close>, \<open>Info\<close>, ... of level
  \<open>l\<close>. What zap documents is \<open>zap_law\<close>: an entry is written when its level is at least the logger's, and
  then \<open>Panic\<close> panics and \<open>Fatal\<close> exits. Of a context the logger reads the value of \<open>user_id\<close> and the trace
  id. \<open>zap.Any\<close> is the parameter \<open>zap_Any\<close>; the template formatting of the sugared logger is \<open>sprintf\<close>.
\<close>

section \<open>Levels\<close>

datatype log_level =
  DebugLevel | InfoLevel | WarnLevel | ErrorLevel | DPanicLevel | PanicLevel | FatalLevel

primrec level_code :: "log_level \<Rightarrow> int" where
  "level_code DebugLevel = -1"
| "level_code InfoLevel = 0"
| "level_code WarnLevel = 1"
| "level_code ErrorLevel = 2"
| "level_code DPanicLevel = 3"
| "level_code PanicLevel = 4"
| "level_code FatalLevel = 5"

lemma level_code_inj [simp]: "level_code a = level_code b \<longleftrightarrow> a = b"
  by (cases a; cases b) simp_all

instantiation log_level :: linorder
begin

definition less_eq_log_level :: "log_level \<Rightarrow> log_level \<Rightarrow> bool" where
  "less_eq_log_level a b \<longleftrightarrow> level_code a \<le> level_code b"

definition less_log_level :: "log_level \<Rightarrow> log_level \<Rightarrow> bool" where
  "less_log_level a b \<longleftrightarrow> level_code a < level_code b"

instance
  by standard (auto simp: less_eq_log_level_def less_log_level_def)

end

text \<open>The levels of the package's own constants, 1 to 6, and the names that \<open>SetLevel\<close> accepts.\<close>

definition logFuncMap :: "nat \<rightharpoonup> log_level" where
  "logFuncMap = map_of [(1, DebugLevel), (2, InfoLevel), (3, WarnLevel), (4, ErrorLevel), (5, PanicLevel), (6, FatalLevel)]"

definition sugaredLogFuncMap :: "nat \<rightharpoonup> log_level" where
  "sugaredLogFuncMap =
     map_of [(1, DebugLevel), (2, InfoLevel), (3, WarnLevel), (4, ErrorLevel), (5, PanicLevel), (6, FatalLevel)]"

definition lowercaseStr2LevelMap :: "string \<rightharpoonup> log_level" where
  "lowercaseStr2LevelMap =
     map_of [(''debug'', DebugLevel), (''info'', InfoLevel), (''warn'', WarnLevel), (''error'', ErrorLevel),
             (''dpanic'', DPanicLevel), (''panic'', PanicLevel), (''fatal'', FatalLevel)]"

section \<open>State and operations\<close>

record log_entry =
  le_level :: log_level
  le_msg :: string
  le_fields :: "zap_field list"

record logger_state =
  lg_level :: log_level
  lg_out :: "log_entry list"

definition init_logger :: logger_state where
  "init_logger = \<lparr>lg_level = InfoLevel, lg_out = []\<rparr>"

type_synonym zap_logger = "log_level \<Rightarrow> string \<Rightarrow> zap_field list \<Rightarrow> logger_state \<Rightarrow> logger_state go"

definition zap_write :: "log_level \<Rightarrow> string \<Rightarrow> zap_field list \<Rightarrow> logger_state \<Rightarrow> logger_state" where
  "zap_write l msg zfs s =
     (if lg_level s \<le> l
      then s\<lparr>lg_out := lg_out s @ [\<lparr>le_level = l, le_msg = msg, le_fields = zfs\<rparr>]\<rparr>
      else s)"

definition zap_law :: "zap_logger \<Rightarrow> bool" where
  "zap_law Z \<longleftrightarrow>
     (\<forall>l msg zfs s. Z l msg zfs s =
        (if l = PanicLevel then Panic (UserPanic msg)
         else if l = FatalLevel then Exit msg
         else Ret (zap_write l msg zfs s)))"

definition SetLevel :: "zap_logger \<Rightarrow> (log_level \<Rightarrow> zap_field) \<Rightarrow> string \<Rightarrow> logger_state \<Rightarrow> (gerr option \<times> logger_state) go" where
  "SetLevel Z code_field levelStr s =
     (case lowercaseStr2LevelMap levelStr of
        Some l \<Rightarrow>
          go_map (Pair None)
            (Z InfoLevel ''[logger] change level to '' [ZString ''level'' levelStr, code_field l] (s\<lparr>lg_level := l\<rparr>))
      | None \<Rightarrow>
          go_map (\<lambda>s. (Some (PlainErr ''[logger] change level fail''), s\<lparr>lg_level := InfoLevel\<rparr>))
            (Z InfoLevel ''[logger] change level fail'' [ZString ''level'' levelStr] s))"

text \<open>A context, as the logger sees it: the value of \<open>user_id\<close> (\<open>VNil\<close> if absent) and the trace id.\<close>

record log_ctx =
  lc_user_id :: gval
  lc_trace_id :: string

definition extractCtxInfo :: "(string \<Rightarrow> gval \<Rightarrow> zap_field) \<Rightarrow> log_ctx \<Rightarrow> zap_field list \<Rightarrow> zap_field list" where
  "extractCtxInfo zap_Any ctx zfs =
     (let zfs = (if lc_user_id ctx \<noteq> VNil then zfs @ [zap_Any ''user_id'' (lc_user_id ctx)] else zfs)
      in if lc_trace_id ctx \<noteq> [] then zfs @ [ZString ''trace_id'' (lc_trace_id ctx)] else zfs)"

fun filter_fields :: "ds_api \<Rightarrow> (string \<Rightarrow> gval \<Rightarrow> zap_field) \<Rightarrow> zap_field list \<Rightarrow> zap_field list go" where
  "filter_fields A zap_Any [] = Ret []"
| "filter_fields A zap_Any (one # zfs) =
     go_bind (FilterField A zap_Any one) (\<lambda>f. go_map ((#) f) (filter_fields A zap_Any zfs))"

definition doLog ::
    "zap_logger \<Rightarrow> ds_api \<Rightarrow> (string \<Rightarrow> gval \<Rightarrow> zap_field) \<Rightarrow> log_ctx \<Rightarrow> nat \<Rightarrow> string \<Rightarrow> zap_field list \<Rightarrow>
     logger_state \<Rightarrow> logger_state go" where
  "doLog Z A zap_Any ctx level msg zfs s =
     go_bind (filter_fields A zap_Any (extractCtxInfo zap_Any ctx zfs)) (\<lambda>fieldList.
       case logFuncMap level of
         Some l \<Rightarrow> Z l msg fieldList s
       | None \<Rightarrow> Panic NilDeref)"

definition doSugaredLog ::
    "zap_logger \<Rightarrow> (string \<Rightarrow> gval list \<Rightarrow> string) \<Rightarrow> nat \<Rightarrow> string \<Rightarrow> gval list \<Rightarrow> logger_state \<Rightarrow> logger_state go" where
  "doSugaredLog Z sprintf level template args s =
     (case sugaredLogFuncMap level of
        Some l \<Rightarrow> Z l (sprintf template args) [] s
      | None \<Rightarrow> Panic NilDeref)"

definition log_Debug where "log_Debug Z A zap_Any ctx msg zfs = doLog Z A zap_Any ctx 1 msg zfs"
definition log_Info where "log_Info Z A zap_Any ctx msg zfs = doLog Z A zap_Any ctx 2 msg zfs"
definition log_Warn where "log_Warn Z A zap_Any ctx msg zfs = doLog Z A zap_Any ctx 3 msg zfs"
definition log_Error where "log_Error Z A zap_Any ctx msg zfs = doLog Z A zap_Any ctx 4 msg zfs"
definition log_Panic where "log_Panic Z A zap_Any ctx msg zfs = doLog Z A zap_Any ctx 5 msg zfs"
definition log_Fatal where "log_Fatal Z A zap_Any ctx msg zfs = doLog Z A zap_Any ctx 6 msg zfs"
definition log_Debugf where "log_Debugf Z sprintf template args = doSugaredLog Z sprintf 1 template args"
definition log_Infof where "log_Infof Z sprintf template args = doSugaredLog Z sprintf 2 template args"
definition log_Warnf where "log_Warnf Z sprintf template args = doSugaredLog Z sprintf 3 template args"
definition log_Errorf where "log_Errorf Z sprintf template args = doSugaredLog Z sprintf 4 template args"
definition log_Panicf where "log_Panicf Z sprintf template args = doSugaredLog Z sprintf 5 template args"
definition log_Fatalf where "log_Fatalf Z sprintf template args = doSugaredLog Z sprintf 6 template args"

section \<open>Levels filter\<close>

lemma logFuncMap_cases: "logFuncMap n = Some l \<Longrightarrow> l \<noteq> DPanicLevel"
  by (auto simp: logFuncMap_def split: if_splits)

text \<open>
  \<open>SetLevel\<close> with one of the seven names sets that level and returns no error; any other name sets
  the level to \<open>info\<close> and returns an error. Afterwards a message whose fields are filtered without a
  panic is written, with exactly the filtered fields, if and only if its level is at least the one
  set; \<open>Panic\<close> and \<open>Fatal\<close> do not return.
\<close>

lemma SetLevel_filters:
  assumes "zap_law Z" and "SetLevel Z code_field name s = Ret (err, s1)"
    and "logFuncMap n = Some l" and "l < PanicLevel"
    and "filter_fields A zap_Any (extractCtxInfo zap_Any ctx zfs) = Ret fl"
  shows "(err = None \<longleftrightarrow> lowercaseStr2LevelMap name \<noteq> None) \<and>
    lg_level s1 = (case lowercaseStr2LevelMap name of Some k \<Rightarrow> k | None \<Rightarrow> InfoLevel) \<and>
    doLog Z A zap_Any ctx n msg zfs s1 =
      Ret (if lg_level s1 \<le> l
           then s1\<lparr>lg_out := lg_out s1 @ [\<lparr>le_level = l, le_msg = msg, le_fields = fl\<rparr>]\<rparr> else s1)"
proof -
  have Z: "Z l msg fs s = (if l = PanicLevel then Panic (UserPanic msg) else if l = FatalLevel then Exit msg
      else Ret (zap_write l msg fs s))" for l msg fs s
    using assms(1) by (simp add: zap_law_def)
  have "(err = None \<longleftrightarrow> lowercaseStr2LevelMap name \<noteq> None) \<and>
    lg_level s1 = (case lowercaseStr2LevelMap name of Some k \<Rightarrow> k | None \<Rightarrow> InfoLevel)"
    using assms(2) by (auto simp: SetLevel_def Z zap_write_def split: option.splits if_splits)
  moreover have "l \<noteq> PanicLevel \<and> l \<noteq> FatalLevel"
    using assms(4) by (auto simp: less_log_level_def)
  ultimately show ?thesis
    using assms(3,5) by (simp add: doLog_def Z zap_write_def)
qed

definition zap_example :: zap_logger where
  "zap_example l msg zfs s =
     (if l = PanicLevel then Panic (UserPanic msg) else if l = FatalLevel then Exit msg
      else Ret (zap_write l msg zfs s))"

lemma zap_example_law: "zap_law zap_example"
  by (simp add: zap_law_def zap_example_def)

lemma SetLevel_filters_witness:
  "\<exists>s1. SetLevel zap_example (\<lambda>l. ZOther ''level code'' 0) ''warn'' init_logger = Ret (None, s1) \<and>
    doLog zap_example example_ds ZIface \<lparr>lc_user_id = VNil, lc_trace_id = []\<rparr> 4 ''m'' [ZString ''password'' ''abc''] s1 =
      Ret (s1\<lparr>lg_out := lg_out s1 @ [\<lparr>le_level = ErrorLevel, le_msg = ''m'', le_fields = [ZString ''password'' ''***'']\<rparr>]\<rparr>)"
proof -
  have 1: "SetLevel zap_example (\<lambda>l. ZOther ''level code'' 0) ''warn'' init_logger =
      Ret (None, init_logger\<lparr>lg_level := WarnLevel\<rparr>)"
    by (simp add: SetLevel_def lowercaseStr2LevelMap_def zap_example_def zap_write_def less_eq_log_level_def)
  have 2: "filter_fields example_ds ZIface (extractCtxInfo ZIface \<lparr>lc_user_id = VNil, lc_trace_id = []\<rparr>
      [ZString ''password'' ''abc'']) = Ret [ZString ''password'' ''***'']"
    by (simp add: extractCtxInfo_def FilterField_def numeral_eq_Suc)
  have "logFuncMap 4 = Some ErrorLevel" "ErrorLevel < PanicLevel"
    by (simp_all add: logFuncMap_def less_log_level_def)
  from SetLevel_filters[OF zap_example_law 1 this 2] 1 show ?thesis
    by (simp add: lowercaseStr2LevelMap_def less_eq_log_level_def)
qed

end
