(* ===== verification/Server.thy ===== *)
theory Server
  imports Logger Interceptors
begin

text \<open>
  The handlers that the gRPC servers run: \<open>GrpcCommonServer\<close> (\<open>grpc-server-wrapper.go\<close>) with the log level
  and the profile download, \<open>PandaAccountServer\<close> (\<open>panda-account-server.go\<close>) with its file download, and
  \<open>WriteStringToFile\<close> of \<open>utils.go\<close>.

  Files, streams and the zip writer are records of operations on a world \<open>'w\<close>, with what they document as
  named laws. Messages to the log are not modelled.
\<close>

section \<open>The log level\<close>

record SetLogLevelResponse =
  rsp_Code :: int
  rsp_ErrMsg :: string

definition SetLogLevel ::
    "zap_logger \<Rightarrow> (log_level \<Rightarrow> zap_field) \<Rightarrow> err_api \<Rightarrow> string \<Rightarrow> logger_state \<Rightarrow>
     ((SetLogLevelResponse \<times> gerr option) \<times> logger_state) go" where
  "SetLogLevel Z code_field A level s =
     go_map (\<lambda>(err, s).
       (case err of
          Some e \<Rightarrow> (\<lparr>rsp_Code = 400, rsp_ErrMsg = err_text (ea_fmt_status A) e\<rparr>, Some e)
        | None \<Rightarrow> (\<lparr>rsp_Code = 200, rsp_ErrMsg = []\<rparr>, None), s))
     (SetLevel Z code_field level s)"

lemma SetLogLevel_code:
  "SetLogLevel Z C A level s = Ret ((r, err), s') \<Longrightarrow>
    rsp_Code r = (if lowercaseStr2LevelMap level = None then 400 else 200) \<and>
    (err = None \<longleftrightarrow> rsp_Code r = 200)"
  by (cases "lowercaseStr2LevelMap level") (auto simp: SetLogLevel_def SetLevel_def go_map_Ret_iff)

section \<open>Streams and files\<close>

record 'w stream_api =
  ss_SetHeader :: "md \<Rightarrow> 'w \<Rightarrow> 'w"
  ss_Send :: "string \<Rightarrow> 'w \<Rightarrow> gerr option \<times> 'w"

datatype read_err = EOF | ReadErr gerr

record ('w, 'h) os_api =
  os_Create :: "string \<Rightarrow> 'w \<Rightarrow> (gerr + 'h) \<times> 'w"
  os_Open :: "string \<Rightarrow> 'w \<Rightarrow> (gerr + 'h) \<times> 'w"
  os_WriteString :: "'h \<Rightarrow> string \<Rightarrow> 'w \<Rightarrow> gerr option \<times> 'w"
  os_Read :: "'h \<Rightarrow> nat \<Rightarrow> 'w \<Rightarrow> (string \<times> read_err option) \<times> 'w"
  os_Close :: "'h \<Rightarrow> 'w \<Rightarrow> 'w"
  os_WriteFile :: "string \<Rightarrow> string \<Rightarrow> 'w \<Rightarrow> gerr option \<times> 'w"

definition WriteStringToFile :: "('w, 'h) os_api \<Rightarrow> string \<Rightarrow> string \<Rightarrow> 'w \<Rightarrow> gerr option \<times> 'w" where
  "WriteStringToFile OS filePath content w =
     (case os_Create OS filePath w of
        (Inl err, w) \<Rightarrow> (Some err, w)
      | (Inr file, w) \<Rightarrow> (let (err, w) = os_WriteString OS file content w in (err, os_Close OS file w)))"

text \<open>The loop of \<open>readFileAndWriteToStream\<close>: \<open>None\<close> stands for a loop that does not end.\<close>

partial_function (option) read_send_loop ::
    "('w, 'h) os_api \<Rightarrow> 'w stream_api \<Rightarrow> 'h \<Rightarrow> 'w \<Rightarrow> (gerr option \<times> 'w) option" where
  "read_send_loop OS S file w =
     (case os_Read OS file 1024 w of
        ((_, Some EOF), w) \<Rightarrow> Some (None, w)
      | ((_, Some (ReadErr e)), w) \<Rightarrow> Some (Some e, w)
      | ((chunk, None), w) \<Rightarrow>
          (case ss_Send S chunk w of
             (Some e, w) \<Rightarrow> Some (Some e, w)
           | (None, w) \<Rightarrow> read_send_loop OS S file w))"

definition readFileAndWriteToStream ::
    "('w, 'h) os_api \<Rightarrow> 'w stream_api \<Rightarrow> string \<Rightarrow> 'w \<Rightarrow> (gerr option \<times> 'w) option" where
  "readFileAndWriteToStream OS S filePath w =
     (case os_Open OS filePath w of
        (Inl err, w) \<Rightarrow> Some (Some err, w)
      | (Inr file, w) \<Rightarrow> map_option (\<lambda>(err, w). (err, os_Close OS file w)) (read_send_loop OS S file w))"

section \<open>The account server\<close>

definition demo_text :: string where
  "demo_text = ''{'' @ [CHR 0x22] @ ''sdfasdfasdfasdfasdfasdfasdfasdfasd'' @ [CHR 0x22] @ '':'' @ [CHR 0x22] @
     ''dfkgl;dajlkfjsadlkfjklsadnfkjasdhnkjfhasdjkfjkladsjflksadjfklsdmlkfjmsld.kfjkml'' @ [CHR 0x22] @ ''}''"

definition DownloadFile :: "('w, 'h) os_api \<Rightarrow> 'w stream_api \<Rightarrow> 'w \<Rightarrow> (gerr option \<times> 'w) option" where
  "DownloadFile OS S w =
     (let (_, w) = WriteStringToFile OS ''lgx.txt'' demo_text w in
      map_option (\<lambda>(_, w). (None, w)) (readFileAndWriteToStream OS S ''lgx.txt'' w))"

definition UploadFile :: "gerr option" where
  "UploadFile = Some (StatusErr 12 ''method UploadFile not implemented'')"

definition SayHello2DemoClient :: "string \<times> gerr option" where
  "SayHello2DemoClient = (''i am panda panda-go client'', None)"

text \<open>
  What the operating system and the stream document, seen through the text of the file of a name
  (\<open>file_of\<close>), the part of an open file that has not been read (\<open>unread\<close>), the file of a handle (\<open>path_of\<close>)
  and the chunks sent so far (\<open>sent\<close>). A read gives a non-empty part of at most the size asked for, or says
  that the end is reached, or fails; a chunk that \<open>Send\<close> accepts is appended to what the client gets, one that
  it refuses may still have gone out. Each operation on files can fail, and none of them touches the stream.
\<close>

definition read_law :: "('w, 'h) os_api \<Rightarrow> ('h \<Rightarrow> 'w \<Rightarrow> string) \<Rightarrow> ('w \<Rightarrow> string list) \<Rightarrow> bool" where
  "read_law OS unread sent \<longleftrightarrow>
     (\<forall>h n w b e w'. 0 < n \<longrightarrow> os_Read OS h n w = ((b, e), w') \<longrightarrow>
        sent w' = sent w \<and>
        (case e of
           Some EOF \<Rightarrow> unread h w = []
         | Some (ReadErr _) \<Rightarrow> True
         | None \<Rightarrow> b \<noteq> [] \<and> length b \<le> n \<and> unread h w = b @ unread h w'))"

definition send_law :: "'w stream_api \<Rightarrow> ('h \<Rightarrow> 'w \<Rightarrow> string) \<Rightarrow> ('w \<Rightarrow> string list) \<Rightarrow> bool" where
  "send_law S unread sent \<longleftrightarrow>
     (\<forall>b w e w'. ss_Send S b w = (e, w') \<longrightarrow>
        (\<forall>h. unread h w' = unread h w) \<and>
        (sent w' = sent w @ [b] \<or> e \<noteq> None \<and> sent w' = sent w))"

definition file_laws ::
    "('w, 'h) os_api \<Rightarrow> ('w \<Rightarrow> string \<Rightarrow> string) \<Rightarrow> ('h \<Rightarrow> 'w \<Rightarrow> string) \<Rightarrow> ('h \<Rightarrow> string) \<Rightarrow> ('w \<Rightarrow> string list) \<Rightarrow> bool" where
  "file_laws OS file_of unread path_of sent \<longleftrightarrow>
     (\<forall>p w r w'. os_Create OS p w = (r, w') \<longrightarrow> sent w' = sent w \<and>
        (\<forall>h. r = Inr h \<longrightarrow> file_of w' p = [] \<and> path_of h = p)) \<and>
     (\<forall>h s w e w'. os_WriteString OS h s w = (e, w') \<longrightarrow> sent w' = sent w \<and>
        (e = None \<longrightarrow> file_of w' (path_of h) = file_of w (path_of h) @ s)) \<and>
     (\<forall>h w. file_of (os_Close OS h w) = file_of w \<and> sent (os_Close OS h w) = sent w) \<and>
     (\<forall>p w r w'. os_Open OS p w = (r, w') \<longrightarrow> sent w' = sent w \<and>
        (\<forall>h. r = Inr h \<longrightarrow> unread h w' = file_of w p))"

lemma file_lawsD:
  assumes "file_laws OS file_of unread path_of sent"
  shows "os_Create OS p w = (r, w') \<Longrightarrow> sent w' = sent w \<and> (\<forall>h. r = Inr h \<longrightarrow> file_of w' p = [] \<and> path_of h = p)"
    and "os_WriteString OS h s w = (e, w') \<Longrightarrow>
      sent w' = sent w \<and> (e = None \<longrightarrow> file_of w' (path_of h) = file_of w (path_of h) @ s)"
    and "file_of (os_Close OS h w) = file_of w" and "sent (os_Close OS h w) = sent w"
    and "os_Open OS p w = (ro, w') \<Longrightarrow> sent w' = sent w \<and> (\<forall>h. ro = Inr h \<longrightarrow> unread h w' = file_of w p)"
  using assms by (simp_all add: file_laws_def)

lemma read_lawD:
  assumes "read_law OS unread sent" and "os_Read OS h n w = ((b, e), w')" and "0 < n"
  shows "sent w' = sent w" and "e = Some EOF \<Longrightarrow> unread h w = []"
    and "e = None \<Longrightarrow> b \<noteq> [] \<and> length b \<le> n \<and> unread h w = b @ unread h w'"
  using assms(1)[unfolded read_law_def, rule_format, OF assms(3,2)] by simp_all

lemma send_lawD:
  assumes "send_law S unread sent" and "ss_Send S b w = (e, w')"
  shows "unread h w' = unread h w" and "sent w' = sent w @ [b] \<or> e \<noteq> None \<and> sent w' = sent w"
  using assms(1)[unfolded send_law_def, rule_format, OF assms(2)] by simp_all

text \<open>
  What the loop of the download sends, and why it stops: at the end of the file, at a read that failed after all that
  was sent, or at a chunk that was refused.
\<close>

definition download_stops ::
    "('w, 'h) os_api \<Rightarrow> 'w stream_api \<Rightarrow> ('w \<Rightarrow> string list) \<Rightarrow> string list \<Rightarrow> gerr \<Rightarrow> bool" where
  "download_stops OS S sent all e \<longleftrightarrow>
     (\<exists>h v. snd (fst (os_Read OS h 1024 v)) = Some (ReadErr e) \<and> all = sent v) \<or>
     (\<exists>b v. fst (ss_Send S b v) = Some e \<and> (all = sent v \<or> all = sent v @ [b]))"

lemma read_send_loop_sends:
  assumes L: "read_law OS unread sent" "send_law S unread sent"
  shows "\<exists>err w' chunks rest. read_send_loop OS S h w = Some (err, w') \<and> sent w' = sent w @ chunks \<and>
    unread h w = concat chunks @ rest \<and> (\<forall>c \<in> set chunks. c \<noteq> [] \<and> length c \<le> 1024) \<and>
    (case err of None \<Rightarrow> rest = [] | Some e \<Rightarrow> download_stops OS S sent (sent w') e)"
proof (induction "length (unread h w)" arbitrary: w rule: less_induct)
  case less
  obtain b e w1 where r: "os_Read OS h 1024 w = ((b, e), w1)" by (metis surj_pair)
  note R = read_lawD[OF L(1) r, simplified]
  consider (eof) "e = Some EOF" | (failed) x where "e = Some (ReadErr x)" | (more) "e = None"
    by (metis option.exhaust read_err.exhaust)
  then show ?case
  proof cases
    case eof
    with R r show ?thesis by (subst read_send_loop.simps) simp
  next
    case (failed x)
    then have "download_stops OS S sent (sent w1) x" using r R(1) unfolding download_stops_def
      by (metis fst_conv snd_conv)
    with failed R r show ?thesis by (subst read_send_loop.simps) simp
  next
    case more
    with R(3) have b: "b \<noteq> []" "length b \<le> 1024" "unread h w = b @ unread h w1" by simp_all
    obtain se w2 where s: "ss_Send S b w1 = (se, w2)" by (metis surj_pair)
    note SD = send_lawD[OF L(2) s]
    show ?thesis
    proof (cases se)
      case (Some x)
      define chunks where "chunks = (if sent w2 = sent w1 @ [b] then [b] else [])"
      have "read_send_loop OS S h w = Some (Some x, w2)" using r more s Some by (subst read_send_loop.simps) simp
      moreover have "download_stops OS S sent (sent w2) x"
        using s Some SD(2) unfolding download_stops_def by (metis fst_conv)
      moreover have "sent w2 = sent w @ chunks" using SD(2) R(1) by (auto simp: chunks_def)
      moreover have "\<exists>rest. unread h w = concat chunks @ rest" using b(3) by (auto simp: chunks_def)
      moreover have "\<forall>c \<in> set chunks. c \<noteq> [] \<and> length c \<le> 1024" using b by (simp add: chunks_def)
      ultimately show ?thesis
        by (intro exI[of _ "Some x"] exI[of _ w2] exI[of _ chunks]) simp
    next
      case None
      then have w2: "sent w2 = sent w @ [b]" "unread h w2 = unread h w1" using SD R(1) by simp_all
      have "length (unread h w2) < length (unread h w)" using b w2 by simp
      from less[OF this] obtain err w' chunks rest where
        IH: "read_send_loop OS S h w2 = Some (err, w')" "sent w' = sent w2 @ chunks" "unread h w2 = concat chunks @ rest"
          "\<forall>c \<in> set chunks. c \<noteq> [] \<and> length c \<le> 1024"
          "case err of None \<Rightarrow> rest = [] | Some e \<Rightarrow> download_stops OS S sent (sent w') e" by blast
      have "read_send_loop OS S h w = Some (err, w')" using r more s None IH(1) by (subst read_send_loop.simps) simp
      with IH(2-5) b w2 show ?thesis
        by (intro exI[of _ err] exI[of _ w'] exI[of _ "b # chunks"] exI[of _ rest]) simp
    qed
  qed
qed

lemma readFile_outcome:
  assumes F: "file_laws OS file_of unread path_of sent" and L: "read_law OS unread sent" "send_law S unread sent"
  shows "\<exists>err w' chunks rest. readFileAndWriteToStream OS S p w = Some (err, w') \<and> sent w' = sent w @ chunks \<and>
    file_of w p = concat chunks @ rest \<and> (\<forall>c \<in> set chunks. c \<noteq> [] \<and> length c \<le> 1024) \<and>
    (case err of None \<Rightarrow> rest = []
     | Some e \<Rightarrow> chunks = [] \<and> fst (os_Open OS p w) = Inl e \<or> download_stops OS S sent (sent w') e)"
proof -
  obtain r w1 where o: "os_Open OS p w = (r, w1)" by (metis surj_pair)
  note O = file_lawsD(5)[OF F o]
  show ?thesis
  proof (cases r)
    case (Inl e)
    with o O show ?thesis by (simp add: readFileAndWriteToStream_def)
  next
    case (Inr h)
    obtain err w' chunks rest where l: "read_send_loop OS S h w1 = Some (err, w')" "sent w' = sent w1 @ chunks"
      "unread h w1 = concat chunks @ rest" "\<forall>c \<in> set chunks. c \<noteq> [] \<and> length c \<le> 1024"
      "case err of None \<Rightarrow> rest = [] | Some e \<Rightarrow> download_stops OS S sent (sent w') e"
      using read_send_loop_sends[OF L] by blast
    have "readFileAndWriteToStream OS S p w = Some (err, os_Close OS h w')"
      by (simp add: readFileAndWriteToStream_def o Inr l(1))
    with l O Inr show ?thesis
      by (intro exI[of _ err] exI[of _ "os_Close OS h w'"] exI[of _ chunks] exI[of _ rest])
        (auto simp: file_lawsD(4)[OF F] split: option.split)
  qed
qed

lemma WriteStringToFile_effect:
  assumes F: "file_laws OS file_of unread path_of sent" and W: "WriteStringToFile OS p s w = (err, w')"
  shows "sent w' = sent w" and "err = None \<Longrightarrow> file_of w' p = s"
proof -
  obtain r wa where c: "os_Create OS p w = (r, wa)" by (metis surj_pair)
  have "sent w' = sent w \<and> (err = None \<longrightarrow> file_of w' p = s)"
  proof (cases r)
    case (Inl e)
    with W c file_lawsD(1)[OF F c] show ?thesis by (auto simp: WriteStringToFile_def)
  next
    case (Inr h)
    obtain e wb where ws: "os_WriteString OS h s wa = (e, wb)" by (metis surj_pair)
    with W c Inr have "err = e" "w' = os_Close OS h wb" by (auto simp: WriteStringToFile_def)
    with Inr file_lawsD(1)[OF F c] file_lawsD(2)[OF F ws] show ?thesis by (auto simp: file_lawsD(3,4)[OF F])
  qed
  then show "sent w' = sent w" "err = None \<Longrightarrow> file_of w' p = s" by simp_all
qed

text \<open>An operating system with one directory, one reading position and the stream of one client.\<close>

record disk =
  dk_files :: "string \<Rightarrow> string"
  dk_unread :: string
  dk_sent :: "string list"

definition disk_os :: "(disk, string) os_api" where
  "disk_os = \<lparr>
     os_Create = (\<lambda>p w. (Inr p, w\<lparr>dk_files := (dk_files w)(p := [])\<rparr>)),
     os_Open = (\<lambda>p w. (Inr p, w\<lparr>dk_unread := dk_files w p\<rparr>)),
     os_WriteString = (\<lambda>h s w. (None, w\<lparr>dk_files := (dk_files w)(h := dk_files w h @ s)\<rparr>)),
     os_Read = (\<lambda>h n w. if dk_unread w = [] then (([], Some EOF), w)
        else ((take n (dk_unread w), None), w\<lparr>dk_unread := drop n (dk_unread w)\<rparr>)),
     os_Close = (\<lambda>h w. w),
     os_WriteFile = (\<lambda>p s w. (None, w\<lparr>dk_files := (dk_files w)(p := s)\<rparr>))\<rparr>"

definition disk_stream :: "disk stream_api" where
  "disk_stream = \<lparr>ss_SetHeader = (\<lambda>m w. w), ss_Send = (\<lambda>b w. (None, w\<lparr>dk_sent := dk_sent w @ [b]\<rparr>))\<rparr>"

lemma disk_laws:
  "file_laws disk_os dk_files (\<lambda>h. dk_unread) (\<lambda>h. h) dk_sent" "read_law disk_os (\<lambda>h. dk_unread) dk_sent"
  "send_law disk_stream (\<lambda>h. dk_unread) dk_sent"
  by (auto simp: file_laws_def read_law_def send_law_def disk_os_def disk_stream_def split: if_splits)

text \<open>When nothing fails, \<open>DownloadFile\<close> gives the client the whole demonstration text.\<close>

lemma DownloadFile_sends_text:
  "\<exists>w' chunks. DownloadFile disk_os disk_stream w = Some (None, w') \<and>
    dk_sent w' = dk_sent w @ chunks \<and> concat chunks = demo_text"
proof -
  obtain w1 where w: "WriteStringToFile disk_os ''lgx.txt'' demo_text w = (None, w1)"
    by (simp add: WriteStringToFile_def disk_os_def)
  note W = WriteStringToFile_effect[OF disk_laws(1) w]
  obtain err w' chunks rest where r: "readFileAndWriteToStream disk_os disk_stream ''lgx.txt'' w1 = Some (err, w')"
    "dk_sent w' = dk_sent w1 @ chunks" "dk_files w1 ''lgx.txt'' = concat chunks @ rest"
    "case err of None \<Rightarrow> rest = [] | Some e \<Rightarrow> chunks = [] \<and> fst (os_Open disk_os ''lgx.txt'' w1) = Inl e \<or>
        download_stops disk_os disk_stream dk_sent (dk_sent w') e"
    using readFile_outcome[OF disk_laws] by blast
  have "err = None" using r(4) by (cases err) (auto simp: download_stops_def disk_os_def disk_stream_def split: if_splits)
  with r w W show ?thesis by (auto simp: DownloadFile_def)
qed

section \<open>The profile download\<close>

definition PprofType_name :: "int \<rightharpoonup> string" where
  "PprofType_name = map_of
     [(0, ''goroutine''), (1, ''heap''), (2, ''threadcreate''), (3, ''allocs''), (4, ''block''), (5, ''mutex''),
      (6, ''profile'')]"

text \<open>The keys of \<open>PprofType_value\<close>; \<open>range\<close> visits them in any order.\<close>

definition PprofType_value_keys :: "string set" where
  "PprofType_value_keys = {''goroutine'', ''heap'', ''threadcreate'', ''allocs'', ''block'', ''mutex'', ''profile''}"

text \<open>\<open>pprofType.String()\<close>: the name, and for a number without one its decimal text.\<close>

definition PprofType_String :: "int \<Rightarrow> string" where
  "PprofType_String t = (case PprofType_name t of Some n \<Rightarrow> n | None \<Rightarrow> int_text t)"

text \<open>
  \<open>pprof.Lookup\<close> finds the profiles that package \<open>runtime/pprof\<close> predefines; the repository adds none. For
  another name it returns nil, and \<open>WriteTo\<close> dereferences its receiver.
\<close>

definition pprof_Lookup :: "string \<Rightarrow> bool" where
  "pprof_Lookup name \<longleftrightarrow>
     name \<in> {''goroutine'', ''threadcreate'', ''heap'', ''allocs'', ''block'', ''mutex''}"

record 'z zip_api =
  zip_New :: 'z
  zip_Create :: "string \<Rightarrow> 'z \<Rightarrow> gerr + 'z"
  pprof_WriteTo :: "string \<Rightarrow> 'z \<Rightarrow> 'z"       \<comment> \<open>the profile, into the entry just created\<close>
  zip_Bytes :: "'z \<Rightarrow> string"                  \<comment> \<open>the buffer after \<open>Close\<close>\<close>

fun add_profiles :: "'z zip_api \<Rightarrow> string list \<Rightarrow> 'z \<Rightarrow> (gerr + 'z) go" where
  "add_profiles P [] z = Ret (Inr z)"
| "add_profiles P (pprofType # ts) z =
     (case zip_Create P pprofType z of
        Inl err \<Rightarrow> Ret (Inl err)
      | Inr z \<Rightarrow>
          if pprof_Lookup pprofType then add_profiles P ts (pprof_WriteTo P pprofType z) else Panic NilDeref)"

definition pprof_headers :: "string \<Rightarrow> md" where
  "pprof_headers content =
     [(''Content-Disposition'', [''attachment; filename=pprof-files.zip'']),
      (''Content-Type'', [''application/zip'']),
      (''Content-Length'', [string_of_runes [length content]])]"

definition selected_types :: "string list \<Rightarrow> int list \<Rightarrow> string list" where
  "selected_types keys ts = (if ts = [] then keys else map PprofType_String ts)"

definition DownloadPprofFile ::
    "'z zip_api \<Rightarrow> ('w, 'h) os_api \<Rightarrow> 'w stream_api \<Rightarrow> string list \<Rightarrow> int list option \<Rightarrow> 'w \<Rightarrow> gerr option go \<times> 'w" where
  "DownloadPprofFile P OS S keys req w =
     (case req of
        None \<Rightarrow> (Ret (Some (PlainErr '' req nil!'')), w)
      | Some ts \<Rightarrow>
         (case add_profiles P (selected_types keys ts) (zip_New P) of
            Panic f \<Rightarrow> (Panic f, w)
          | Exit m \<Rightarrow> (Exit m, w)
          | Ret (Inl err) \<Rightarrow> (Ret (Some err), w)
          | Ret (Inr z) \<Rightarrow>
              let content = zip_Bytes P z;
                  w = ss_SetHeader S (pprof_headers content) w in
              if content = [] then (Ret (Some (PlainErr ''[DownloadPprofFile] zipBuffer.Bytes() is empty'')), w)
              else
                let (_, w) = os_WriteFile OS ''/tmp/pprof.zip'' content w;
                    (_, w) = ss_Send S content w
                in (Ret None, w)))"

lemma add_profiles_panics:
  assumes "\<And>n z. \<exists>z'. zip_Create P n z = Inr z'" and "\<exists>n \<in> set ns. \<not> pprof_Lookup n"
  shows "add_profiles P ns z = Panic NilDeref"
  using assms(2)
proof (induction ns arbitrary: z)
  case (Cons n ns)
  obtain z' where "zip_Create P n z = Inr z'" using assms(1) by blast
  with Cons show ?case by auto
qed simp

lemma add_profiles_writes:
  assumes "\<And>n z. \<exists>z'. zip_Create P n z = Inr z'" and "\<forall>n \<in> set ns. pprof_Lookup n"
  shows "\<exists>z'. add_profiles P ns z = Ret (Inr z')"
  using assms(2)
proof (induction ns arbitrary: z)
  case (Cons n ns)
  obtain z' where "zip_Create P n z = Inr z'" using assms(1) by blast
  with Cons show ?case by auto
qed simp

lemma int_text_hd: "48 \<le> (of_char (hd (int_text i)) :: nat) \<and> (of_char (hd (int_text i)) :: nat) \<le> 57 \<or> hd (int_text i) = CHR ''-''"
  using nat_text_digits[of "hd (nat_text (nat i))" "nat i"] by (simp add: int_text_def)

lemma pprof_Lookup_int_text: "\<not> pprof_Lookup (int_text i)"
  using int_text_hd[of i] by (auto simp: pprof_Lookup_def)

lemma PprofType_String_known: "pprof_Lookup (PprofType_String t) \<longleftrightarrow> t \<in> {0..5}"
proof (cases "t \<in> {0..6}")
  case True
  then have "t \<in> {0, 1, 2, 3, 4, 5, 6}" by auto
  then show ?thesis by (auto simp: PprofType_String_def PprofType_name_def pprof_Lookup_def)
next
  case False
  then have "PprofType_String t = int_text t"
    by (auto simp: PprofType_String_def PprofType_name_def)
  with False show ?thesis by (auto simp: pprof_Lookup_int_text)
qed

lemma length_string_of_bytes: "length (string_of_bytes bs) = length bs"
  by (simp add: string_of_bytes_def)

lemma Content_Length_wrong: "string_of_runes [n] \<noteq> nat_text n"
proof
  assume eq: "string_of_runes [n] = nat_text n"
  show False
  proof (cases "n < 128")
    case True
    then have s: "string_of_runes [n] = [char_of n]" by (simp add: string_of_runes_ascii)
    with eq have "char_of n \<in> set (nat_text n)" by (metis list.set_intros(1))
    from nat_text_digits[OF this] True have "48 \<le> n \<and> n \<le> 57" by simp
    moreover from eq s have "length (nat_text n) = 1" by (metis length_Cons list.size(3) One_nat_def)
    ultimately show False by (subst (asm) nat_text.simps) (simp split: if_splits)
  next
    case False
    define bs where "bs = encode_rune n"
    have b: "bs \<noteq> []" "128 \<le> hd bs" "hd bs < 256"
      using False encode_rune_byte[of "hd bs" n] by (auto simp: bs_def encode_rune_def Let_def valid_rune_def RuneError_def)
    from b have "hd (string_of_runes [n]) = char_of (hd bs)" "string_of_runes [n] \<noteq> []"
      by (simp_all add: string_of_runes_def string_of_bytes_def bs_def[symmetric] hd_map)
    then have "char_of (hd bs) \<in> set (nat_text n)" unfolding eq by (metis list.set_sel(1))
    from nat_text_digits[OF this] b show False by simp
  qed
qed

lemma DownloadPprofFile_panics:
  assumes "\<And>n z. \<exists>z'. zip_Create P n z = Inr z'" and "set keys = PprofType_value_keys"
    and "ts = [] \<or> \<not> set ts \<subseteq> {0..5}"
  shows "DownloadPprofFile P OS S keys (Some ts) w = (Panic NilDeref, w)"
proof -
  from assms(3) have "\<exists>n \<in> set (selected_types keys ts). \<not> pprof_Lookup n"
  proof
    assume "ts = []"
    moreover have "''profile'' \<in> set keys" "\<not> pprof_Lookup ''profile''"
      using assms(2) by (simp_all add: PprofType_value_keys_def pprof_Lookup_def)
    ultimately show ?thesis by (auto simp: selected_types_def)
  next
    assume "\<not> set ts \<subseteq> {0..5}"
    then obtain t where "t \<in> set ts" "\<not> pprof_Lookup (PprofType_String t)"
      unfolding PprofType_String_known by blast
    then show ?thesis by (auto simp: selected_types_def)
  qed
  from add_profiles_panics[OF assms(1) this] show ?thesis by (simp add: DownloadPprofFile_def)
qed

text \<open>
  \<open>DownloadPprofFile\<close> answers only requests that list profiles of the numbers 0 to 5: with an empty list
  (which stands for all names) or any other number it panics before anything is sent. Otherwise it sends
  exactly one chunk, the archive, under a \<open>Content-Length\<close> header that is never the length's decimal text, or
  an error when the archive is empty.
\<close>

lemma DownloadPprofFile_outcome:
  assumes create: "\<And>n z. \<exists>z'. zip_Create P n z = Inr z'" and keys: "set keys = PprofType_value_keys"
  shows "if ts = [] \<or> \<not> set ts \<subseteq> {0..5}
    then DownloadPprofFile P OS S keys (Some ts) w = (Panic NilDeref, w)
    else \<exists>z content w1. add_profiles P (map PprofType_String ts) (zip_New P) = Ret (Inr z) \<and> content = zip_Bytes P z \<and>
      w1 = ss_SetHeader S (pprof_headers content) w \<and>
      map_of (pprof_headers content) ''Content-Length'' \<noteq> Some [nat_text (length content)] \<and>
      DownloadPprofFile P OS S keys (Some ts) w =
        (if content = [] then (Ret (Some (PlainErr ''[DownloadPprofFile] zipBuffer.Bytes() is empty'')), w1)
         else (Ret None, snd (ss_Send S content (snd (os_WriteFile OS ''/tmp/pprof.zip'' content w1)))))"
proof (cases "ts = [] \<or> \<not> set ts \<subseteq> {0..5}")
  case True
  with DownloadPprofFile_panics[OF create keys True] show ?thesis by simp
next
  case False
  then have "\<forall>n \<in> set (map PprofType_String ts). pprof_Lookup n"
    by (auto simp: PprofType_String_known)
  from add_profiles_writes[OF create this] obtain z where
    z: "add_profiles P (map PprofType_String ts) (zip_New P) = Ret (Inr z)" by blast
  from False z show ?thesis
    by (auto simp: DownloadPprofFile_def selected_types_def pprof_headers_def Content_Length_wrong Let_def split_def)
qed

definition list_zip :: "string zip_api" where
  "list_zip = \<lparr>zip_New = [], zip_Create = (\<lambda>n z. Inr (z @ n)), pprof_WriteTo = (\<lambda>n z. z @ ''.''), zip_Bytes = (\<lambda>z. z)\<rparr>"

lemma DownloadPprofFile_outcome_witness:
  "(\<exists>w. DownloadPprofFile list_zip disk_os disk_stream [''goroutine'', ''heap'', ''threadcreate'', ''allocs'', ''block'',
     ''mutex'', ''profile''] (Some [1, 5]) \<lparr>dk_files = (\<lambda>_. []), dk_unread = [], dk_sent = []\<rparr> = (Ret None, w) \<and>
     dk_sent w = [''heap.mutex.'']) \<and>
   fst (DownloadPprofFile list_zip disk_os disk_stream [''goroutine'', ''heap'', ''threadcreate'', ''allocs'', ''block'',
     ''mutex'', ''profile''] (Some []) \<lparr>dk_files = (\<lambda>_. []), dk_unread = [], dk_sent = []\<rparr>) = Panic NilDeref"
proof -
  have c: "\<exists>z'. zip_Create list_zip n z = Inr z'" for n z by (simp add: list_zip_def)
  have k: "set [''goroutine'', ''heap'', ''threadcreate'', ''allocs'', ''block'', ''mutex'', ''profile''] =
      PprofType_value_keys" by (simp add: PprofType_value_keys_def)
  note T = DownloadPprofFile_outcome[where OS = disk_os and S = disk_stream, OF c k]
  show ?thesis
    using T[where ts = "[1, 5]" and w = "\<lparr>dk_files = (\<lambda>_. []), dk_unread = [], dk_sent = []\<rparr>"]
      T[where ts = "[]" and w = "\<lparr>dk_files = (\<lambda>_. []), dk_unread = [], dk_sent = []\<rparr>"]
    by (auto simp: list_zip_def disk_os_def disk_stream_def PprofType_String_def PprofType_name_def pprof_Lookup_def)
qed

end
