(* ===== verification/GatewayRpc.thy ===== *)
theory GatewayRpc
  imports Gateway Server
begin

text \<open>
  The generated part of the HTTP gateway: \<open>proto/pb/panda-account.pb.gw.go\<close>, \<open>panda-auth.pb.gw.go\<close> and
  \<open>common.pb.gw.go\<close>. A request is decoded and handed to the gRPC client (the registration over a connection)
  or to the server itself (the in-process registration); replies and errors go to the response writer.

  The runtime of \<open>grpc-gateway\<close> is the record \<open>gw_rt\<close>: its error and forwarding functions and the decoder of a
  body that holds several messages. A request \<open>gw_request\<close> carries what annotating its context, reading and
  decoding it give. Messages have one type \<open>'m\<close>; what a client or server does to the world is a state \<open>'w\<close>. A
  handler returns \<open>None\<close> when it does not return. \<open>runtime.String\<close> gives its argument back. Logging and the
  choice of marshalers are left out.
\<close>

section \<open>Requests and the runtime\<close>

record ('m, 'd) gw_request =
  gq_Annotate :: "string \<Rightarrow> string \<Rightarrow> gerr option"           \<comment> \<open>\<open>AnnotateContext\<close>: meth, pat\<close>
  gq_AnnotateIncoming :: "string \<Rightarrow> string \<Rightarrow> gerr option"
  gq_Body :: "gerr option"                                  \<comment> \<open>\<open>IOReaderFactory(req.Body)\<close>\<close>
  gq_Decode :: "string \<Rightarrow> read_err option \<times> 'm"             \<comment> \<open>by message type: error, message it leaves\<close>
  gq_Stream :: 'd                                           \<comment> \<open>the body, for a decoder of many messages\<close>
  gq_PathParams :: "string \<rightharpoonup> string"

record ('m, 'd, 'h, 'w) gw_rt =
  rt_err :: err_api
  rt_HTTPError :: "(md \<times> md) option \<Rightarrow> gerr \<Rightarrow> http_writer \<Rightarrow> http_writer"
  rt_ForwardMessage :: "md \<times> md \<Rightarrow> 'm \<Rightarrow> http_writer \<Rightarrow> http_writer"
  rt_ForwardStream :: "md \<times> md \<Rightarrow> 'h \<Rightarrow> http_writer \<Rightarrow> 'w \<Rightarrow> http_writer \<times> 'w"
  rt_DecodeChunk :: "'d \<Rightarrow> (read_err + 'm) \<times> 'd"

text \<open>
  A reply: the error or the message (the handlers look at the message only when there is no error), and the
  metadata of header and trailer. A unary method of a client comes with the metadata that \<open>grpc.Header\<close> and
  \<open>grpc.Trailer\<close> receive; one of a server with those it put on its transport stream.
\<close>

type_synonym 'r reply = "(gerr + 'r) \<times> (md \<times> md)"
type_synonym ('a, 'm, 'w) unary = "'a \<Rightarrow> 'w \<Rightarrow> 'm reply \<times> 'w"

definition failed_reply :: "gerr \<Rightarrow> 'r reply" where
  "failed_reply err = (Inl err, ([], []))"

definition bad_request :: "('m, 'd, 'h, 'w) gw_rt \<Rightarrow> gerr \<Rightarrow> gerr" where
  "bad_request rt err = StatusErr 3 (err_text (ea_fmt_status (rt_err rt)) err)"

definition decode_request :: "('m, 'd, 'h, 'w) gw_rt \<Rightarrow> ('m, 'd) gw_request \<Rightarrow> string \<Rightarrow> gerr + 'm" where
  "decode_request rt q typ =
     (case gq_Body q of
        Some berr \<Rightarrow> Inl (bad_request rt berr)
      | None \<Rightarrow>
          (case gq_Decode q typ of
             (Some (ReadErr err), _) \<Rightarrow> Inl (bad_request rt err)
           | (_, protoReq) \<Rightarrow> Inr protoReq))"

definition path_request :: "('m, 'd) gw_request \<Rightarrow> string \<Rightarrow> gerr + string" where
  "path_request q name =
     (case gq_PathParams q name of None \<Rightarrow> Inl (StatusErr 3 (''missing parameter '' @ name)) | Some val \<Rightarrow> Inr val)"

section \<open>Unary requests\<close>

definition unary_request :: "gerr + 'a \<Rightarrow> ('a, 'm, 'w) unary \<Rightarrow> 'w \<Rightarrow> 'm reply \<times> 'w" where
  "unary_request protoReq client w =
     (case protoReq of Inl err \<Rightarrow> (failed_reply err, w) | Inr protoReq \<Rightarrow> client protoReq w)"

text \<open>The in-process form returns no metadata; what is on the transport stream afterwards comes with it.\<close>

definition local_unary_request :: "gerr + 'a \<Rightarrow> ('a, 'm, 'w) unary \<Rightarrow> 'w \<Rightarrow> ('m reply \<times> (md \<times> md)) \<times> 'w" where
  "local_unary_request protoReq server w =
     (case protoReq of
        Inl err \<Rightarrow> ((failed_reply err, ([], [])), w)
      | Inr protoReq \<Rightarrow> (let ((msg, stream), w) = server protoReq w in (((msg, ([], [])), stream), w)))"

definition request_PandaAccount_SayHello2DemoClient_0 where
  "request_PandaAccount_SayHello2DemoClient_0 rt client q = unary_request (decode_request rt q ''HelloRequest'') client"

definition local_request_PandaAccount_SayHello2DemoClient_0 where
  "local_request_PandaAccount_SayHello2DemoClient_0 rt server q =
     local_unary_request (decode_request rt q ''HelloRequest'') server"

definition request_PandaAuth_SayHello_0 where
  "request_PandaAuth_SayHello_0 rt client q = unary_request (decode_request rt q ''HelloRequest'') client"

definition local_request_PandaAuth_SayHello_0 where
  "local_request_PandaAuth_SayHello_0 rt server q = local_unary_request (decode_request rt q ''HelloRequest'') server"

definition request_CommonService_SetLogLevel_0 where
  "request_CommonService_SetLogLevel_0 client q = unary_request (path_request q ''level'') client"

definition local_request_CommonService_SetLogLevel_0 where
  "local_request_CommonService_SetLogLevel_0 server q = local_unary_request (path_request q ''level'') server"

section \<open>Streaming requests\<close>

record ('m, 'h, 'w) stream_client =
  sc_Send :: "'h \<Rightarrow> 'm \<Rightarrow> 'w \<Rightarrow> read_err option \<times> 'w"
  sc_CloseSend :: "'h \<Rightarrow> 'w \<Rightarrow> gerr option \<times> 'w"
  sc_Header :: "'h \<Rightarrow> 'w \<Rightarrow> (gerr + md) \<times> 'w"
  sc_CloseAndRecv :: "'h \<Rightarrow> 'w \<Rightarrow> (gerr + 'm) \<times> 'w"
  sc_Trailer :: "'h \<Rightarrow> 'w \<Rightarrow> md"

text \<open>The loop of the upload: the error it returns with, if any, and the world.\<close>

partial_function (option) upload_loop ::
    "('m, 'd, 'h, 'w) gw_rt \<Rightarrow> ('m, 'h, 'w) stream_client \<Rightarrow> 'h \<Rightarrow> 'd \<Rightarrow> 'w \<Rightarrow> (gerr option \<times> 'w) option" where
  "upload_loop rt sc stream dec w =
     (case rt_DecodeChunk rt dec of
        (Inl EOF, _) \<Rightarrow> Some (None, w)
      | (Inl (ReadErr err), _) \<Rightarrow> Some (Some (bad_request rt err), w)
      | (Inr protoReq, dec) \<Rightarrow>
          (case sc_Send sc stream protoReq w of
             (Some EOF, w) \<Rightarrow> Some (None, w)
           | (Some (ReadErr err), w) \<Rightarrow> Some (Some err, w)
           | (None, w) \<Rightarrow> upload_loop rt sc stream dec w))"

definition finish_upload :: "('m, 'h, 'w) stream_client \<Rightarrow> 'h \<Rightarrow> 'w \<Rightarrow> 'm reply \<times> 'w" where
  "finish_upload sc stream w =
     (case sc_CloseSend sc stream w of
        (Some err, w) \<Rightarrow> (failed_reply err, w)
      | (None, w) \<Rightarrow>
          (case sc_Header sc stream w of
             (Inl err, w) \<Rightarrow> (failed_reply err, w)
           | (Inr header, w) \<Rightarrow>
               (let (msg, w) = sc_CloseAndRecv sc stream w in
                ((msg, (header, sc_Trailer sc stream w)), w))))"

definition request_PandaAccount_UploadFile_0 ::
    "('m, 'd, 'h, 'w) gw_rt \<Rightarrow> ('m, 'h, 'w) stream_client \<Rightarrow> ('w \<Rightarrow> (gerr + 'h) \<times> 'w) \<Rightarrow> ('m, 'd) gw_request \<Rightarrow> 'w \<Rightarrow>
     ('m reply \<times> 'w) option" where
  "request_PandaAccount_UploadFile_0 rt sc client_UploadFile q w =
     (case client_UploadFile w of
        (Inl err, w) \<Rightarrow> Some (failed_reply err, w)
      | (Inr stream, w) \<Rightarrow>
          map_option (\<lambda>(err, w). case err of Some err \<Rightarrow> (failed_reply err, w) | None \<Rightarrow> finish_upload sc stream w)
            (upload_loop rt sc stream (gq_Stream q) w))"

text \<open>A server stream: the stream or the error, and the header.\<close>

definition open_stream ::
    "('m, 'h, 'w) stream_client \<Rightarrow> gerr + 'a \<Rightarrow> ('a \<Rightarrow> 'w \<Rightarrow> (gerr + 'h) \<times> 'w) \<Rightarrow> 'w \<Rightarrow> 'h reply \<times> 'w" where
  "open_stream sc protoReq client_Call w =
     (case protoReq of
        Inl err \<Rightarrow> (failed_reply err, w)
      | Inr protoReq \<Rightarrow>
          (case client_Call protoReq w of
             (Inl err, w) \<Rightarrow> (failed_reply err, w)
           | (Inr stream, w) \<Rightarrow>
               (case sc_Header sc stream w of
                  (Inl err, w) \<Rightarrow> (failed_reply err, w)
                | (Inr header, w) \<Rightarrow> ((Inr stream, (header, [])), w))))"

definition request_PandaAccount_DownloadFile_0 where
  "request_PandaAccount_DownloadFile_0 sc client q = open_stream sc (path_request q ''file_id'') client"

definition request_CommonService_DownloadPprofFile_0 where
  "request_CommonService_DownloadPprofFile_0 rt sc client q =
     open_stream sc (decode_request rt q ''DownloadPprofFileRequest'') client"

section \<open>Handlers\<close>

type_synonym ('m, 'd, 'w) handler = "('m, 'd) gw_request \<Rightarrow> http_writer \<Rightarrow> 'w \<Rightarrow> (http_writer \<times> 'w) option"

text \<open>\<open>metadata.Join\<close>: the values of every key, those of the first argument first.\<close>

definition metadata_Join :: "md \<Rightarrow> md \<Rightarrow> md" where
  "metadata_Join m1 m2 =
     fold (\<lambda>(k, vs) out. AList.update k ((case map_of out k of None \<Rightarrow> [] | Some us \<Rightarrow> us) @ vs) out) (m1 @ m2) []"

text \<open>A handler over a connection; \<open>meth\<close> and \<open>pat\<close> are given to \<open>AnnotateContext\<close>.\<close>

definition client_handler ::
    "('m, 'd, 'h, 'w) gw_rt \<Rightarrow> string \<Rightarrow> string \<Rightarrow> (('m, 'd) gw_request \<Rightarrow> 'w \<Rightarrow> ('r reply \<times> 'w) option) \<Rightarrow>
     (md \<times> md \<Rightarrow> 'r \<Rightarrow> http_writer \<Rightarrow> 'w \<Rightarrow> http_writer \<times> 'w) \<Rightarrow> ('m, 'd, 'w) handler" where
  "client_handler rt meth pat request forward q hw w =
     (case gq_Annotate q meth pat of
        Some err \<Rightarrow> Some (rt_HTTPError rt None err hw, w)
      | None \<Rightarrow>
          map_option (\<lambda>((resp, md), w). case resp of
              Inl err \<Rightarrow> (rt_HTTPError rt (Some md) err hw, w)
            | Inr resp \<Rightarrow> forward md resp hw w)
            (request q w))"

definition server_handler ::
    "('m, 'd, 'h, 'w) gw_rt \<Rightarrow> string \<Rightarrow> string \<Rightarrow>
     (('m, 'd) gw_request \<Rightarrow> 'w \<Rightarrow> ('m reply \<times> (md \<times> md)) \<times> 'w) \<Rightarrow> ('m, 'd, 'w) handler" where
  "server_handler rt meth pat request q hw w =
     (case gq_AnnotateIncoming q meth pat of
        Some err \<Rightarrow> Some (rt_HTTPError rt None err hw, w)
      | None \<Rightarrow>
          (let (((resp, md), stream), w) = request q w;
               md = (metadata_Join (fst md) (fst stream), metadata_Join (snd md) (snd stream))
           in Some (case resp of
                Inl err \<Rightarrow> (rt_HTTPError rt (Some md) err hw, w)
              | Inr resp \<Rightarrow> (rt_ForwardMessage rt md resp hw, w))))"

definition unsupported_handler :: "('m, 'd, 'h, 'w) gw_rt \<Rightarrow> ('m, 'd, 'w) handler" where
  "unsupported_handler rt q hw w =
     Some (rt_HTTPError rt None
       (StatusErr 12 ''streaming calls are not yet supported in the in-process transport'') hw, w)"

definition forward_message where
  "forward_message rt md msg hw w = (rt_ForwardMessage rt md msg hw, w)"

section \<open>The registered routes\<close>

type_synonym ('m, 'd, 'w) routes = "(string \<times> string \<times> ('m, 'd, 'w) handler) list"

record ('m, 'h, 'w) account_client =
  ac_SayHello2DemoClient :: "('m, 'm, 'w) unary"
  ac_UploadFile :: "'w \<Rightarrow> (gerr + 'h) \<times> 'w"
  ac_DownloadFile :: "string \<Rightarrow> 'w \<Rightarrow> (gerr + 'h) \<times> 'w"
  ac_stream :: "('m, 'h, 'w) stream_client"

definition account_hello :: string where
  "account_hello = ''/v1/panda-account/say-hello2demo-grpc_client_wrapper''"

definition RegisterPandaAccountHandlerClient ::
    "('m, 'd, 'h, 'w) gw_rt \<Rightarrow> ('m, 'h, 'w) account_client \<Rightarrow> ('m, 'd, 'w) routes \<Rightarrow> ('m, 'd, 'w) routes" where
  "RegisterPandaAccountHandlerClient rt client mux = mux @
     [(''POST'', account_hello,
        client_handler rt ''/pb.PandaAccount/SayHello2DemoClient'' account_hello
          (\<lambda>q w. Some (request_PandaAccount_SayHello2DemoClient_0 rt (ac_SayHello2DemoClient client) q w))
          (forward_message rt)),
      (''POST'', ''/v1/upload'',
        client_handler rt ''/pb.PandaAccount/UploadFile'' ''/v1/upload''
          (request_PandaAccount_UploadFile_0 rt (ac_stream client) (ac_UploadFile client)) (forward_message rt)),
      (''GET'', ''/v1/download/{file_id}'',
        client_handler rt ''/pb.PandaAccount/DownloadFile'' ''/v1/download/{file_id}''
          (\<lambda>q w. Some (request_PandaAccount_DownloadFile_0 (ac_stream client) (ac_DownloadFile client) q w))
          (rt_ForwardStream rt))]"

definition RegisterPandaAccountHandlerServer ::
    "('m, 'd, 'h, 'w) gw_rt \<Rightarrow> ('m, 'm, 'w) unary \<Rightarrow> ('m, 'd, 'w) routes \<Rightarrow> ('m, 'd, 'w) routes" where
  "RegisterPandaAccountHandlerServer rt server_SayHello2DemoClient mux = mux @
     [(''POST'', account_hello,
        server_handler rt ''/pb.PandaAccount/SayHello2DemoClient'' account_hello
          (local_request_PandaAccount_SayHello2DemoClient_0 rt server_SayHello2DemoClient)),
      (''POST'', ''/v1/upload'', unsupported_handler rt),
      (''GET'', ''/v1/download/{file_id}'', unsupported_handler rt)]"

definition RegisterPandaAuthHandlerClient ::
    "('m, 'd, 'h, 'w) gw_rt \<Rightarrow> ('m, 'm, 'w) unary \<Rightarrow> ('m, 'd, 'w) routes \<Rightarrow> ('m, 'd, 'w) routes" where
  "RegisterPandaAuthHandlerClient rt client_SayHello mux = mux @
     [(''POST'', ''/v1/panda-auth/say-hello'',
        client_handler rt ''/pb.PandaAuth/SayHello'' ''/v1/panda-auth/say-hello''
          (\<lambda>q w. Some (request_PandaAuth_SayHello_0 rt client_SayHello q w)) (forward_message rt))]"

definition RegisterPandaAuthHandlerServer ::
    "('m, 'd, 'h, 'w) gw_rt \<Rightarrow> ('m, 'm, 'w) unary \<Rightarrow> ('m, 'd, 'w) routes \<Rightarrow> ('m, 'd, 'w) routes" where
  "RegisterPandaAuthHandlerServer rt server_SayHello mux = mux @
     [(''POST'', ''/v1/panda-auth/say-hello'',
        server_handler rt ''/pb.PandaAuth/SayHello'' ''/v1/panda-auth/say-hello''
          (local_request_PandaAuth_SayHello_0 rt server_SayHello))]"

record ('m, 'h, 'w) common_client =
  cc_SetLogLevel :: "(string, 'm, 'w) unary"
  cc_DownloadPprofFile :: "'m \<Rightarrow> 'w \<Rightarrow> (gerr + 'h) \<times> 'w"
  cc_stream :: "('m, 'h, 'w) stream_client"

definition RegisterCommonServiceHandlerClient ::
    "('m, 'd, 'h, 'w) gw_rt \<Rightarrow> ('m, 'h, 'w) common_client \<Rightarrow> ('m, 'd, 'w) routes \<Rightarrow> ('m, 'd, 'w) routes" where
  "RegisterCommonServiceHandlerClient rt client mux = mux @
     [(''GET'', ''/v1/{level}'',
        client_handler rt ''/pb.CommonService/SetLogLevel'' ''/v1/{level}''
          (\<lambda>q w. Some (request_CommonService_SetLogLevel_0 (cc_SetLogLevel client) q w)) (forward_message rt)),
      (''POST'', ''/v1/download-pprof'',
        client_handler rt ''/pb.CommonService/DownloadPprofFile'' ''/v1/download-pprof''
          (\<lambda>q w. Some (request_CommonService_DownloadPprofFile_0 rt (cc_stream client) (cc_DownloadPprofFile client) q w))
          (rt_ForwardStream rt))]"

definition RegisterCommonServiceHandlerServer ::
    "('m, 'd, 'h, 'w) gw_rt \<Rightarrow> (string, 'm, 'w) unary \<Rightarrow> ('m, 'd, 'w) routes \<Rightarrow> ('m, 'd, 'w) routes" where
  "RegisterCommonServiceHandlerServer rt server_SetLogLevel mux = mux @
     [(''GET'', ''/v1/{level}'',
        server_handler rt ''/pb.CommonService/SetLogLevel'' ''/v1/{level}''
          (local_request_CommonService_SetLogLevel_0 server_SetLogLevel)),
      (''POST'', ''/v1/download-pprof'', unsupported_handler rt)]"

section \<open>Registering from an endpoint\<close>

text \<open>
  What becomes of the dialled connection: there is none, it is closed at once, or a goroutine closes it when the
  context is done. \<open>register\<close> is the registration over a connection; the generated ones return no error.
\<close>

datatype 'conn conn_fate = NoConn | ClosedNow 'conn | ClosedWhenDone 'conn

definition RegisterFromEndpoint ::
    "gerr + 'conn \<Rightarrow> ('conn \<Rightarrow> 'mux \<Rightarrow> gerr option \<times> 'mux) \<Rightarrow> 'mux \<Rightarrow> gerr option \<times> 'mux \<times> 'conn conn_fate" where
  "RegisterFromEndpoint dialled register mux =
     (case dialled of
        Inl err \<Rightarrow> (Some err, mux, NoConn)
      | Inr conn \<Rightarrow>
          (let (err, mux) = register conn mux in
           (err, mux, case err of Some _ \<Rightarrow> ClosedNow conn | None \<Rightarrow> ClosedWhenDone conn)))"

definition RegisterPandaAccountHandlerFromEndpoint where
  "RegisterPandaAccountHandlerFromEndpoint rt NewPandaAccountClient dialled mux =
     RegisterFromEndpoint dialled
       (\<lambda>conn mux. (None, RegisterPandaAccountHandlerClient rt (NewPandaAccountClient conn) mux)) mux"

definition RegisterPandaAuthHandlerFromEndpoint where
  "RegisterPandaAuthHandlerFromEndpoint rt NewPandaAuthClient dialled mux =
     RegisterFromEndpoint dialled
       (\<lambda>conn mux. (None, RegisterPandaAuthHandlerClient rt (NewPandaAuthClient conn) mux)) mux"

definition RegisterCommonServiceHandlerFromEndpoint where
  "RegisterCommonServiceHandlerFromEndpoint rt NewCommonServiceClient dialled mux =
     RegisterFromEndpoint dialled
       (\<lambda>conn mux. (None, RegisterCommonServiceHandlerClient rt (NewCommonServiceClient conn) mux)) mux"

section \<open>Uploads\<close>

text \<open>What a decoder finds in a body: its messages, and the error it stops with.\<close>

inductive body_is :: "('d \<Rightarrow> (read_err + 'm) \<times> 'd) \<Rightarrow> 'd \<Rightarrow> 'm list \<Rightarrow> read_err \<Rightarrow> bool" for dec where
  body_end: "dec d = (Inl e, d') \<Longrightarrow> body_is dec d [] e"
| body_more: "dec d = (Inr c, d') \<Longrightarrow> body_is dec d' cs e \<Longrightarrow> body_is dec d (c # cs) e"

text \<open>Sending a list of messages that ends with the error \<open>e\<close>.\<close>

fun send_chunks ::
    "('m, 'd, 'h, 'w) gw_rt \<Rightarrow> ('m, 'h, 'w) stream_client \<Rightarrow> 'h \<Rightarrow> 'm list \<Rightarrow> read_err \<Rightarrow> 'w \<Rightarrow> gerr option \<times> 'w" where
  "send_chunks rt sc stream [] e w = ((case e of EOF \<Rightarrow> None | ReadErr err \<Rightarrow> Some (bad_request rt err)), w)"
| "send_chunks rt sc stream (c # cs) e w =
     (case sc_Send sc stream c w of
        (Some EOF, w) \<Rightarrow> (None, w)
      | (Some (ReadErr err), w) \<Rightarrow> (Some err, w)
      | (None, w) \<Rightarrow> send_chunks rt sc stream cs e w)"

lemma upload_loop_body:
  "body_is (rt_DecodeChunk rt) d cs e \<Longrightarrow> upload_loop rt sc stream d w = Some (send_chunks rt sc stream cs e w)"
proof (induction arbitrary: w rule: body_is.induct)
  case (body_end d e d')
  then show ?case by (subst upload_loop.simps) (simp split: read_err.split)
next
  case (body_more d c d' cs e)
  then show ?case by (subst upload_loop.simps) (simp split: read_err.split option.split prod.split)
qed

text \<open>The world in which message \<open>k\<close> is sent, and what the stream answers to it there.\<close>

definition upload_sent :: "('m, 'h, 'w) stream_client \<Rightarrow> 'h \<Rightarrow> 'm list \<Rightarrow> nat \<Rightarrow> 'w \<Rightarrow> 'w" where
  "upload_sent sc stream cs k w = fold (\<lambda>c w. snd (sc_Send sc stream c w)) (take k cs) w"

definition send_answer :: "('m, 'h, 'w) stream_client \<Rightarrow> 'h \<Rightarrow> 'm list \<Rightarrow> nat \<Rightarrow> 'w \<Rightarrow> read_err option" where
  "send_answer sc stream cs k w = fst (sc_Send sc stream (cs ! k) (upload_sent sc stream cs k w))"

lemma upload_sent_Cons [simp]: "upload_sent sc stream (c # cs) (Suc k) w = upload_sent sc stream cs k (snd (sc_Send sc stream c w))"
  by (simp add: upload_sent_def)

lemma send_answer_simps [simp]:
  "send_answer sc stream (c # cs) 0 w = fst (sc_Send sc stream c w)"
  "send_answer sc stream (c # cs) (Suc k) w = send_answer sc stream cs k (snd (sc_Send sc stream c w))"
  by (simp_all add: send_answer_def upload_sent_def)

lemma send_chunks_exact:
  "(\<forall>i < length cs. send_answer sc stream cs i w = None) \<and>
     send_chunks rt sc stream cs e w =
       (case e of EOF \<Rightarrow> None | ReadErr err \<Rightarrow> Some (bad_request rt err), upload_sent sc stream cs (length cs) w) \<or>
   (\<exists>k x. k < length cs \<and> (\<forall>i < k. send_answer sc stream cs i w = None) \<and> send_answer sc stream cs k w = Some x \<and>
     send_chunks rt sc stream cs e w =
       (case x of EOF \<Rightarrow> None | ReadErr err \<Rightarrow> Some err, upload_sent sc stream cs (Suc k) w))"
proof (induction cs arbitrary: w)
  case Nil
  show ?case by (simp add: upload_sent_def)
next
  case (Cons c cs)
  obtain r w1 where s: "sc_Send sc stream c w = (r, w1)" by (cases "sc_Send sc stream c w")
  show ?case
  proof (cases r)
    case (Some x)
    with s have "send_chunks rt sc stream (c # cs) e w =
        (case x of EOF \<Rightarrow> None | ReadErr err \<Rightarrow> Some err, upload_sent sc stream (c # cs) (Suc 0) w)"
      by (cases x) (simp_all add: upload_sent_def)
    with s Some show ?thesis by (intro disjI2 exI[of _ 0] exI[of _ x]) simp
  next
    case None
    with s Cons.IH[of w1] show ?thesis
    proof (elim disjE exE conjE, goal_cases)
      case 1
      then show ?case by (intro disjI1) (auto simp: less_Suc_eq_0_disj)
    next
      case (2 k x)
      then show ?case by (intro disjI2 exI[of _ "Suc k"] exI[of _ x]) (auto simp: less_Suc_eq_0_disj)
    qed
  qed
qed

text \<open>
  C21: An upload whose body ends, with its last message or with an error, returns. When the stream cannot be opened
  it is answered with that error. Otherwise the messages of the body are sent in order, each once: either the
  stream accepts all of them, and then the body's own error is answered as \<open>InvalidArgument\<close> or, at its
  regular end, the stream is closed and its reply given; or sending stops right after the first message the
  stream refuses, and its error is answered, save \<open>io.EOF\<close>, after which the stream is closed for its reply.
\<close>

theorem UploadFile_terminates:
  assumes "body_is (rt_DecodeChunk rt) (gq_Stream q) cs e"
  shows "case client_UploadFile w of
      (Inl err, w1) \<Rightarrow> request_PandaAccount_UploadFile_0 rt sc client_UploadFile q w = Some (failed_reply err, w1)
    | (Inr stream, w1) \<Rightarrow>
        \<exists>k err. request_PandaAccount_UploadFile_0 rt sc client_UploadFile q w =
            Some (case err of Some err \<Rightarrow> (failed_reply err, upload_sent sc stream cs k w1)
                  | None \<Rightarrow> finish_upload sc stream (upload_sent sc stream cs k w1)) \<and>
          ((k = length cs \<and> (\<forall>i < k. send_answer sc stream cs i w1 = None) \<and>
              err = (case e of EOF \<Rightarrow> None | ReadErr x \<Rightarrow> Some (bad_request rt x))) \<or>
           (\<exists>i x. k = Suc i \<and> i < length cs \<and> (\<forall>j < i. send_answer sc stream cs j w1 = None) \<and>
              send_answer sc stream cs i w1 = Some x \<and> err = (case x of EOF \<Rightarrow> None | ReadErr y \<Rightarrow> Some y)))"
proof (cases "client_UploadFile w")
  case (Pair r w1)
  show ?thesis
  proof (cases r)
    case (Inr stream)
    have run: "request_PandaAccount_UploadFile_0 rt sc client_UploadFile q w =
        Some (case send_chunks rt sc stream cs e w1 of
            (Some err, w2) \<Rightarrow> (failed_reply err, w2) | (None, w2) \<Rightarrow> finish_upload sc stream w2)"
      by (simp add: request_PandaAccount_UploadFile_0_def Pair Inr upload_loop_body[OF assms]
          split: prod.split option.split)
    from send_chunks_exact[of cs sc stream w1 rt e] show ?thesis
      by (elim disjE exE conjE) (auto simp: run Pair Inr)
  qed (simp add: request_PandaAccount_UploadFile_0_def Pair)
qed

text \<open>A body that never ends keeps the loop going as long as the stream accepts.\<close>

lemma upload_loop_ends:
  assumes "upload_loop rt sc stream d w = Some r"
  shows "(\<forall>c w. fst (sc_Send sc stream c w) = None) \<longrightarrow> (\<exists>cs e. body_is (rt_DecodeChunk rt) d cs e)"
proof (rule upload_loop.raw_induct[where P = "\<lambda>rt sc stream d w r.
      (\<forall>c w. fst (sc_Send sc stream c w) = None) \<longrightarrow> (\<exists>cs e. body_is (rt_DecodeChunk rt) d cs e)",
      OF _ assms], intro impI)
  fix loop rt sc stream d w r
  assume IH: "\<And>rt sc stream d w r. loop rt sc stream d w = Some r \<Longrightarrow>
      (\<forall>c w. fst (sc_Send sc stream c w) = None) \<longrightarrow> (\<exists>cs e. body_is (rt_DecodeChunk rt) d cs e)"
    and run: "(case rt_DecodeChunk rt d of
        (Inl EOF, _) \<Rightarrow> Some (None, w)
      | (Inl (ReadErr err), _) \<Rightarrow> Some (Some (bad_request rt err), w)
      | (Inr protoReq, dec) \<Rightarrow>
          (case sc_Send sc stream protoReq w of
             (Some EOF, w) \<Rightarrow> Some (None, w)
           | (Some (ReadErr err), w) \<Rightarrow> Some (Some err, w)
           | (None, w) \<Rightarrow> loop rt sc stream dec w)) = Some r"
    and ok: "\<forall>c w. fst (sc_Send sc stream c w) = None"
  obtain x d' where x: "rt_DecodeChunk rt d = (x, d')" by (cases "rt_DecodeChunk rt d")
  show "\<exists>cs e. body_is (rt_DecodeChunk rt) d cs e"
  proof (cases x)
    case (Inl e)
    with x show ?thesis by (blast intro: body_end)
  next
    case (Inr c)
    moreover obtain w' where "sc_Send sc stream c w = (None, w')" using ok by (metis prod.exhaust_sel)
    ultimately have "loop rt sc stream d' w' = Some r" using run x by simp
    from IH[OF this] ok x Inr show ?thesis by (blast intro: body_more)
  qed
qed

section \<open>The two registrations\<close>

definition md_ok :: "md \<Rightarrow> bool" where
  "md_ok m \<longleftrightarrow> distinct (map fst m)"

lemma Join_fold:
  "distinct (map fst (out @ m)) \<Longrightarrow>
   fold (\<lambda>(k, vs) out. AList.update k ((case map_of out k of None \<Rightarrow> [] | Some us \<Rightarrow> us) @ vs) out) m out = out @ m"
proof (induction m arbitrary: out)
  case (Cons kv m)
  obtain k vs where kv: "kv = (k, vs)" by (cases kv)
  have "map_of out k = None" using Cons.prems by (auto simp: kv map_of_eq_None_iff)
  moreover have "AList.update k vs out = out @ [(k, vs)]"
    using Cons.prems by (intro update_fresh) (auto simp: kv)
  ultimately show ?case using Cons.IH[of "out @ [(k, vs)]"] Cons.prems by (simp add: kv)
qed simp

lemma metadata_Join_empty: "md_ok m \<Longrightarrow> metadata_Join [] m = m"
  using Join_fold[of "[]" m] by (simp add: metadata_Join_def md_ok_def)

lemma server_handler_client:
  assumes "\<And>m w. md_ok (fst (snd (fst (f m w)))) \<and> md_ok (snd (snd (fst (f m w))))"
    and "gq_AnnotateIncoming q meth pat = gq_Annotate q meth pat"
  shows "server_handler rt meth pat (\<lambda>q. local_unary_request (g q) f) q hw w =
    client_handler rt meth pat (\<lambda>q w. Some (unary_request (g q) f w)) (forward_message rt) q hw w"
proof (cases "g q")
  case (Inl err)
  then show ?thesis using metadata_Join_empty[of "[]"] assms(2)
    by (simp add: server_handler_def client_handler_def local_unary_request_def unary_request_def
        failed_reply_def md_ok_def split: option.split)
next
  case (Inr m)
  obtain r h t w1 where "f m w = ((r, (h, t)), w1)" by (metis prod.exhaust_sel)
  then show ?thesis using Inr assms(1)[of m w] assms(2)
    by (auto simp: server_handler_def client_handler_def local_unary_request_def unary_request_def
        metadata_Join_empty forward_message_def split: option.split sum.split)
qed

text \<open>
  C28: The two registrations of the account service have the same routes. Over a connection that carries
  the reply and the metadata of the server unchanged, the unary route answers alike in both; the two
  streaming routes of the in-process one only ever answer \<open>Unimplemented\<close>, without calling the server.
\<close>

theorem account_registrations_agree:
  assumes "\<And>m w. md_ok (fst (snd (fst (ac_SayHello2DemoClient client m w)))) \<and>
      md_ok (snd (snd (fst (ac_SayHello2DemoClient client m w))))"
    and "\<And>meth pat. gq_AnnotateIncoming q meth pat = gq_Annotate q meth pat"
  shows "map (\<lambda>(m, p, _). (m, p)) (RegisterPandaAccountHandlerServer rt (ac_SayHello2DemoClient client) []) =
      map (\<lambda>(m, p, _). (m, p)) (RegisterPandaAccountHandlerClient rt client []) \<and>
    snd (snd (RegisterPandaAccountHandlerServer rt (ac_SayHello2DemoClient client) [] ! 0)) q hw w =
      snd (snd (RegisterPandaAccountHandlerClient rt client [] ! 0)) q hw w \<and>
    (\<forall>i\<in>{1, 2}. snd (snd (RegisterPandaAccountHandlerServer rt (ac_SayHello2DemoClient client) [] ! i)) q hw w =
      Some (rt_HTTPError rt None
        (StatusErr 12 ''streaming calls are not yet supported in the in-process transport'') hw, w))"
proof (intro conjI)
  show "snd (snd (RegisterPandaAccountHandlerServer rt (ac_SayHello2DemoClient client) [] ! 0)) q hw w =
      snd (snd (RegisterPandaAccountHandlerClient rt client [] ! 0)) q hw w"
    using server_handler_client[where f = "ac_SayHello2DemoClient client" and rt = rt and q = q and hw = hw and w = w
        and g = "\<lambda>q. decode_request rt q ''HelloRequest''", OF assms]
    by (simp add: RegisterPandaAccountHandlerServer_def RegisterPandaAccountHandlerClient_def
        local_request_PandaAccount_SayHello2DemoClient_0_def[abs_def] request_PandaAccount_SayHello2DemoClient_0_def)
qed (simp_all add: RegisterPandaAccountHandlerServer_def RegisterPandaAccountHandlerClient_def unsupported_handler_def)

text \<open>A request that cannot be decoded, or lacks its path parameter, calls nobody.\<close>

lemma bad_request_calls_nobody:
  assumes "gq_Annotate q meth pat = None" and "g q = Inl err"
  shows "client_handler rt meth pat (\<lambda>q w. Some (unary_request (g q) f w)) forward q hw w =
    Some (rt_HTTPError rt (Some ([], [])) err hw, w)"
  by (simp add: client_handler_def assms unary_request_def failed_reply_def)

section \<open>The two routes of the profile download\<close>

text \<open>The same request, as the hand-written route of \<open>extra.pb.gw.go\<close> sees it in the world \<open>w\<close>.\<close>

definition pprof_call_of ::
    "('m, 'h, 'w) stream_client \<Rightarrow> ('m \<Rightarrow> 'w \<Rightarrow> (gerr + 'h) \<times> 'w) \<Rightarrow> ('h \<Rightarrow> gerr + string) \<Rightarrow> ('m, 'd) gw_request \<Rightarrow> 'w \<Rightarrow>
     'h pprof_call" where
  "pprof_call_of sc client recv q w =
     (let (e, m) = gq_Decode q ''DownloadPprofFileRequest'' in
      \<lparr>pc_read_body = gq_Body q,
       pc_decode = (case e of Some (ReadErr err) \<Rightarrow> Some err | _ \<Rightarrow> None), pc_decode_EOF = (e = Some EOF),
       pc_DownloadPprofFile = fst (client m w),
       pc_Header = (\<lambda>st. fst (sc_Header sc st (snd (client m w)))), pc_RecvMsg = recv\<rparr>)"

lemma pprof_requests_agree:
  "request_DownloadPprofFile (rt_err rt) (pprof_call_of sc client recv q w) =
    (case fst (request_CommonService_DownloadPprofFile_0 rt sc client q w) of
       (Inl err, md) \<Rightarrow> (None, [], Some err) | (Inr st, md) \<Rightarrow> (Some st, fst md, None))"
proof -
  obtain e m where d: "gq_Decode q ''DownloadPprofFileRequest'' = (e, m)" by (metis prod.exhaust_sel)
  obtain r w1 where c: "client m w = (r, w1)" by (metis prod.exhaust_sel)
  have eof: "e = None \<or> e = Some EOF \<or> (\<exists>x. e = Some (ReadErr x))" by (metis option.exhaust read_err.exhaust)
  show ?thesis
    using d c eof
    by (cases r; cases "gq_Body q")
      (auto simp: request_DownloadPprofFile_def request_CommonService_DownloadPprofFile_0_def pprof_call_of_def
        open_stream_def decode_request_def failed_reply_def bad_request_def split: prod.split sum.split)
qed

text \<open>
  The same failing profile download (a body that cannot be read or decoded, a call or a header that fails) is
  answered with its error by the generated route and panics in the hand-written one, which replaced
  it to put the service's name into the path.
\<close>

lemma pprof_routes_differ:
  assumes "fst (fst (request_CommonService_DownloadPprofFile_0 rt (cc_stream client) (cc_DownloadPprofFile client) q w)) = Inl err"
    and "gq_Annotate q ''/pb.CommonService/DownloadPprofFile'' ''/v1/download-pprof'' = None"
    and "gr_AnnotateContext R = None"
  shows "snd (snd (RegisterCommonServiceHandlerClient rt client [] ! 1)) q hw w =
      Some (rt_HTTPError rt (Some ([], [])) err hw,
        snd (request_CommonService_DownloadPprofFile_0 rt (cc_stream client) (cc_DownloadPprofFile client) q w)) \<and>
    download_pprof_route R (rt_err rt)
      (pprof_call_of (cc_stream client) (cc_DownloadPprofFile client) recv q w) write_err hw = (Panic NilDeref, hw)"
proof -
  obtain md w1 where r: "request_CommonService_DownloadPprofFile_0 rt (cc_stream client) (cc_DownloadPprofFile client) q w =
      ((Inl err, md), w1)" using assms(1) by (metis prod.exhaust_sel)
  then have "md = ([], [])"
    by (auto simp: request_CommonService_DownloadPprofFile_0_def open_stream_def failed_reply_def
        split: sum.splits prod.splits)
  with r assms(2,3) show ?thesis
    by (simp add: RegisterCommonServiceHandlerClient_def client_handler_def download_pprof_route_def pprof_requests_agree)
qed

section \<open>Examples\<close>

definition example_rt :: "(string, string list, nat, string list) gw_rt" where
  "example_rt = \<lparr>rt_err = example_err_api, rt_HTTPError = (\<lambda>md e hw. hw_Write (err_text (\<lambda>_ d. d) e) (hw_WriteHeader 500 hw)),
     rt_ForwardMessage = (\<lambda>md m. hw_Write m), rt_ForwardStream = (\<lambda>md h hw w. (hw_Write (concat w) hw, w)),
     rt_DecodeChunk = (\<lambda>d. case d of [] \<Rightarrow> (Inl EOF, []) | c # d \<Rightarrow> (Inr c, d))\<rparr>"

definition example_request :: "(string, string list) gw_request" where
  "example_request = \<lparr>gq_Annotate = (\<lambda>_ _. None), gq_AnnotateIncoming = (\<lambda>_ _. None), gq_Body = None,
     gq_Decode = (\<lambda>_. (None, ''hi'')), gq_Stream = [''ab'', ''cd''], gq_PathParams = Map.empty\<rparr>"

definition example_stream :: "(string, nat, string list) stream_client" where
  "example_stream = \<lparr>sc_Send = (\<lambda>h m w. (None, w @ [m])), sc_CloseSend = (\<lambda>h w. (None, w)),
     sc_Header = (\<lambda>h w. (Inr [], w)), sc_CloseAndRecv = (\<lambda>h w. (Inr (concat w), w)), sc_Trailer = (\<lambda>h w. [])\<rparr>"

lemma UploadFile_terminates_witness:
  "request_PandaAccount_UploadFile_0 example_rt
     (example_stream\<lparr>sc_Send := \<lambda>h m w. (if w = [] then Some (ReadErr (PlainErr ''reset'')) else None, w @ [m])\<rparr>)
     (\<lambda>w. (Inr 0, w)) example_request [] = Some (failed_reply (PlainErr ''reset''), [''ab''])"
proof -
  have b: "body_is (rt_DecodeChunk example_rt) (gq_Stream example_request) [''ab'', ''cd''] EOF"
    by (auto intro!: body_end body_more simp: example_rt_def example_request_def)
  define sc where "sc = example_stream\<lparr>sc_Send := \<lambda>h m w. (if w = [] then Some (ReadErr (PlainErr ''reset'')) else None, w @ [m])\<rparr>"
  have first: "send_answer sc 0 [''ab'', ''cd''] 0 [] = Some (ReadErr (PlainErr ''reset''))" by (simp add: sc_def)
  have one: "upload_sent sc 0 [''ab'', ''cd''] (Suc 0) [] = [''ab'']" by (simp add: upload_sent_def sc_def)
  have zero: "i = 0" if "\<forall>j < i. send_answer sc 0 [''ab'', ''cd''] j [] = None" for i
    using that first by (cases i) auto
  show ?thesis unfolding sc_def[symmetric]
    using UploadFile_terminates[where rt = example_rt and q = example_request and sc = sc and
        client_UploadFile = "\<lambda>w. (Inr 0, w)" and w = "[]", OF b] first one
    by (auto dest!: zero)
qed

definition example_account :: "(string, nat, string list) account_client" where
  "example_account = \<lparr>ac_SayHello2DemoClient = (\<lambda>m w. ((Inr (m @ ''!''), ([(''k'', [''v''])], [])), w @ [m])),
     ac_UploadFile = (\<lambda>w. (Inr 0, w)), ac_DownloadFile = (\<lambda>f w. (Inr 0, w @ [f])), ac_stream = example_stream\<rparr>"

lemma account_registrations_agree_witness:
  "snd (snd (RegisterPandaAccountHandlerServer example_rt (ac_SayHello2DemoClient example_account) [] ! 0))
     example_request \<lparr>hw_headers = [], hw_status = None, hw_body = []\<rparr> [] =
   Some (\<lparr>hw_headers = [], hw_status = Some (200, []), hw_body = ''hi!''\<rparr>, [''hi''])"
proof -
  have md: "md_ok (fst (snd (fst (ac_SayHello2DemoClient example_account m w)))) \<and>
      md_ok (snd (snd (fst (ac_SayHello2DemoClient example_account m w))))" for m w
    by (simp add: example_account_def md_ok_def)
  have a: "gq_AnnotateIncoming example_request meth pat = gq_Annotate example_request meth pat" for meth pat
    by (simp add: example_request_def)
  show ?thesis
    using account_registrations_agree[OF md a, where rt = example_rt and w = "[]" and
        hw = "\<lparr>hw_headers = [], hw_status = None, hw_body = []\<rparr>"]
    by (simp add: RegisterPandaAccountHandlerClient_def client_handler_def forward_message_def
        request_PandaAccount_SayHello2DemoClient_0_def unary_request_def decode_request_def
        example_request_def example_account_def example_rt_def hw_Write_def hw_WriteHeader_def)
qed

definition example_common :: "(string, nat, string list) common_client" where
  "example_common = \<lparr>cc_SetLogLevel = (\<lambda>l w. ((Inr l, ([], [])), w)),
     cc_DownloadPprofFile = (\<lambda>m w. (Inl (PlainErr ''refused''), w)), cc_stream = example_stream\<rparr>"

lemma pprof_routes_differ_witness:
  "snd (snd (RegisterCommonServiceHandlerClient example_rt example_common [] ! 1)) example_request
     \<lparr>hw_headers = [], hw_status = None, hw_body = []\<rparr> [] =
   Some (\<lparr>hw_headers = [], hw_status = Some (500, []), hw_body = ''refused''\<rparr>, []) \<and>
   download_pprof_route \<lparr>gr_AnnotateContext = None, gr_HTTPError = (\<lambda>e w. w)\<rparr> example_err_api
     (pprof_call_of example_stream (cc_DownloadPprofFile example_common) (\<lambda>_. Inr []) example_request [])
     None \<lparr>hw_headers = [], hw_status = None, hw_body = []\<rparr> =
   (Panic NilDeref, \<lparr>hw_headers = [], hw_status = None, hw_body = []\<rparr>)"
  using pprof_routes_differ[where rt = example_rt and client = example_common and q = example_request and w = "[]" and
      err = "PlainErr ''refused''" and R = "\<lparr>gr_AnnotateContext = None, gr_HTTPError = (\<lambda>e w. w)\<rparr>" and
      hw = "\<lparr>hw_headers = [], hw_status = None, hw_body = []\<rparr>" and recv = "\<lambda>_. Inr []" and write_err = None]
  by (simp add: request_CommonService_DownloadPprofFile_0_def open_stream_def decode_request_def failed_reply_def
      example_request_def example_common_def example_rt_def hw_Write_def hw_WriteHeader_def)

end
