(* ===== verification/EndToEnd.thy ===== *)
theory EndToEnd
  imports Directory GatewayRpc
begin

text \<open>
  Calls and requests through all the layers they pass. A unary call of a client runs in the tracing
  interceptor around the retrying one, as \<open>DialWrapper\<close> chains them; a request of the gateway runs in the
  HTTP interceptor around the route.
\<close>

section \<open>A unary call\<close>

text \<open>
  The chain of \<open>grpc-client-wrapper.go\<close> on a connection. The context goes to the innermost call. A panic of the
  retry leaves the state \<open>at_panic\<close>, whatever it had done before.
\<close>

definition unary_call ::
    "('w, 'conn, 'cfg, 'cl) rpc_env \<Rightarrow> ('ctx, 'span) trace_env \<Rightarrow> string \<Rightarrow> ('w, 'conn, 'cfg, 'cl) rpc_state \<Rightarrow> 'ctx \<Rightarrow>
     string \<Rightarrow> string \<Rightarrow> ('ctx \<Rightarrow> ('w, 'conn) invoker) \<Rightarrow> 'conn \<Rightarrow> ('w, 'conn, 'cfg, 'cl) rpc_state \<Rightarrow>
     (gerr option \<times> span_item list) go \<times> ('w, 'conn, 'cfg, 'cl) rpc_state" where
  "unary_call X E stack at_panic ctx mt params invoker cc s =
     JaegerGrpcUnaryClientInterceptor E \<lparr>ea_fmt_status = re_fmt_status X, ea_gjson_code = re_gjson_code X\<rparr> stack ctx
       (re_Target X cc) mt params
       (\<lambda>ctx s. case RetryGrpcUnaryClientInterceptor X (invoker ctx) cc s of
          Ret (err, s) \<Rightarrow> (Ret err, s)
        | Panic p \<Rightarrow> (Panic p, at_panic)
        | Exit m \<Rightarrow> (Exit m, at_panic)) s"

text \<open>
  C20: Tracing does not change what a call does: a call through both interceptors is a call of the directory,
  it succeeds exactly when the retried call does, and its error is that of the retry, or the status 590
  when the text of that error has between 201 and 799 bytes. The span is finished once, at the end.
\<close>

theorem traced_call_refines:
  assumes "dial_law X" and "client_ok s"
    and "RetryGrpcUnaryClientInterceptor X (invoker (client_context E ctx (re_Target X cc @ mt))) cc s = Ret (r, s')"
  shows "\<exists>err items. unary_call X E stack at_panic ctx mt params invoker cc s = (Ret (err, items @ [Finish]), s') \<and>
    Finish \<notin> set items \<and> (err = None \<longleftrightarrow> r = None) \<and> (err = r \<or> err = Some panic_error) \<and>
    dir_act (re_Target X) dec (ACall (invoker (client_context E ctx (re_Target X cc @ mt))) cc) (err = None)
      (directory_of s) (directory_of s')"
proof -
  let ?A = "\<lparr>ea_fmt_status = re_fmt_status X, ea_gjson_code = re_gjson_code X\<rparr>"
  let ?call = "\<lambda>ctx s. case RetryGrpcUnaryClientInterceptor X (invoker ctx) cc s of
      Ret (err, s) \<Rightarrow> (Ret err, s) | Panic p \<Rightarrow> (Panic p, at_panic) | Exit m \<Rightarrow> (Exit m, at_panic)"
  have "?call (client_context E ctx (re_Target X cc @ mt)) s = (Ret r, s')" by (simp add: assms(3))
  from client_interceptor_result[where invoker = ?call, OF this, of ?A stack params]
  obtain items where "unary_call X E stack at_panic ctx mt params invoker cc s =
      (Ret (visible_error ?A (Ret r), items @ [Finish]), s')" and "Finish \<notin> set items"
    by (auto simp: unary_call_def)
  moreover have "(visible_error ?A (Ret r) = None \<longleftrightarrow> r = None) \<and>
      (visible_error ?A (Ret r) = r \<or> visible_error ?A (Ret r) = Some panic_error)"
    by (cases r) (auto simp: visible_error_def Let_def)
  ultimately show ?thesis using Retry_directory[OF assms, of dec] by auto
qed

text \<open>The lookup when what is cached for the service does not answer it.\<close>

lemma uncached_lookup:
  assumes "\<And>nss. service2NamespacesMp st svc = Some nss \<Longrightarrow> nss = [] \<or> ns \<in> set nss"
  shows "GetNewServiceEntity api k8s_list svc ns st w = lookup_services api k8s_list svc ns st w"
  using assms by (auto simp: GetNewServiceEntity_def split: option.split list.split)

lemma namespaces_of_unknown: "svc \<notin> ks_Name ` set services \<Longrightarrow> namespaces_of svc services = []"
  using set_namespaces_of[of svc services] by (force simp flip: set_empty)

lemma Retry_relocate:
  assumes "invoker cc (rs_world s) = (Some err, w1)"
    and "ParseRPCErrorCode (re_fmt_status X) (re_gjson_code X) (Some err) = 14"
  shows "relocate X cc (set_world w1 s) = Panic p \<Longrightarrow> RetryGrpcUnaryClientInterceptor X invoker cc s = Panic p"
    and "relocate X cc (set_world w1 s) = Ret (Inl e, s') \<Longrightarrow> RetryGrpcUnaryClientInterceptor X invoker cc s = Ret (Some e, s')"
  using retry_loop_unavailable[where invoker = invoker and n = 2 and chd = False and X = X, OF assms]
  by (simp_all add: RetryGrpcUnaryClientInterceptor_def numeral_3_eq_3 numeral_2_eq_2)

lemma unary_call_error:
  assumes "RetryGrpcUnaryClientInterceptor X (invoker (client_context E ctx (re_Target X cc @ mt))) cc s = Ret (Some e, s')"
  shows "\<exists>items. unary_call X E stack at_panic ctx mt params invoker cc s =
    (Ret (visible_error \<lparr>ea_fmt_status = re_fmt_status X, ea_gjson_code = re_gjson_code X\<rparr> (Ret (Some e)), items @ [Finish]), s')"
proof -
  let ?call = "\<lambda>ctx s. case RetryGrpcUnaryClientInterceptor X (invoker ctx) cc s of
      Ret (err, s) \<Rightarrow> (Ret err, s) | Panic p \<Rightarrow> (Panic p, at_panic) | Exit m \<Rightarrow> (Exit m, at_panic)"
  have "?call (client_context E ctx (re_Target X cc @ mt)) s = (Ret (Some e), s')" by (simp add: assms)
  from client_interceptor_result[where invoker = ?call, OF this] show ?thesis unfolding unary_call_def by blast
qed

text \<open>
  C35: A call over an \<open>Unavailable\<close> connection whose service cannot be looked up, when the cached namespaces do not answer
  the lookup either. If the Kubernetes API lists no service of the name, the lookup panics inside the retry, and the
  caller gets the status 590 of the tracing interceptor, with the stack on the span, instead of the error of its
  call. If the listing fails, the caller gets that failure (590 when its text has between 201 and 799 bytes), and if there
  is no Kubernetes client a message that says so; in both cases nothing has been published or dialled.
\<close>

theorem call_of_vanished_service:
  assumes "invoker (client_context E ctx (re_Target X cc @ mt)) cc (rs_world s) = (Some err, w1)"
    and "ParseRPCErrorCode (re_fmt_status X) (re_gjson_code X) (Some err) = 14"
    and "GetSvcNameAndNsFromTarget (re_Target X cc) = Inr (svc, ns)"
    and "\<And>nss. service2NamespacesMp (rs_k8s s) svc = Some nss \<Longrightarrow> nss = [] \<or> ns \<in> set nss"
    and "GetK8sClient (re_k8s X) (rs_k8s s) = (client, k1)"
    and "A = \<lparr>ea_fmt_status = re_fmt_status X, ea_gjson_code = re_gjson_code X\<rparr>"
  shows "case client of
      None \<Rightarrow> \<exists>items. unary_call X E stack at_panic ctx mt params invoker cc s =
        (Ret (Some (PlainErr ''[GetNewServiceEntity] [GetK8sClient] is nil in function GetService''), items @ [Finish]),
         set_world w1 (s\<lparr>rs_k8s := k1\<rparr>))
    | Some cl \<Rightarrow>
        (case re_list X cl w1 of
           (Inl e, w2) \<Rightarrow> \<exists>items. unary_call X E stack at_panic ctx mt params invoker cc s =
             (Ret (visible_error A (Ret (Some e)), items @ [Finish]), set_world w2 (s\<lparr>rs_k8s := k1\<rparr>))
         | (Inr None, w2) \<Rightarrow> True
         | (Inr (Some services), w2) \<Rightarrow> svc \<notin> ks_Name ` set services \<longrightarrow>
             unary_call X E stack at_panic ctx mt params invoker cc s =
               (Ret (Some (StatusErr 590 ''server inner error''),
                  [SetTag ''grpc.type'' ''client_unary'', LogFields ''Param'' params, LogKV ''Panic'' (take 800 stack), Finish]),
                at_panic))"
proof -
  note R = Retry_relocate[where invoker = "invoker (client_context E ctx (re_Target X cc @ mt))" and X = X, OF assms(1,2)]
  have look: "new_entity X svc ns (set_world w1 s) =
      go_map (\<lambda>(r, k, w). (r, set_world w ((set_world w1 s)\<lparr>rs_k8s := k\<rparr>)))
        (lookup_services (re_k8s X) (re_list X) svc ns (rs_k8s s) w1)"
    by (simp add: new_entity_def uncached_lookup[where st = "rs_k8s s" and svc = svc, OF assms(4)])
  have comm: "set_world w ((set_world w1 s)\<lparr>rs_k8s := k\<rparr>) = set_world w (s\<lparr>rs_k8s := k\<rparr>)" for w k
    by (simp add: set_world_def)
  show ?thesis
  proof (cases client)
    case None
    have "relocate X cc (set_world w1 s) =
        Ret (Inl (PlainErr ''[GetNewServiceEntity] [GetK8sClient] is nil in function GetService''), set_world w1 (s\<lparr>rs_k8s := k1\<rparr>))"
      by (simp add: relocate_def assms(3,5) look lookup_services_def None comm)
    from unary_call_error[where invoker = invoker and E = E and ctx = ctx and mt = mt and X = X, OF R(2)[OF this]] show ?thesis
      by (simp add: None visible_error_def)
  next
    case (Some cl)
    obtain r w2 where l: "re_list X cl w1 = (r, w2)" by (metis surj_pair)
    show ?thesis
    proof (cases r)
      case (Inl e)
      have "relocate X cc (set_world w1 s) = Ret (Inl e, set_world w2 (s\<lparr>rs_k8s := k1\<rparr>))"
        by (simp add: relocate_def assms(3,5) look lookup_services_def Some l Inl comm)
      from unary_call_error[where invoker = invoker and E = E and ctx = ctx and mt = mt and X = X, OF R(2)[OF this]] show ?thesis by (simp add: Some l Inl assms(6))
    next
      case (Inr found)
      have "unary_call X E stack at_panic ctx mt params invoker cc s =
          (Ret (Some (StatusErr 590 ''server inner error''),
             [SetTag ''grpc.type'' ''client_unary'', LogFields ''Param'' params, LogKV ''Panic'' (take 800 stack), Finish]), at_panic)"
        if f: "found = Some services" "svc \<notin> ks_Name ` set services" for services
      proof -
        have "relocate X cc (set_world w1 s) = Panic IndexOutOfRange"
          by (simp add: relocate_def assms(3,5) look lookup_services_def Some l Inr f(1) namespaces_of_unknown[OF f(2)]
              sortNamespaces_def sort_Slice_def)
        from R(1)[OF this] show ?thesis
          by (simp add: unary_call_def JaegerGrpcUnaryClientInterceptor_def recover_items_def panic_error_def PANIC_ERR_CODE_def)
      qed
      then show ?thesis by (auto simp: Some l Inr split: option.split)
    qed
  qed
qed

section \<open>A request of the gateway\<close>

text \<open>
  A failed profile download, as the gateway serves it: the route panics on the error of its request, and the
  HTTP interceptor answers with status 590 and the first 800 bytes of the stack instead of the error,
  marks the span and finishes it. (Gin's \<open>JSON\<close> sets the status of a response that has not been written.)
\<close>

lemma failed_profile_download_590:
  assumes "gr_AnnotateContext R = None" and "request_DownloadPprofFile A C = (resp, header, Some err)"
    and "\<And>code text. hw_status hw = None \<Longrightarrow> gin_Status G (gin_JSON G code text hw) = code"
    and "hw_status hw = None"
  shows "\<exists>items. JaegerHTTPServerInterceptor E G stack ctx req
      (\<lambda>ctx hw. download_pprof_route R A C write_err hw) hw =
      (Ret (items @ [SetTagInt ''http.status_code'' 590, Finish]), gin_JSON G 590 (take 800 stack) hw) \<and>
    SetError \<in> set items"
proof -
  have "resp = None" using request_error_no_stream[OF assms(2)] by simp
  then have p: "download_pprof_route R A C write_err hw = (Panic NilDeref, hw)"
    using assms(1,2) by (simp add: download_pprof_route_def)
  show ?thesis
    using http_interceptor_result[where Next = "\<lambda>ctx hw. download_pprof_route R A C write_err hw" and h = hw and h' = hw
        and r = "Panic NilDeref" and E = E and ctx = ctx and req = req and G = G and stack = stack, OF _ _ refl]
      p assms(3)[OF assms(4), of 590 "take 800 stack"]
    by auto
qed

section \<open>Examples\<close>

lemma retry_example:
  obtains s' where "RetryGrpcUnaryClientInterceptor news_env moved_invoker ''kafka.old:50051'' moved_state = Ret (None, s')"
proof -
  have "case RetryGrpcUnaryClientInterceptor news_env moved_invoker ''kafka.old:50051'' moved_state of
      Ret (r, s') \<Rightarrow> r = None | _ \<Rightarrow> False" by code_simp
  then show thesis by (auto split: go.splits intro: that)
qed

lemma traced_call_refines_witness:
  "\<exists>items s'. unary_call news_env example_trace_env ''stack'' moved_state (None, None) ''m'' ''{}'' (\<lambda>_. moved_invoker)
      ''kafka.old:50051'' moved_state = (Ret (None, items @ [Finish]), s') \<and>
    dir_act (re_Target news_env) (re_dec news_env) (ACall moved_invoker ''kafka.old:50051'') True
      (directory_of moved_state) (directory_of s')"
proof (rule retry_example)
  fix s' assume r: "RetryGrpcUnaryClientInterceptor news_env moved_invoker ''kafka.old:50051'' moved_state = Ret (None, s')"
  show ?thesis
    using traced_call_refines[where invoker = "\<lambda>_. moved_invoker" and X = news_env and cc = "''kafka.old:50051''" and
        s = moved_state and r = None and s' = s' and E = example_trace_env and ctx = "(None, None)" and mt = "''m''" and
        stack = "''stack''" and at_panic = moved_state and params = "''{}''" and dec = "re_dec news_env",
        OF example_laws(1,3)] r
    by auto
qed

lemma call_of_vanished_service_witness:
  "unary_call moved_env example_trace_env ''stack'' moved_state (None, None) ''m'' ''{}''
      (\<lambda>_ cc w. (Some (StatusErr 14 ''unavailable''), w)) ''gone.old:50051'' moved_state =
    (Ret (Some (StatusErr 590 ''server inner error''),
       [SetTag ''grpc.type'' ''client_unary'', LogFields ''Param'' ''{}'', LogKV ''Panic'' ''stack'', Finish]), moved_state)"
proof -
  have t: "GetSvcNameAndNsFromTarget ''gone.old:50051'' = Inr (''gone'', ''old'')"
    by (simp add: GetSvcNameAndNsFromTarget_def TrimSuffix_def HasSuffix_def)
  have c: "GetK8sClient (re_k8s moved_env) (rs_k8s moved_state) = (Some (), rs_k8s moved_state)"
    by (simp add: GetK8sClient_def moved_state_def)
  have n: "service2NamespacesMp (rs_k8s moved_state) ''gone'' = None" by (simp add: moved_state_def)
  have l: "re_list moved_env () 0 = (Inr (Some example_services), 0)" "''gone'' \<notin> ks_Name ` set example_services"
    by (simp_all add: moved_env_def example_services_def)
  show ?thesis
    using call_of_vanished_service[where X = moved_env and cc = "''gone.old:50051''" and s = moved_state and
        invoker = "\<lambda>_ cc w. (Some (StatusErr 14 ''unavailable''), w)" and err = "StatusErr 14 ''unavailable''" and
        ?w1.0 = 0 and svc = "''gone''" and ns = "''old''" and client = "Some ()" and ?k1.0 = "rs_k8s moved_state" and
        E = example_trace_env and ctx = "(None, None)" and mt = "''m''" and params = "''{}''" and stack = "''stack''" and
        at_panic = moved_state, OF _ _ _ _ c refl] t n l
    by (simp add: ParseRPCErrorCode_def moved_env_def moved_state_def)
qed

definition writer_gin :: "http_writer gin_api" where
  "writer_gin = \<lparr>gin_Status = (\<lambda>hw. case hw_status hw of None \<Rightarrow> 200 | Some (c, _) \<Rightarrow> c),
     gin_JSON = (\<lambda>code text hw. hw_Write text (hw_WriteHeader code hw)), gin_body_of = (\<lambda>_. None)\<rparr>"

lemma failed_profile_download_590_witness:
  "\<exists>items. JaegerHTTPServerInterceptor example_trace_env writer_gin ''stack'' (None, None) Interceptors.example_request
      (\<lambda>ctx hw. download_pprof_route \<lparr>gr_AnnotateContext = None, gr_HTTPError = (\<lambda>e w. w)\<rparr> example_err_api
        (pprof_call_of example_stream (cc_DownloadPprofFile example_common) (\<lambda>_. Inr []) GatewayRpc.example_request []) None hw)
      \<lparr>hw_headers = [], hw_status = None, hw_body = []\<rparr> =
    (Ret (items @ [SetTagInt ''http.status_code'' 590, Finish]),
     \<lparr>hw_headers = [], hw_status = Some (590, []), hw_body = ''stack''\<rparr>)"
proof -
  let ?C = "pprof_call_of example_stream (cc_DownloadPprofFile example_common) (\<lambda>_. Inr []) GatewayRpc.example_request []"
  have r: "request_DownloadPprofFile example_err_api ?C = (None, [], Some (PlainErr ''refused''))"
    by (simp add: request_DownloadPprofFile_def pprof_call_of_def GatewayRpc.example_request_def example_common_def)
  have g: "hw_status hw = None \<Longrightarrow> gin_Status writer_gin (gin_JSON writer_gin code body hw) = code" for hw code body
    by (simp add: writer_gin_def hw_Write_def hw_WriteHeader_def Let_def)
  show ?thesis
    using failed_profile_download_590[where R = "\<lparr>gr_AnnotateContext = None, gr_HTTPError = (\<lambda>e w. w)\<rparr>" and
        hw = "\<lparr>hw_headers = [], hw_status = None, hw_body = []\<rparr>" and E = example_trace_env and stack = "''stack''" and
        ctx = "(None, None)" and req = Interceptors.example_request and write_err = None, OF _ r g]
    by (auto simp: writer_gin_def hw_Write_def hw_WriteHeader_def)
qed

end
