(* ===== verification/Holmes.thy ===== *)
theory Holmes
  imports NacosClient "HOL-Library.Word"
begin

text \<open>
  \<open>common/grpc-wrapper/grpc_server_wrapper/holms_wrapper/holms.go\<close>: automatic profile dumps, driven by a
  Nacos configuration. The manager and the runtime's profiling rates are the record \<open>holmes_state\<close>, the
  application state of the Nacos client here.

  The Holmes library is the parameter \<open>New\<close> (\<open>holmes.New\<close> of the options); of an instance the model keeps
  the options it was made from, the dumps enabled on it and whether it was started. \<open>json.Unmarshal\<close> into
  a nil \<open>*HolmesConfig\<close> is \<open>dec\<close>: an error, or the pointer, which stays nil for the text \<open>null\<close>.
  Elements of \<open>items\<close> are pointers too. Durations are nanoseconds.
\<close>

section \<open>Configuration\<close>

record ItemConfig =
  it_Type :: string
  it_Min :: int
  it_Diff :: int
  it_Abs :: int
  it_Max :: int
  it_CoolDown :: "32 word"

record HolmesConfig =
  hc_Enable :: bool
  hc_Items :: "ItemConfig option list"
  hc_TriggerName :: string

datatype holmes_option =
    WithProfileReporter string string
  | WithDumpPath string
  | WithLogger
  | WithCPUDump int int int int
  | WithCPUMax int
  | WithGoroutineDump int int int int int
  | WithMemDump int int int int
  | WithThreadDump int int int int
  | WithGCHeapDump int int int int

datatype dump = CPUDump | GoroutineDump | MemDump | ThreadDump | GCHeapDump

record holmes_inst =
  ho_options :: "holmes_option list"
  ho_enabled :: "dump list"
  ho_started :: bool

record holmes_state =
  hs_trigger :: "holmes_inst option"
  hs_config :: HolmesConfig
  hs_mutex :: int
  hs_block :: int
  hs_cpu :: int

type_synonym holmes_New = "holmes_option list \<Rightarrow> gerr option"

section \<open>Stopping and creating\<close>

definition stopTriggerHolmes :: "holmes_state \<Rightarrow> holmes_state" where
  "stopTriggerHolmes m =
     (if hs_trigger m \<noteq> None
      then m\<lparr>hs_mutex := 0, hs_block := 0, hs_cpu := 0, hs_trigger := None\<rparr> else m)"

definition cool_down :: "ItemConfig \<Rightarrow> int" where
  "cool_down item = sint (it_CoolDown item) * 1000000000"

definition item_options :: "ItemConfig \<Rightarrow> holmes_option list" where
  "item_options item =
     (if it_Type item = ''cpu'' then
        [WithCPUDump (it_Min item) (it_Diff item) (it_Abs item) (cool_down item), WithCPUMax (it_Max item)]
      else if it_Type item = ''goroutine'' then
        [WithGoroutineDump (it_Min item) (it_Diff item) (it_Abs item) (it_Max item) (cool_down item)]
      else if it_Type item = ''allocs'' then
        [WithMemDump (it_Min item) (it_Diff item) (it_Abs item) (cool_down item)]
      else if it_Type item = ''thread'' then
        [WithThreadDump (it_Min item) (it_Diff item) (it_Abs item) (cool_down item)]
      else if it_Type item = ''heap'' then
        [WithGCHeapDump (it_Min item) (it_Diff item) (it_Abs item) (cool_down item)]
      else [])"

definition item_dumps :: "ItemConfig \<Rightarrow> dump list" where
  "item_dumps item =
     (if it_Type item = ''cpu'' then [CPUDump]
      else if it_Type item = ''goroutine'' then [GoroutineDump]
      else if it_Type item = ''allocs'' then [MemDump]
      else if it_Type item = ''thread'' then [ThreadDump]
      else if it_Type item = ''heap'' then [GCHeapDump]
      else [])"

text \<open>The loops over the items; a nil item is dereferenced.\<close>

fun each_item :: "(ItemConfig \<Rightarrow> 'b list) \<Rightarrow> ItemConfig option list \<Rightarrow> 'b list go" where
  "each_item f [] = Ret []"
| "each_item f (None # items) = Panic NilDeref"
| "each_item f (Some item # items) = go_map ((@) (f item)) (each_item f items)"

definition newHolmes :: "holmes_New \<Rightarrow> string \<Rightarrow> string \<Rightarrow> holmes_option list \<Rightarrow> gerr + holmes_inst" where
  "newHolmes New appName alertName opts =
     (let opts = [WithProfileReporter appName alertName, WithDumpPath ''/tmp/profile'', WithLogger] @ opts in
      case New opts of
        Some e \<Rightarrow> Inl e
      | None \<Rightarrow> Inr \<lparr>ho_options = opts, ho_enabled = [], ho_started = False\<rparr>)"

definition createTriggerHolmes :: "holmes_New \<Rightarrow> holmes_state \<Rightarrow> holmes_state go" where
  "createTriggerHolmes New m =
     (if \<not> hc_Enable (hs_config m) then Ret m
      else
        let m = m\<lparr>hs_mutex := 1, hs_block := 1\<rparr> in
        go_bind (each_item item_options (hc_Items (hs_config m))) (\<lambda>options.
          case newHolmes New ''trigger'' (hc_TriggerName (hs_config m)) options of
            Inl e \<Rightarrow> Ret m
          | Inr h \<Rightarrow>
              go_map (\<lambda>ds. m\<lparr>hs_trigger := Some (h\<lparr>ho_enabled := ds, ho_started := True\<rparr>)\<rparr>)
                (each_item item_dumps (hc_Items (hs_config m)))))"

section \<open>The handler and the start\<close>

definition holmes_handler :: "holmes_New \<Rightarrow> (string \<Rightarrow> gerr + HolmesConfig option) \<Rightarrow> holmes_state Handler" where
  "holmes_handler New dec key val m =
     (let m = stopTriggerHolmes m in
      if length val = 0 then Ret m
      else
        case dec val of
          Inl e \<Rightarrow> Ret m
        | Inr None \<Rightarrow> Panic NilDeref
        | Inr (Some data) \<Rightarrow> createTriggerHolmes New (m\<lparr>hs_config := data\<rparr>))"

definition default_item :: "string \<Rightarrow> int \<Rightarrow> int \<Rightarrow> int \<Rightarrow> int \<Rightarrow> ItemConfig option" where
  "default_item ty mn df ab mx =
     Some \<lparr>it_Type = ty, it_Min = mn, it_Diff = df, it_Abs = ab, it_Max = mx, it_CoolDown = 2 * 60\<rparr>"

definition default_HolmesConfig :: "nacos_env \<Rightarrow> HolmesConfig" where
  "default_HolmesConfig E =
     \<lparr>hc_Enable = True,
      hc_Items =
        [default_item ''goroutine'' 1000 25 (20 * 1000) (100 * 1000),
         default_item ''cpu'' 10 25 80 80,
         default_item ''allocs'' 40 25 80 80,
         default_item ''heap'' 10 20 40 0],
      hc_TriggerName = ServerName E\<rparr>"

type_synonym 'w holmes_client = "('w, holmes_state) nacos_client"

text \<open>\<open>init\<close>, which \<open>StartHolmes\<close> runs in a goroutine. When publishing the default fails it gives up.\<close>

definition holmes_init ::
    "('w, holmes_state) get_retry \<Rightarrow> ('w, holmes_state) watch_retry \<Rightarrow> (ConfigParam \<times> bool \<times> 'w) retry \<Rightarrow>
     nacos_env \<Rightarrow> (string \<Rightarrow> string) \<Rightarrow> ('w, holmes_state) config_client \<Rightarrow> holmes_New \<Rightarrow>
     (string \<Rightarrow> gerr + HolmesConfig option) \<Rightarrow> (HolmesConfig \<Rightarrow> string) \<Rightarrow> 'w holmes_client \<Rightarrow> 'w holmes_client go" where
  "holmes_init R RW RP E md5hex C New dec enc c =
     (let key = ServerName E @ ''.holmes.config'';
          handler = holmes_handler New dec;
          param = zero_ConfigParam\<lparr>cp_DataId := key\<rparr>;
          ((data, err), c) = GetConfig R E C param c;
          (data, failed, c) =
            (if err \<noteq> None then
               let data = enc (default_HolmesConfig E);
                   ((_, err), _, w) = PublishConfig RP E md5hex C (param\<lparr>cp_Content := data\<rparr>) [] (nc_world c)
               in (data, err \<noteq> None, c\<lparr>nc_world := w\<rparr>)
             else (data, False, c))
      in if failed then Ret c
         else
           go_map (\<lambda>m.
               let c = snd (WatchConfig RW E C param handler (c\<lparr>nc_app := m\<rparr>))
               in c\<lparr>nc_app := (nc_app c)\<lparr>hs_mutex := 1, hs_block := 1\<rparr>\<rparr>)
             (handler key data (nc_app c)))"

definition StopHolmes :: "'w holmes_client \<Rightarrow> 'w holmes_client" where
  "StopHolmes c = c\<lparr>nc_app := stopTriggerHolmes (nc_app c)\<rparr>"

definition Report :: "string \<Rightarrow> nat list \<Rightarrow> string \<Rightarrow> string \<Rightarrow> gerr option" where
  "Report pType buf reason eventID = None"

section \<open>The manager's invariant\<close>

definition holmes_ok :: "holmes_state \<Rightarrow> bool" where
  "holmes_ok m \<longleftrightarrow>
     (case hs_trigger m of
        None \<Rightarrow> True
      | Some h \<Rightarrow> ho_started h \<and> hs_mutex m = 1 \<and> hs_block m = 1 \<and> hc_Enable (hs_config m) \<and>
          each_item item_dumps (hc_Items (hs_config m)) = Ret (ho_enabled h))"

lemma stop_simps [simp]:
  "hs_trigger (stopTriggerHolmes m) = None"
  "hs_config (stopTriggerHolmes m) = hs_config m"
  by (simp_all add: stopTriggerHolmes_def)

lemma create_ok:
  assumes "hs_trigger m = None" and "createTriggerHolmes New m = Ret m'"
  shows "holmes_ok m'" and "hs_config m' = hs_config m"
proof -
  have "holmes_ok m' \<and> hs_config m' = hs_config m"
  proof (cases "hc_Enable (hs_config m)")
    case True
    then obtain options where o: "each_item item_options (hc_Items (hs_config m)) = Ret options"
      using assms(2) by (auto simp: createTriggerHolmes_def Let_def go_simps)
    show ?thesis
      using assms True o
      by (cases "newHolmes New ''trigger'' (hc_TriggerName (hs_config m)) options")
        (auto simp: createTriggerHolmes_def holmes_ok_def Let_def go_simps)
  qed (use assms in \<open>auto simp: createTriggerHolmes_def holmes_ok_def\<close>)
  then show "holmes_ok m'" "hs_config m' = hs_config m" by blast+
qed

lemma idle_ok: "hs_trigger m = None \<Longrightarrow> holmes_ok m"
  by (simp add: holmes_ok_def)

lemma holmes_handler_ok:
  assumes "holmes_handler New dec key val m = Ret m'"
  shows "holmes_ok m'"
proof (cases "\<exists>data. val \<noteq> [] \<and> dec val = Inr (Some data)")
  case True
  then obtain data where d: "val \<noteq> []" "dec val = Inr (Some data)" by blast
  show ?thesis
    using assms d by (intro create_ok(1)[of "(stopTriggerHolmes m)\<lparr>hs_config := data\<rparr>" New])
      (simp_all add: holmes_handler_def)
next
  case False
  then show ?thesis using assms
    by (intro idle_ok) (auto simp: holmes_handler_def Let_def split: if_splits sum.splits option.splits)
qed

interpretation holmes_watch: config_handler "holmes_handler New dec" holmes_ok for New dec
  by unfold_locales (rule holmes_handler_ok)

text \<open>
  Whenever a change is delivered and its handler returns, an instance that runs was started, the configuration in
  force enables it and has its dumps, and profiling is on.
\<close>

lemma holmes_change_keeps_ok:
  "holmes_ok (nc_app c) \<Longrightarrow> OnChange_body p (holmes_handler New dec) key data c = Ret c' \<Longrightarrow> holmes_ok (nc_app c')"
  by (rule holmes_watch.OnChange_inv(1))

lemma each_item_some: "None \<notin> set items \<Longrightarrow> each_item f items = Ret (concat (map (f \<circ> the) items))"
  by (induction f items rule: each_item.induct) auto

lemma each_item_nil: "None \<in> set items \<Longrightarrow> each_item f items = Panic NilDeref"
  by (induction f items rule: each_item.induct) auto

definition started_inst :: "HolmesConfig \<Rightarrow> holmes_inst" where
  "started_inst data =
     \<lparr>ho_options = [WithProfileReporter ''trigger'' (hc_TriggerName data), WithDumpPath ''/tmp/profile'', WithLogger] @
        concat (map (item_options \<circ> the) (hc_Items data)),
      ho_enabled = concat (map (item_dumps \<circ> the) (hc_Items data)), ho_started = True\<rparr>"

text \<open>
  What a non-empty configuration text does: text that does not decode stops the running instance and
  keeps the old configuration; \<open>null\<close> panics, and so does an enabled configuration with a null item;
  every other one becomes the configuration, and an instance with its options and dumps runs exactly
  when it is enabled and the library accepts the options.
\<close>

lemma holmes_handler_outcome:
  assumes "val \<noteq> []"
  shows "case dec val of
      Inl e \<Rightarrow> holmes_handler New dec key val m = Ret (stopTriggerHolmes m)
    | Inr None \<Rightarrow> holmes_handler New dec key val m = Panic NilDeref
    | Inr (Some data) \<Rightarrow>
        if hc_Enable data \<and> None \<in> set (hc_Items data)
        then holmes_handler New dec key val m = Panic NilDeref
        else \<exists>m'. holmes_handler New dec key val m = Ret m' \<and> hs_config m' = data \<and>
          hs_trigger m' =
            (if hc_Enable data \<and> New (ho_options (started_inst data)) = None
             then Some (started_inst data) else None)"
  using assms
  by (auto simp: holmes_handler_def createTriggerHolmes_def newHolmes_def Let_def each_item_nil
      each_item_some started_inst_def split: sum.split option.split)

definition cpu_config :: HolmesConfig where
  "cpu_config = \<lparr>hc_Enable = True, hc_Items = [default_item ''cpu'' 10 25 80 80], hc_TriggerName = ''auth''\<rparr>"

definition idle_holmes :: holmes_state where
  "idle_holmes = \<lparr>hs_trigger = None, hs_config = \<lparr>hc_Enable = False, hc_Items = [], hc_TriggerName = []\<rparr>,
     hs_mutex = 0, hs_block = 0, hs_cpu = 0\<rparr>"

lemma holmes_handler_outcome_witness:
  "\<exists>m'. holmes_handler (\<lambda>_. None) (\<lambda>_. Inr (Some cpu_config)) ''k'' ''json'' idle_holmes = Ret m' \<and>
     hs_trigger m' = Some (started_inst cpu_config)"
  using holmes_handler_outcome[where val = "''json''" and dec = "\<lambda>_. Inr (Some cpu_config)"
      and New = "\<lambda>_. None" and key = "''k''" and m = idle_holmes]
  by (auto simp: cpu_config_def default_item_def)

lemma createTriggerHolmes_exact:
  assumes "hs_trigger m = None"
  shows "createTriggerHolmes New m =
    (if \<not> hc_Enable (hs_config m) then Ret m
     else if None \<in> set (hc_Items (hs_config m)) then Panic NilDeref
     else Ret (m\<lparr>hs_mutex := 1, hs_block := 1, hs_trigger :=
         if New (ho_options (started_inst (hs_config m))) = None then Some (started_inst (hs_config m)) else None\<rparr>))"
proof (cases "hc_Enable (hs_config m) \<and> None \<notin> set (hc_Items (hs_config m))")
  case True
  then show ?thesis using assms
    by (simp add: createTriggerHolmes_def newHolmes_def Let_def each_item_some started_inst_def split: option.split)
next
  case False
  then show ?thesis by (auto simp: createTriggerHolmes_def Let_def each_item_nil)
qed

lemma stopTriggerHolmes_exact:
  "stopTriggerHolmes m = (if hs_trigger m = None then m
     else m\<lparr>hs_trigger := None, hs_mutex := 0, hs_block := 0, hs_cpu := 0\<rparr>)"
  by (simp add: stopTriggerHolmes_def)

text \<open>
  C39: What a delivered configuration change does, exactly: the running instance is stopped and profiling switched
  off. An empty text, or one that does not decode, leaves it at that and the old configuration in place; \<open>null\<close>
  panics, and so does an enabled configuration with a null item. Any other configuration becomes the one in
  force; when it is enabled, lock and block profiling are on, and a started instance, with the options and the
  dumps of the configuration's items in order, runs unless the library refuses the options. Unless it panicked,
  the content is cached.
\<close>

theorem holmes_change_outcome:
  "OnChange_body p (holmes_handler New dec) key data c =
     (let m = nc_app c;
          stopped = (if hs_trigger m = None then m
                     else m\<lparr>hs_trigger := None, hs_mutex := 0, hs_block := 0, hs_cpu := 0\<rparr>);
          handled = (\<lambda>m'. Ret (c\<lparr>nc_app := m', ConfigCacheMap := sm_Store p data (ConfigCacheMap c)\<rparr>))
      in if data = [] then handled stopped
         else case dec data of
             Inl e \<Rightarrow> handled stopped
           | Inr None \<Rightarrow> Panic NilDeref
           | Inr (Some cfg) \<Rightarrow>
               if \<not> hc_Enable cfg then handled (stopped\<lparr>hs_config := cfg\<rparr>)
               else if None \<in> set (hc_Items cfg) then Panic NilDeref
               else handled (stopped\<lparr>hs_config := cfg, hs_mutex := 1, hs_block := 1,
                   hs_trigger := if New (ho_options (started_inst cfg)) = None then Some (started_inst cfg) else None\<rparr>))"
  by (simp add: OnChange_body_def holmes_handler_def createTriggerHolmes_exact Let_def
      stopTriggerHolmes_exact[symmetric] split: sum.split option.split)

section \<open>Profiling stays on\<close>

text \<open>
  When the service's configuration exists and disables Holmes, \<open>init\<close> still returns with lock and
  block profiling switched on, no instance runs, and stopping Holmes does not switch them off.
\<close>

lemma holmes_disabled_profiles:
  assumes R: "retry_law R" "retry_law RW"
    and get: "GetConfig R E C (zero_ConfigParam\<lparr>cp_DataId := ServerName E @ ''.holmes.config''\<rparr>) c = ((data, None), c1)"
    and off: "data \<noteq> []" "dec data = Inr (Some cfg)" "\<not> hc_Enable cfg"
  shows "\<exists>c'. holmes_init R RW RP E md5hex C New dec enc c = Ret c' \<and> hs_trigger (nc_app c') = None \<and>
    hs_mutex (nc_app c') = 1 \<and> hs_block (nc_app c') = 1 \<and> nc_app (StopHolmes c') = nc_app c'"
proof -
  define p where "p = zero_ConfigParam\<lparr>cp_DataId := ServerName E @ ''.holmes.config''\<rparr>"
  let ?m = "(stopTriggerHolmes (nc_app c1))\<lparr>hs_config := cfg\<rparr>"
  have h: "holmes_handler New dec key data (nc_app c1) = Ret ?m" for key
    using off by (simp add: holmes_handler_def createTriggerHolmes_def)
  obtain err c2 where w: "WatchConfig RW E C p (holmes_handler New dec) (c1\<lparr>nc_app := ?m\<rparr>) = (err, c2)"
    by (metis prod.exhaust)
  have app: "nc_app c2 = ?m" using WatchConfig_effect(1)[OF R(2) w] by simp
  have "holmes_init R RW RP E md5hex C New dec enc c = Ret (c2\<lparr>nc_app := ?m\<lparr>hs_mutex := 1, hs_block := 1\<rparr>\<rparr>)"
    using get w h app by (simp add: holmes_init_def p_def[symmetric])
  then show ?thesis by (simp add: StopHolmes_def stopTriggerHolmes_def)
qed

lemma holmes_disabled_profiles_witness:
  "\<exists>c'. holmes_init retry_twice retry_twice retry_twice example_env rev flaky_client (\<lambda>_. None)
      (\<lambda>_. Inr (Some (hs_config idle_holmes))) (\<lambda>_. [])
      \<lparr>nc_world = 1, ConfigCacheMap = [], ConfigWatchHandleMap = [], nc_app = idle_holmes\<rparr> = Ret c' \<and>
    hs_mutex (nc_app c') = 1"
proof -
  let ?c = "\<lparr>nc_world = 1 :: nat, ConfigCacheMap = [], ConfigWatchHandleMap = [], nc_app = idle_holmes\<rparr>"
  obtain c1 where get: "GetConfig retry_twice example_env flaky_client
      (zero_ConfigParam\<lparr>cp_DataId := ServerName example_env @ ''.holmes.config''\<rparr>) ?c = ((''prod'', None), c1)"
    by (simp add: GetConfig_def get_attempt_eq flaky_client_def zero_ConfigParam_def example_env_def
        default_group_def changeOwnConfigParam2vo_def)
  show ?thesis
    using holmes_disabled_profiles[OF retry_twice_law retry_twice_law get, of "\<lambda>_. Inr (Some (hs_config idle_holmes))"
        "hs_config idle_holmes" retry_twice rev "\<lambda>_. None" "\<lambda>_. []"]
    by (auto simp: idle_holmes_def)
qed

end
