(* ===== verification/Kafka.thy ===== *)
theory Kafka
  imports NacosClient
begin

text \<open>
  \<open>component/kafka/consumer/consumer.go\<close>, \<open>component/kafka/producer/producer.go\<close> and the two loops of
  \<open>prometheus_wrapper/prometheus.go\<close> that use them.

  The Sarama library is a parameter: \<open>NewConsumer\<close>, \<open>NewConsumerGroup\<close>, \<open>NewSyncProducer\<close> make a
  client from the broker address (and the group's name), \<open>Send\<close> is \<open>SendMessage\<close> on the outside world.
  The variables of both packages are the record \<open>kafka_state\<close>. Goroutines started are recorded in
  \<open>ks_spawned\<close>, with what they will do. \<open>strconv.ParseFloat\<close> is the parameter \<open>parse\<close>.
\<close>

section \<open>State\<close>

type_synonym chan_id = nat

record ('cons, 'grp, 'prod) kafka_state =
  ks_client :: "'cons option"
  ks_client_once :: bool
  ks_group :: "'grp option"
  ks_group_once :: bool
  ks_producer :: "'prod option"
  ks_producer_once :: bool
  ks_chans :: "(string, chan_id) gomap"
  ks_next_chan :: chan_id
  ks_spawned :: "(string \<times> bool \<times> chan_id) list"

section \<open>The broker address\<close>

text \<open>The three constructors read the address in the same way, each with its own text.\<close>

definition kafka_url ::
    "('w, 'a) get_retry \<Rightarrow> nacos_env \<Rightarrow> ('w, 'a) config_client \<Rightarrow> string \<Rightarrow> ('w, 'a) nacos_client \<Rightarrow>
     (string \<times> ('w, 'a) nacos_client) go" where
  "kafka_url R E C who c =
     (let ((kafkaUrl, err), c) = GetConfig R E C (zero_ConfigParam\<lparr>cp_DataId := ServerName E @ ''.kafka.config''\<rparr>) c
      in go_bind
           (case err of
              None \<Rightarrow> Ret (kafkaUrl, c)
            | Some _ \<Rightarrow>
                let ((kafkaUrl, err), c) =
                      GetConfig R E C (zero_ConfigParam\<lparr>cp_DataId := ''common.kafka.config'', cp_Group := ''DEFAULT_GROUP''\<rparr>) c
                in if err \<noteq> None then Exit (who @ '' get kafka config all fail'')
                   else if kafkaUrl = [] then Exit (who @ '' get common kafka config empty'')
                   else Ret (kafkaUrl, c))
           (\<lambda>(kafkaUrl, c).
              if kafkaUrl = [] then Exit (who @ '' get service kafka config empty'') else Ret (kafkaUrl, c)))"

section \<open>Clients\<close>

definition GetKafkaClient ::
    "('w, 'a) get_retry \<Rightarrow> nacos_env \<Rightarrow> ('w, 'a) config_client \<Rightarrow> (string \<Rightarrow> gerr + 'cons) \<Rightarrow>
     ('w, 'a) nacos_client \<times> ('cons, 'grp, 'prod) kafka_state \<Rightarrow>
     ('cons option \<times> ('w, 'a) nacos_client \<times> ('cons, 'grp, 'prod) kafka_state) go" where
  "GetKafkaClient R E C NewConsumer = (\<lambda>(c, k).
     if ks_client_once k then Ret (ks_client k, c, k)
     else
       go_bind (kafka_url R E C ''[GetKafkaClient]'' c) (\<lambda>(kafkaUrl, c).
         case NewConsumer kafkaUrl of
           Inl e \<Rightarrow> Exit ''[GetKafkaClient] sarama.NewConsumer error''
         | Inr cl \<Rightarrow> Ret (Some cl, c, k\<lparr>ks_client_once := True, ks_client := Some cl\<rparr>)))"

definition group_name :: "nacos_env \<Rightarrow> bool \<Rightarrow> string" where
  "group_name E isNeedDiffGroup =
     (if isNeedDiffGroup then PodName E @ ''_consumer_group'' else ServerName E @ ''_consumer_group'')"

definition GetKafkaConsumer ::
    "('w, 'a) get_retry \<Rightarrow> nacos_env \<Rightarrow> ('w, 'a) config_client \<Rightarrow> (string \<Rightarrow> string \<Rightarrow> gerr + 'grp) \<Rightarrow> bool \<Rightarrow>
     ('w, 'a) nacos_client \<times> ('cons, 'grp, 'prod) kafka_state \<Rightarrow>
     ('grp option \<times> ('w, 'a) nacos_client \<times> ('cons, 'grp, 'prod) kafka_state) go" where
  "GetKafkaConsumer R E C NewConsumerGroup isNeedDiffGroup = (\<lambda>(c, k).
     if ks_group_once k then Ret (ks_group k, c, k)
     else
       go_bind (kafka_url R E C ''[GetKafkaConsumer]'' c) (\<lambda>(kafkaUrl, c).
         case NewConsumerGroup kafkaUrl (group_name E isNeedDiffGroup) of
           Inl e \<Rightarrow> Exit ''[GetKafkaConsumer]  Error creating consumer group''
         | Inr g \<Rightarrow> Ret (Some g, c, k\<lparr>ks_group_once := True, ks_group := Some g\<rparr>)))"

definition GetKafkaProducer ::
    "('w, 'a) get_retry \<Rightarrow> nacos_env \<Rightarrow> ('w, 'a) config_client \<Rightarrow> (string \<Rightarrow> gerr + 'prod) \<Rightarrow>
     ('w, 'a) nacos_client \<times> ('cons, 'grp, 'prod) kafka_state \<Rightarrow>
     ('prod option \<times> ('w, 'a) nacos_client \<times> ('cons, 'grp, 'prod) kafka_state) go" where
  "GetKafkaProducer R E C NewSyncProducer = (\<lambda>(c, k).
     if ks_producer_once k then Ret (ks_producer k, c, k)
     else
       go_bind (kafka_url R E C ''[GetKafkaClient]'' c) (\<lambda>(kafkaUrl, c).
         case NewSyncProducer kafkaUrl of
           Inl e \<Rightarrow> Exit ''[GetKafkaClient] sarama.NewConsumer error''
         | Inr p \<Rightarrow> Ret (Some p, c, k\<lparr>ks_producer_once := True, ks_producer := Some p\<rparr>)))"

text \<open>What closing at shutdown closes: the client and the group, each if it was made.\<close>

definition CloseKafkaClient :: "('cons \<Rightarrow> 'w \<Rightarrow> 'w) \<Rightarrow> ('grp \<Rightarrow> 'w \<Rightarrow> 'w) \<Rightarrow> ('cons, 'grp, 'prod) kafka_state \<Rightarrow> 'w \<Rightarrow> 'w" where
  "CloseKafkaClient close_client close_group k w =
     (let w = (case ks_client k of Some cl \<Rightarrow> close_client cl w | None \<Rightarrow> w)
      in case ks_group k of Some g \<Rightarrow> close_group g w | None \<Rightarrow> w)"

definition CloseKafkaProducer :: "('prod \<Rightarrow> 'w \<Rightarrow> 'w) \<Rightarrow> ('cons, 'grp, 'prod) kafka_state \<Rightarrow> 'w \<Rightarrow> 'w" where
  "CloseKafkaProducer close_producer k w =
     (case ks_producer k of Some p \<Rightarrow> close_producer p w | None \<Rightarrow> w)"

section \<open>Messages\<close>

record kafka_message =
  km_Topic :: string
  km_Key :: string
  km_Value :: string

definition SentTopicMessage ::
    "('w, 'a) get_retry \<Rightarrow> nacos_env \<Rightarrow> ('w, 'a) config_client \<Rightarrow> (string \<Rightarrow> gerr + 'prod) \<Rightarrow>
     ('prod \<Rightarrow> kafka_message \<Rightarrow> 'w \<Rightarrow> gerr option \<times> 'w) \<Rightarrow> string \<Rightarrow> string \<Rightarrow> string \<Rightarrow>
     ('w, 'a) nacos_client \<times> ('cons, 'grp, 'prod) kafka_state \<Rightarrow>
     (gerr option \<times> ('w, 'a) nacos_client \<times> ('cons, 'grp, 'prod) kafka_state) go" where
  "SentTopicMessage R E C NewSyncProducer Send topic key val ck =
     go_bind (GetKafkaProducer R E C NewSyncProducer ck) (\<lambda>(p, c, k).
       case p of
         None \<Rightarrow> Panic NilDeref
       | Some p \<Rightarrow>
           let (err, w) = Send p \<lparr>km_Topic = topic, km_Key = key, km_Value = val\<rparr> (nc_world c)
           in Ret (err, c\<lparr>nc_world := w\<rparr>, k))"

text \<open>The channel of a topic, made on the first request with a goroutine that consumes into it.\<close>

definition GetTopicMessageChan ::
    "string \<Rightarrow> bool \<Rightarrow> ('cons, 'grp, 'prod) kafka_state \<Rightarrow> (chan_id \<times> gerr option) \<times> ('cons, 'grp, 'prod) kafka_state" where
  "GetTopicMessageChan topic isNeedDiffGroup k =
     (case sm_Load (ks_chans k) topic of
        Some cc \<Rightarrow> ((cc, None), k)
      | None \<Rightarrow>
          let myTopicChan = ks_next_chan k in
          ((myTopicChan, None),
           k\<lparr>ks_next_chan := Suc myTopicChan,
             ks_spawned := ks_spawned k @ [(topic, isNeedDiffGroup, myTopicChan)],
             ks_chans := sm_Store topic myTopicChan (ks_chans k)\<rparr>))"

record MockSCRAMClient = scram_done :: bool

definition MockSCRAMClient_Begin :: "MockSCRAMClient \<Rightarrow> gerr option \<times> MockSCRAMClient" where
  "MockSCRAMClient_Begin m = (None, m)"

definition MockSCRAMClient_Step :: "string \<Rightarrow> MockSCRAMClient \<Rightarrow> (string \<times> gerr option) \<times> MockSCRAMClient" where
  "MockSCRAMClient_Step challenge m =
     (if challenge = [] then ((''ping'', None), m)
      else if challenge = ''pong'' then (([], None), m\<lparr>scram_done := True\<rparr>)
      else (([], Some (PlainErr ''failed to authenticate :('')), m))"

definition MockSCRAMClient_Done :: "MockSCRAMClient \<Rightarrow> bool" where
  "MockSCRAMClient_Done m = scram_done m"

section \<open>The metric loops\<close>

datatype metric_event = MsgEvent kafka_message | CtxDoneEvent

text \<open>\<open>parse\<close> is \<open>ParseFloat\<close>; the gauges are a map from service and pod to the value last set.\<close>

fun updateGoroutineCount ::
    "(string \<Rightarrow> gerr + 'f) \<Rightarrow> metric_event list \<Rightarrow> (string \<times> string \<rightharpoonup> 'f) \<Rightarrow> (string \<times> string \<rightharpoonup> 'f)" where
  "updateGoroutineCount parse [] gauges = gauges"
| "updateGoroutineCount parse (CtxDoneEvent # evs) gauges = gauges"
| "updateGoroutineCount parse (MsgEvent msg # evs) gauges =
     (case parse (km_Value msg) of
        Inl err \<Rightarrow> gauges
      | Inr count \<Rightarrow>
          let keys = split_byte (CHR ''/'') (km_Key msg) in
          updateGoroutineCount parse evs
            (if length keys = 2 then gauges((keys ! 0, keys ! 1) \<mapsto> count) else gauges))"

text \<open>One tick of \<open>InitPushPrometheus\<close>: whether the loop goes on. \<open>n\<close> is \<open>runtime.NumGoroutine()\<close>.\<close>

definition push_tick ::
    "('w, 'a) get_retry \<Rightarrow> nacos_env \<Rightarrow> ('w, 'a) config_client \<Rightarrow> (string \<Rightarrow> gerr + 'prod) \<Rightarrow>
     ('prod \<Rightarrow> kafka_message \<Rightarrow> 'w \<Rightarrow> gerr option \<times> 'w) \<Rightarrow> int \<Rightarrow>
     ('w, 'a) nacos_client \<times> ('cons, 'grp, 'prod) kafka_state \<Rightarrow>
     (bool \<times> ('w, 'a) nacos_client \<times> ('cons, 'grp, 'prod) kafka_state) go" where
  "push_tick R E C NewSyncProducer Send n ck =
     go_map (\<lambda>(err, ck). (err = None, ck))
       (SentTopicMessage R E C NewSyncProducer Send ''panda_goroutine_count''
          (ServerName E @ ''/'' @ PodName E) (int_text n) ck)"

section \<open>Which broker and which group\<close>

text \<open>
  The broker address is the service's own configuration when Nacos has one, and the common one only
  when asking for the former fails; the constructors go on only with a non-empty address. So a service
  whose own configuration exists but is empty leaves the process, whatever the common one says.
\<close>

lemma kafka_url_spec:
  assumes "GetConfig R E C (zero_ConfigParam\<lparr>cp_DataId := ServerName E @ ''.kafka.config''\<rparr>) c = ((own, err), c1)"
    and "GetConfig R E C (zero_ConfigParam\<lparr>cp_DataId := ''common.kafka.config'', cp_Group := ''DEFAULT_GROUP''\<rparr>) c1 =
      ((common, err'), c2)"
  shows "(\<forall>url c'. kafka_url R E C who c = Ret (url, c') \<longleftrightarrow>
      url \<noteq> [] \<and> (err = None \<and> url = own \<and> c' = c1 \<or> err \<noteq> None \<and> err' = None \<and> url = common \<and> c' = c2)) \<and>
    ((\<exists>m. kafka_url R E C who c = Exit m) \<longleftrightarrow>
      (if err = None then own = [] else err' \<noteq> None \<or> common = []))"
  using assms by (cases err; cases err') (auto simp: kafka_url_def)

lemma kafka_url_spec_witness:
  "\<exists>c'. kafka_url retry_twice example_env flaky_client ''[GetKafkaClient]'' (example_client\<lparr>nc_world := 1\<rparr>) =
     Ret (''prod'', c')"
proof -
  have get: "GetConfig retry_twice example_env flaky_client p c =
      ((vo_Group (default_group example_env (changeOwnConfigParam2vo p :: nat vo_ConfigParam)), None),
       c\<lparr>nc_world := nc_world c + 1, ConfigCacheMap := sm_Store p
          (vo_Group (default_group example_env (changeOwnConfigParam2vo p :: nat vo_ConfigParam))) (ConfigCacheMap c)\<rparr>)"
    if "nc_world c \<noteq> 0" for p and c :: "(nat, nat) nacos_client"
    using that by (simp add: GetConfig_spec[OF retry_twice_law] flaky_client_def Let_def)
  show ?thesis
    using kafka_url_spec[where R = retry_twice and E = example_env and C = flaky_client
        and c = "example_client\<lparr>nc_world := 1\<rparr>" and who = "''[GetKafkaClient]''", OF get get]
    by (simp add: default_group_def changeOwnConfigParam2vo_def zero_ConfigParam_def example_env_def)
qed

text \<open>
  The consumer group is fixed by the first call: once \<open>GetKafkaConsumer\<close> has returned, every later
  call returns the same group without asking Nacos or the broker, whichever kind of group it asks for.
\<close>

lemma group_fixed_by_first_call:
  assumes "GetKafkaConsumer R E C NewGroup flag (c, k) = Ret (g, c1, k1)"
    and "ks_group_once k \<longrightarrow> ks_group k \<noteq> None"
  shows "g \<noteq> None \<and> GetKafkaConsumer R' E' C' NewGroup' flag' (c1, k1) = Ret (g, c1, k1) \<and>
    (\<not> ks_group_once k \<longrightarrow> (\<exists>url. NewGroup url (group_name E flag) = Inr (the g)))"
proof (cases "ks_group_once k")
  case True
  with assms show ?thesis by (auto simp: GetKafkaConsumer_def)
next
  case False
  then obtain url c2 where "kafka_url R E C ''[GetKafkaConsumer]'' c = Ret (url, c2)"
    using assms(1) by (auto simp: GetKafkaConsumer_def go_simps)
  with False assms(1) show ?thesis
    by (cases "NewGroup url (group_name E flag)") (auto simp: GetKafkaConsumer_def)
qed

definition example_kafka :: "(nat, string, nat) kafka_state" where
  "example_kafka = \<lparr>ks_client = None, ks_client_once = False, ks_group = Some ''pod-1_consumer_group'',
     ks_group_once = True, ks_producer = None, ks_producer_once = False, ks_chans = [], ks_next_chan = 0,
     ks_spawned = []\<rparr>"

lemma group_fixed_by_first_call_witness:
  "GetKafkaConsumer retry_twice example_env flaky_client (\<lambda>u n. Inr n) False (example_client, example_kafka) =
     Ret (Some ''pod-1_consumer_group'', example_client, example_kafka)"
proof -
  have "GetKafkaConsumer retry_twice example_env flaky_client (\<lambda>u n. Inr n) True (example_client, example_kafka) =
      Ret (Some ''pod-1_consumer_group'', example_client, example_kafka)"
    by (simp add: GetKafkaConsumer_def example_kafka_def)
  from group_fixed_by_first_call[OF this] show ?thesis by (simp add: example_kafka_def)
qed

section \<open>One channel and one consumer per topic\<close>

definition chans_ok :: "('cons, 'grp, 'prod) kafka_state \<Rightarrow> bool" where
  "chans_ok k \<longleftrightarrow>
     sm_ok (ks_chans k) \<and>
     (\<forall>t cc. sm_Load (ks_chans k) t = Some cc \<longrightarrow> cc < ks_next_chan k) \<and>
     inj_on (sm_Load (ks_chans k)) (dom (sm_Load (ks_chans k))) \<and>
     distinct (map fst (ks_spawned k)) \<and>
     (\<forall>t cc. sm_Load (ks_chans k) t = Some cc \<longleftrightarrow> (\<exists>flag. (t, flag, cc) \<in> set (ks_spawned k)))"

text \<open>
  \<open>GetTopicMessageChan\<close> keeps this: the channels of different topics differ, and every channel was
  handed to exactly one consuming goroutine, which consumes its topic. It returns the topic's channel
  without error, and the same one when asked again, whichever group is asked for.
\<close>

lemma topic_channels:
  assumes "chans_ok k" and "GetTopicMessageChan topic flag k = ((cc, err), k')"
  shows "chans_ok k' \<and> err = None \<and> sm_Load (ks_chans k') topic = Some cc \<and>
    GetTopicMessageChan topic flag' k' = ((cc, None), k')"
proof (cases "sm_Load (ks_chans k) topic")
  case None
  let ?n = "ks_next_chan k"
  have eq: "cc = ?n" "err = None" "ks_spawned k' = ks_spawned k @ [(topic, flag, ?n)]" "ks_next_chan k' = Suc ?n"
    and ch: "ks_chans k' = sm_Store topic ?n (ks_chans k)"
    using None assms(2) by (auto simp: GetTopicMessageChan_def Let_def)
  have load: "sm_Load (ks_chans k') = (sm_Load (ks_chans k))(topic \<mapsto> ?n)"
    unfolding ch using assms(1) by (simp add: chans_ok_def sm.lookup_store)
  have old: "sm_Load (ks_chans k) t \<noteq> Some ?n" for t using assms(1) unfolding chans_ok_def by (metis less_irrefl)
  have old': "Some ?n \<noteq> sm_Load (ks_chans k) t" for t using old[of t] by metis
  have no: "topic \<notin> fst ` set (ks_spawned k)"
    using None assms(1) by (auto simp: chans_ok_def) (metis option.distinct(1))
  have "chans_ok k'"
    unfolding chans_ok_def load
  proof (intro conjI)
    show "sm_ok (ks_chans k')" using assms(1) by (simp add: ch chans_ok_def sm.inv_store)
    show "\<forall>t cc. ((sm_Load (ks_chans k))(topic \<mapsto> ?n)) t = Some cc \<longrightarrow> cc < ks_next_chan k'"
      using assms(1) by (auto simp: chans_ok_def eq less_Suc_eq)
    show "inj_on ((sm_Load (ks_chans k))(topic \<mapsto> ?n)) (dom ((sm_Load (ks_chans k))(topic \<mapsto> ?n)))"
      using assms(1) old old' by (simp add: chans_ok_def inj_on_def dom_def)
    show "distinct (map fst (ks_spawned k'))" using assms(1) no by (auto simp: eq chans_ok_def)
    show "\<forall>t cc. ((sm_Load (ks_chans k))(topic \<mapsto> ?n)) t = Some cc \<longleftrightarrow> (\<exists>flag. (t, flag, cc) \<in> set (ks_spawned k'))"
    proof (intro allI)
      fix t cc'
      show "((sm_Load (ks_chans k))(topic \<mapsto> ?n)) t = Some cc' \<longleftrightarrow> (\<exists>flag. (t, flag, cc') \<in> set (ks_spawned k'))"
      proof (cases "t = topic")
        case True
        have "(topic, f', c') \<notin> set (ks_spawned k)" for f' c' using no by force
        with True show ?thesis by (auto simp: eq)
      next
        case False
        with assms(1) show ?thesis by (simp add: eq chans_ok_def)
      qed
    qed
  qed
  with eq load show ?thesis by (simp add: GetTopicMessageChan_def)
next
  case (Some c)
  with assms show ?thesis by (auto simp: GetTopicMessageChan_def)
qed

lemma topic_channels_witness:
  "\<exists>k'. GetTopicMessageChan ''t'' True example_kafka = ((0, None), k') \<and>
     GetTopicMessageChan ''t'' False k' = ((0, None), k') \<and> chans_ok k'"
proof -
  have ok: "chans_ok example_kafka" by (simp add: chans_ok_def example_kafka_def sm_Load_map_of)
  obtain k' where g: "GetTopicMessageChan ''t'' True example_kafka = ((0, None), k')"
    by (simp add: GetTopicMessageChan_def example_kafka_def sm_Load_map_of)
  from topic_channels[OF ok g] g show ?thesis by blast
qed

section \<open>The metric pipeline\<close>

lemma update_split:
  "list_all (\<lambda>ev. case ev of MsgEvent m \<Rightarrow> (\<exists>v. parse (km_Value m) = Inr v) | CtxDoneEvent \<Rightarrow> False) pre \<Longrightarrow>
   updateGoroutineCount parse (pre @ evs) g = updateGoroutineCount parse evs (updateGoroutineCount parse pre g)"
  by (induction parse pre g rule: updateGoroutineCount.induct) (auto simp: Let_def)

lemma GetKafkaProducer_stored:
  assumes "GetKafkaProducer R E C NewSyncProducer ck = Ret (q, c, k)"
  shows "ks_producer k = q"
proof -
  obtain c0 k0 where ck: "ck = (c0, k0)" by (cases ck)
  show ?thesis
  proof (cases "ks_producer_once k0")
    case True
    with assms show ?thesis by (auto simp: ck GetKafkaProducer_def)
  next
    case False
    with assms obtain url c1 where "(case NewSyncProducer url of
        Inl e \<Rightarrow> Exit ''[GetKafkaClient] sarama.NewConsumer error''
      | Inr p \<Rightarrow> Ret (Some p, c1, k0\<lparr>ks_producer_once := True, ks_producer := Some p\<rparr>)) = Ret (q, c, k)"
      by (auto simp: ck GetKafkaProducer_def go_bind_Ret_iff)
    then show ?thesis by (cases "NewSyncProducer url") auto
  qed
qed

lemma push_tick_sends:
  assumes "push_tick R E C NewSyncProducer Send n ck = Ret (True, c', k')"
  obtains p w0 where "ks_producer k' = Some p"
    and "Send p \<lparr>km_Topic = ''panda_goroutine_count'', km_Key = ServerName E @ ''/'' @ PodName E, km_Value = int_text n\<rparr> w0 =
      (None, nc_world c')"
proof -
  define m where "m = \<lparr>km_Topic = ''panda_goroutine_count'', km_Key = ServerName E @ ''/'' @ PodName E, km_Value = int_text n\<rparr>"
  obtain q c k where g: "GetKafkaProducer R E C NewSyncProducer ck = Ret (q, c, k)"
    and s: "(case q of None \<Rightarrow> Panic NilDeref
       | Some p \<Rightarrow> let (err, w) = Send p m (nc_world c) in Ret (err, c\<lparr>nc_world := w\<rparr>, k)) = Ret (None, c', k')"
    using assms unfolding push_tick_def SentTopicMessage_def m_def[symmetric] by (auto simp: go_simps)
  from s obtain p where p: "q = Some p" by (cases q) auto
  have "ks_producer k = q" by (rule GetKafkaProducer_stored[OF g])
  with s p that show thesis unfolding m_def by (auto split: prod.splits)
qed

text \<open>
  When the push loop of a pod has sent its count, what the producer was given is one message of the topic
  that, wherever it comes in the collector's stream, sets the gauge of exactly that service and pod to the
  value it parses to, provided neither name has a slash. The first message whose value does not parse ends the
  collection for good: no later message has any effect.
\<close>

lemma metric_pipeline:
  assumes "CHR ''/'' \<notin> set (ServerName E)" and "CHR ''/'' \<notin> set (PodName E)"
    and "push_tick R E C NewSyncProducer Send n ck = Ret (True, c', k')" and "parse (int_text n) = Inr v"
    and "list_all (\<lambda>ev. case ev of MsgEvent m \<Rightarrow> (\<exists>v. parse (km_Value m) = Inr v) | CtxDoneEvent \<Rightarrow> False) pre"
    and "parse (km_Value bad) = Inl e"
  shows "\<exists>p m w0. ks_producer k' = Some p \<and> Send p m w0 = (None, nc_world c') \<and> km_Topic m = ''panda_goroutine_count'' \<and>
    updateGoroutineCount parse (pre @ [MsgEvent m, MsgEvent bad] @ post) g =
      (updateGoroutineCount parse pre g)((ServerName E, PodName E) \<mapsto> v)"
proof -
  let ?m = "\<lparr>km_Topic = ''panda_goroutine_count'', km_Key = ServerName E @ ''/'' @ PodName E, km_Value = int_text n\<rparr>"
  have "split_byte (CHR ''/'') (ServerName E @ ''/'' @ PodName E) = [ServerName E, PodName E]"
    using assms(1,2) by (simp add: split_byte_two_iff)
  then have "updateGoroutineCount parse (pre @ [MsgEvent ?m, MsgEvent bad] @ post) g =
      (updateGoroutineCount parse pre g)((ServerName E, PodName E) \<mapsto> v)"
    using assms(4,6) by (simp add: update_split[OF assms(5)])
  moreover obtain p w0 where "ks_producer k' = Some p" "Send p ?m w0 = (None, nc_world c')"
    by (rule push_tick_sends[OF assms(3)])
  ultimately show ?thesis by (intro exI[of _ p] exI[of _ ?m] exI[of _ w0]) simp
qed

lemma metric_pipeline_witness:
  "\<exists>p m w0. p = (7::nat) \<and> (None, Suc w0) = (None :: gerr option, Suc (nc_world example_client)) \<and>
     km_Topic m = ''panda_goroutine_count'' \<and>
   updateGoroutineCount (\<lambda>t. if t = ''x'' then Inl (PlainErr ''syntax'') else Inr (length t))
     [MsgEvent m, MsgEvent \<lparr>km_Topic = ''t'', km_Key = ''k'', km_Value = ''x''\<rparr>,
      MsgEvent \<lparr>km_Topic = ''t'', km_Key = ''a/b'', km_Value = ''1''\<rparr>] Map.empty =
   [(''panda-auth'', ''pod-1'') \<mapsto> 2]"
proof -
  let ?k = "example_kafka\<lparr>ks_producer_once := True, ks_producer := Some (7::nat)\<rparr>"
  have v: "int_text 42 = ''42''"
    by (simp add: int_text_def nat_text.simps[of 42] nat_text.simps[of 4] char_of_eq_iff take_bit_eq_mod)
  have t: "push_tick retry_twice example_env flaky_client (\<lambda>u. Inr 7) (\<lambda>p m w. (None, Suc w)) 42 (example_client, ?k) =
      Ret (True, example_client\<lparr>nc_world := Suc (nc_world example_client)\<rparr>, ?k)"
    by (simp add: push_tick_def SentTopicMessage_def GetKafkaProducer_def)
  show ?thesis
    using metric_pipeline[OF _ _ t, of "\<lambda>t. if t = ''x'' then Inl (PlainErr ''syntax'') else Inr (length t)" 2 "[]"
        "\<lparr>km_Topic = ''t'', km_Key = ''k'', km_Value = ''x''\<rparr>" _
        "[MsgEvent \<lparr>km_Topic = ''t'', km_Key = ''a/b'', km_Value = ''1''\<rparr>]" Map.empty]
    by (auto simp: example_env_def v)
qed

end
