(* ===== verification/Requests.thy ===== *)
theory Requests
  imports Interceptors Holmes Kafka
begin

text \<open>
  The readers of HTTP requests and the remaining helpers of \<open>common/utils/utils.go\<close>, the echo handler of
  \<open>panda-account\<close>, and the closing of the clients at a signal (\<open>common/interceptor/init.go\<close>).

  Bodies of requests are a type \<open>'b\<close> with \<open>io.ReadAll\<close> and \<open>io.NopCloser(bytes.NewBuffer(s))\<close>; \<open>lo.Assign\<close>, the
  JSON and gob codecs, MD5 and dialling are parameters.
\<close>

section \<open>Reading requests\<close>

record 'b http_body_api =
  ReadAll :: "'b \<Rightarrow> (gerr + string) \<times> 'b"
  BufferBody :: "string \<Rightarrow> 'b"

record 'b raw_request =
  rq_Query :: md
  rq_PostForm :: md
  rq_Body :: 'b

definition GetRequestKVParamStr :: "(md \<Rightarrow> md \<Rightarrow> md) \<Rightarrow> (md \<Rightarrow> gerr + string) \<Rightarrow> 'b raw_request \<Rightarrow> string" where
  "GetRequestKVParamStr lo_Assign marshal req =
     (let allParams = lo_Assign (rq_Query req) (rq_PostForm req) in
      if length allParams = 0 then []
      else case marshal allParams of Inl err \<Rightarrow> [] | Inr paramsJSON \<Rightarrow> paramsJSON)"

definition GetRequestBodyParamStr :: "'b http_body_api \<Rightarrow> 'b raw_request \<Rightarrow> string \<times> 'b raw_request" where
  "GetRequestBodyParamStr A req =
     (case ReadAll A (rq_Body req) of
        (Inl err, body) \<Rightarrow> ([], req\<lparr>rq_Body := body\<rparr>)
      | (Inr content, body) \<Rightarrow> (content, req\<lparr>rq_Body := BufferBody A content\<rparr>))"

definition body_law :: "'b http_body_api \<Rightarrow> bool" where
  "body_law A \<longleftrightarrow> (\<forall>s. fst (ReadAll A (BufferBody A s)) = Inr s)"

text \<open>Reading the body for the trace leaves it readable for the handler, with the same content.\<close>

lemma GetRequestBodyParamStr_keeps_body:
  assumes "body_law A" and "GetRequestBodyParamStr A req = (re, req')" and "fst (ReadAll A (rq_Body req)) = Inr content"
  shows "re = content \<and> fst (ReadAll A (rq_Body req')) = Inr content \<and>
    rq_Query req' = rq_Query req \<and> rq_PostForm req' = rq_PostForm req"
  using assms by (cases "ReadAll A (rq_Body req)") (auto simp: GetRequestBodyParamStr_def body_law_def)

lemma GetRequestBodyParamStr_twice:
  assumes "body_law A" and "GetRequestBodyParamStr A req = (re, req')" and "fst (ReadAll A (rq_Body req)) = Inr content"
  shows "fst (GetRequestBodyParamStr A req') = re"
  using GetRequestBodyParamStr_keeps_body[OF assms]
  by (cases "ReadAll A (rq_Body req')") (auto simp: GetRequestBodyParamStr_def)

text \<open>\<open>handlerPostTest\<close>: the body and the parsed form, or the reading error.\<close>

datatype post_reply = PostError string | PostEcho string md

definition handlerPostTest :: "'b http_body_api \<Rightarrow> err_api \<Rightarrow> 'b raw_request \<Rightarrow> int \<times> post_reply" where
  "handlerPostTest A E req =
     (case fst (ReadAll A (rq_Body req)) of
        Inl err \<Rightarrow> (400, PostError (err_text (ea_fmt_status E) err))
      | Inr content \<Rightarrow> (200, PostEcho content (rq_PostForm req)))"

lemma handlerPostTest_after_interceptor:
  assumes "body_law A" and "GetRequestBodyParamStr A req = (re, req')" and "fst (ReadAll A (rq_Body req)) = Inr content"
  shows "handlerPostTest A E req' = handlerPostTest A E req"
  using GetRequestBodyParamStr_keeps_body[OF assms] assms(3) by (simp add: handlerPostTest_def)

section \<open>Other helpers\<close>

text \<open>
  \<open>DeepCopy\<close> of a non-nil value. \<open>T_is_type\<close>: the type argument is the dynamic type of the value; otherwise it is
  an interface, which the pointer to the copy implements when \<open>ptr_implements\<close>. \<open>zero\<close> is \<open>T\<close>'s zero value.
\<close>

definition DeepCopy ::
    "('v \<Rightarrow> gerr + 'bytes) \<Rightarrow> ('bytes \<Rightarrow> gerr + 'v) \<Rightarrow> bool \<Rightarrow> bool \<Rightarrow> ('v \<Rightarrow> 'v) \<Rightarrow> 'v \<Rightarrow> 'v \<Rightarrow> 'v \<times> gerr option" where
  "DeepCopy encode decode T_is_type ptr_implements pointer_to zero src =
     (case encode src of
        Inl err \<Rightarrow> (zero, Some err)
      | Inr buf \<Rightarrow>
         (case decode buf of
            Inl err \<Rightarrow> (zero, Some err)
          | Inr dest \<Rightarrow>
              (if T_is_type then dest else if ptr_implements then pointer_to dest else zero, None)))"

lemma DeepCopy_roundtrip:
  "encode src = Inr buf \<Longrightarrow> decode buf = Inr src \<Longrightarrow> DeepCopy encode decode True i p zero src = (src, None)"
  by (simp add: DeepCopy_def)

definition Ping :: "(string \<Rightarrow> gerr option) \<Rightarrow> string \<Rightarrow> bool" where
  "Ping DialTimeout address = (case DialTimeout address of Some err \<Rightarrow> False | None \<Rightarrow> True)"

text \<open>\<open>%x\<close> of a byte array: two digits for each byte.\<close>

definition hex_digit :: "nat \<Rightarrow> char" where
  "hex_digit d = char_of (if d < 10 then 48 + d else 87 + d)"

definition StringToMd5String :: "(string \<Rightarrow> nat list) \<Rightarrow> string \<Rightarrow> string" where
  "StringToMd5String md5_Sum str = concat (map (\<lambda>b. [hex_digit (b div 16), hex_digit (b mod 16)]) (md5_Sum str))"

lemma hex_digit_inj: "d < 16 \<Longrightarrow> e < 16 \<Longrightarrow> hex_digit d = hex_digit e \<Longrightarrow> d = e"
proof -
  assume "d < 16" "e < 16" "hex_digit d = hex_digit e"
  then have "(of_char (hex_digit d) :: nat) = of_char (hex_digit e)" by simp
  with \<open>d < 16\<close> \<open>e < 16\<close> show "d = e" by (auto simp: hex_digit_def split: if_splits)
qed

text \<open>Different sums have different texts, so comparing the texts compares the sums.\<close>

lemma StringToMd5String_eq_iff:
  assumes "length (md5_Sum s) = 16" "length (md5_Sum t) = 16"
    and "\<forall>b \<in> set (md5_Sum s) \<union> set (md5_Sum t). b < 256"
  shows "StringToMd5String md5_Sum s = StringToMd5String md5_Sum t \<longleftrightarrow> md5_Sum s = md5_Sum t"
proof -
  have "length bs = length cs \<Longrightarrow> \<forall>b \<in> set bs \<union> set cs. b < 256 \<Longrightarrow>
      concat (map (\<lambda>b. [hex_digit (b div 16), hex_digit (b mod 16)]) bs) =
      concat (map (\<lambda>b. [hex_digit (b div 16), hex_digit (b mod 16)]) cs) \<Longrightarrow> bs = cs" for bs cs
  proof (induction bs cs rule: list_induct2)
    case (Cons b bs c cs)
    have l: "b < 256" "c < 256" using Cons.prems(1) by simp_all
    have "b div 16 = c div 16" "b mod 16 = c mod 16"
      using Cons.prems(2) l by (auto intro!: hex_digit_inj simp: less_mult_imp_div_less)
    then have "b = c" by (metis div_mult_mod_eq)
    with Cons show ?case by simp
  qed simp
  then show ?thesis using assms by (auto simp: StringToMd5String_def)
qed

section \<open>Shutdown\<close>

text \<open>
  What the goroutine of \<open>init\<close> closes when the signal comes, in its order, before \<open>os.Exit(1)\<close>.
  \<open>ClosePrometheus\<close> asks the context \<open>initCtx\<close> for its channel and does nothing else.
\<close>

definition ClosePrometheus :: "'w \<Rightarrow> 'w" where
  "ClosePrometheus w = w"

definition shutdown ::
    "('w \<Rightarrow> 'w) \<Rightarrow> ('cons \<Rightarrow> 'w \<Rightarrow> 'w) \<Rightarrow> ('grp \<Rightarrow> 'w \<Rightarrow> 'w) \<Rightarrow> ('prod \<Rightarrow> 'w \<Rightarrow> 'w) \<Rightarrow>
     'v holmes_client \<times> ('cons, 'grp, 'prod) kafka_state \<times> 'w \<Rightarrow> 'v holmes_client \<times> 'w" where
  "shutdown close_tracer close_client close_group close_producer = (\<lambda>(h, k, w).
     let w = close_tracer w;
         h = StopHolmes h;
         w = CloseKafkaClient close_client close_group k w;
         w = CloseKafkaProducer close_producer k w
     in (h, ClosePrometheus w))"

lemma shutdown_stops_holmes:
  "shutdown ct cc cg cp (h, k, w) = (h', w') \<Longrightarrow> hs_trigger (nc_app h') = None"
  by (auto simp: shutdown_def StopHolmes_def stopTriggerHolmes_def Let_def split: option.splits)

end
