(* ===== verification/PubSub.thy ===== *)
theory PubSub
  imports GoPrelude "HOL-Library.Sublist"
begin

text \<open>
  The two publish/subscribe servers, \<open>publish/v1/main.go\<close> and \<open>publish/v2/main.go\<close>.

  A channel is a number; its content is a \<open>chan_st\<close>. In version 2 every operation on the subscriber map
  holds the mutex, so operations are atomic steps and what interleaves them is \<open>v2_run\<close>, an
  inductive relation on the events so far and the state; a call of \<open>Subscribe\<close> is identified by the
  channel it made. Version 1 has no lock; of it the model has the two operations and their loops.
\<close>

type_synonym chan = nat

record 'm chan_st =
  ch_buf :: "'m list"
  ch_closed :: bool

definition new_chan :: "'m chan_st" where
  "new_chan = \<lparr>ch_buf = [], ch_closed = False\<rparr>"

text \<open>\<open>select { case ch <- m: default: }\<close> on a channel of capacity 1, and \<open>close(ch)\<close>.\<close>

definition try_send :: "'m \<Rightarrow> 'm chan_st \<Rightarrow> 'm chan_st go" where
  "try_send m c =
     (if ch_closed c then Panic SendOnClosed
      else Ret (if length (ch_buf c) < 1 then c\<lparr>ch_buf := ch_buf c @ [m]\<rparr> else c))"

definition close_st :: "'m chan_st \<Rightarrow> 'm chan_st go" where
  "close_st c = (if ch_closed c then Panic CloseOfClosed else Ret (c\<lparr>ch_closed := True\<rparr>))"

section \<open>Version 1\<close>

record 'm v1_server =
  v1_subscribers :: "chan list"
  v1_chans :: "chan \<Rightarrow> 'm chan_st"
  v1_next :: chan

definition v1_NewPubSubServer :: "'m v1_server" where
  "v1_NewPubSubServer = \<lparr>v1_subscribers = [], v1_chans = (\<lambda>_. new_chan), v1_next = 0\<rparr>"

definition v1_subscribe_begin :: "'m v1_server \<Rightarrow> chan \<times> 'm v1_server" where
  "v1_subscribe_begin s =
     (let ch = v1_next s in
      (ch, s\<lparr>v1_next := Suc ch, v1_chans := (v1_chans s)(ch := new_chan), v1_subscribers := v1_subscribers s @ [ch]\<rparr>))"

definition v1_subscribe_exit :: "chan \<Rightarrow> 'm v1_server \<Rightarrow> 'm v1_server go" where
  "v1_subscribe_exit ch s =
     go_map (\<lambda>c. s\<lparr>v1_chans := (v1_chans s)(ch := c), v1_subscribers := remove1 ch (v1_subscribers s)\<rparr>)
       (close_st (v1_chans s ch))"

text \<open>
  One turn of the receiving loop of \<open>Subscribe\<close>: its \<open>select\<close> takes any case that is ready, and the default when
  none is. A turn goes on with the server's state, or returns \<open>Subscribe\<close>'s error through the deferred function.
  \<open>send\<close> is \<open>stream.Send\<close>, \<open>ctx_done\<close> tells whether the stream's context is.
\<close>

datatype 's v1_turn_result = GoesOn 's | Leaves "gerr option" "'s go"

inductive v1_turn ::
    "('m \<Rightarrow> gerr option) \<Rightarrow> bool \<Rightarrow> chan \<Rightarrow> 'm v1_server \<Rightarrow> 'm v1_server v1_turn_result \<Rightarrow> bool"
    for send ctx_done ch s where
  turn_sent: "ch_buf (v1_chans s ch) = m # rest \<Longrightarrow> send m = None \<Longrightarrow>
    v1_turn send ctx_done ch s (GoesOn (s\<lparr>v1_chans := (v1_chans s)(ch := (v1_chans s ch)\<lparr>ch_buf := rest\<rparr>)\<rparr>))"
| turn_send_error: "ch_buf (v1_chans s ch) = m # rest \<Longrightarrow> send m = Some err \<Longrightarrow>
    v1_turn send ctx_done ch s
      (Leaves (Some err) (v1_subscribe_exit ch (s\<lparr>v1_chans := (v1_chans s)(ch := (v1_chans s ch)\<lparr>ch_buf := rest\<rparr>)\<rparr>)))"
| turn_closed: "ch_buf (v1_chans s ch) = [] \<Longrightarrow> ch_closed (v1_chans s ch) \<Longrightarrow>
    v1_turn send ctx_done ch s (Leaves (Some (StatusErr 14 ''subscriber closed'')) (v1_subscribe_exit ch s))"
| turn_done: "ctx_done \<Longrightarrow> v1_turn send ctx_done ch s (Leaves None (v1_subscribe_exit ch s))"
| turn_default: "ch_buf (v1_chans s ch) = [] \<Longrightarrow> \<not> ch_closed (v1_chans s ch) \<Longrightarrow> \<not> ctx_done \<Longrightarrow>
    v1_turn send ctx_done ch s (GoesOn s)"

inductive_cases v1_turnE: "v1_turn send ctx_done ch s r"

text \<open>
  The inner loop of \<open>Publish\<close> has no exit. \<open>others i\<close> is what other goroutines do to the channel after
  the \<open>i\<close>-th round; \<open>None\<close> is a call that does not return.
\<close>

partial_function (option) v1_send_loop ::
    "(nat \<Rightarrow> 'm chan_st \<Rightarrow> 'm chan_st) \<Rightarrow> 'm \<Rightarrow> nat \<Rightarrow> 'm chan_st \<Rightarrow> 'm chan_st go option" where
  "v1_send_loop others m i c =
     (case try_send m c of
        Ret c' \<Rightarrow> v1_send_loop others m (Suc i) (others i c')
      | Panic p \<Rightarrow> Some (Panic p)
      | Exit e \<Rightarrow> Some (Exit e))"

fun v1_publish_loop ::
    "(nat \<Rightarrow> 'm chan_st \<Rightarrow> 'm chan_st) \<Rightarrow> 'm \<Rightarrow> chan list \<Rightarrow> (chan \<Rightarrow> 'm chan_st) \<Rightarrow> 'm go option" where
  "v1_publish_loop others m [] cs = Some (Ret m)"
| "v1_publish_loop others m (ch # chs) cs =
     Option.bind (v1_send_loop others m 0 (cs ch)) (\<lambda>r.
       case r of
         Ret c \<Rightarrow> v1_publish_loop others m chs (cs(ch := c))
       | Panic p \<Rightarrow> Some (Panic p)
       | Exit e \<Rightarrow> Some (Exit e))"

definition v1_Publish :: "(nat \<Rightarrow> 'm chan_st \<Rightarrow> 'm chan_st) \<Rightarrow> 'm \<Rightarrow> 'm v1_server \<Rightarrow> 'm go option" where
  "v1_Publish others req s = v1_publish_loop others req (v1_subscribers s) (v1_chans s)"

section \<open>Version 2\<close>

record message =
  msg_Topic :: string
  msg_Content :: string

record v2_server =
  subscribers :: "string \<rightharpoonup> chan list"
  messageQueue :: "message list"
  vs_chans :: "chan \<Rightarrow> message chan_st"
  vs_next :: chan
  vs_running :: "chan \<rightharpoonup> string \<times> string"     \<comment> \<open>calls of \<open>Subscribe\<close> in their loop: client and topic\<close>
  vs_sent :: "chan \<Rightarrow> message list"                 \<comment> \<open>what each has sent on its stream\<close>

definition NewPubSubServer :: v2_server where
  "NewPubSubServer =
     \<lparr>subscribers = Map.empty, messageQueue = [], vs_chans = (\<lambda>_. new_chan), vs_next = 0,
      vs_running = Map.empty, vs_sent = (\<lambda>_. [])\<rparr>"

definition addSubscriber :: "string \<Rightarrow> string \<Rightarrow> chan \<Rightarrow> v2_server \<Rightarrow> v2_server" where
  "addSubscriber clientID topic ch s =
     (let s = (if subscribers s topic = None then s\<lparr>subscribers := (subscribers s)(topic \<mapsto> [])\<rparr> else s);
          chs = the (subscribers s topic)
      in s\<lparr>subscribers := (subscribers s)(topic \<mapsto> (if ch \<in> set chs then chs else chs @ [ch]))\<rparr>)"

definition close_chan :: "chan \<Rightarrow> v2_server \<Rightarrow> v2_server go" where
  "close_chan ch s = go_map (\<lambda>c. s\<lparr>vs_chans := (vs_chans s)(ch := c)\<rparr>) (close_st (vs_chans s ch))"

definition removeSubscriber :: "string \<Rightarrow> string \<Rightarrow> chan \<Rightarrow> v2_server \<Rightarrow> v2_server go" where
  "removeSubscriber clientID topic ch s =
     (case subscribers s topic of
        Some chs \<Rightarrow> close_chan ch (s\<lparr>subscribers := (subscribers s)(topic \<mapsto> remove1 ch chs)\<rparr>)
      | None \<Rightarrow> Ret s)"

definition send_to :: "message \<Rightarrow> chan \<Rightarrow> v2_server \<Rightarrow> v2_server go" where
  "send_to req ch s = go_map (\<lambda>c. s\<lparr>vs_chans := (vs_chans s)(ch := c)\<rparr>) (try_send req (vs_chans s ch))"

definition Publish :: "message \<Rightarrow> v2_server \<Rightarrow> v2_server go" where
  "Publish req s =
     (case subscribers s (msg_Topic req) of
        Some chs \<Rightarrow> go_fold (send_to req) chs s
      | None \<Rightarrow> Ret s)"

text \<open>\<open>broadcastMessages\<close> takes the messages of its own server's queue.\<close>

definition broadcast_step :: "v2_server \<Rightarrow> v2_server go option" where
  "broadcast_step s =
     (case messageQueue s of
        [] \<Rightarrow> None
      | msg # rest \<Rightarrow> Some (Publish msg (s\<lparr>messageQueue := rest\<rparr>)))"

text \<open>\<open>Subscribe\<close>: its beginning, one turn of its loop, and its deferred function.\<close>

definition subscribe_begin :: "string \<Rightarrow> string \<Rightarrow> v2_server \<Rightarrow> v2_server" where
  "subscribe_begin clientId topic s =
     (let ch = vs_next s;
          s = s\<lparr>vs_next := Suc ch, vs_chans := (vs_chans s)(ch := new_chan)\<rparr>;
          s = addSubscriber clientId topic ch s
      in s\<lparr>vs_running := (vs_running s)(ch \<mapsto> (clientId, topic))\<rparr>)"

definition subscribe_exit :: "chan \<Rightarrow> string \<Rightarrow> string \<Rightarrow> v2_server \<Rightarrow> v2_server go" where
  "subscribe_exit ch clientId topic s =
     go_bind (removeSubscriber clientId topic ch s) (\<lambda>s.
       go_map (\<lambda>s. s\<lparr>vs_running := (vs_running s)(ch := None)\<rparr>) (close_chan ch s))"

definition receive :: "chan \<Rightarrow> v2_server \<Rightarrow> v2_server" where
  "receive ch s = s\<lparr>vs_chans := (vs_chans s)(ch := (vs_chans s ch)\<lparr>ch_buf := tl (ch_buf (vs_chans s ch))\<rparr>)\<rparr>"

definition stream_Send :: "chan \<Rightarrow> message \<Rightarrow> v2_server \<Rightarrow> v2_server" where
  "stream_Send ch msg s = s\<lparr>vs_sent := (vs_sent s)(ch := vs_sent s ch @ [msg])\<rparr>"

datatype ps_event = EBegin chan string | EPublish message | ESent chan | EExit chan

text \<open>One atomic step of some goroutine of the server, with its outcome.\<close>

inductive v2_step :: "v2_server \<Rightarrow> ps_event \<Rightarrow> v2_server go \<Rightarrow> bool" where
  step_begin: "v2_step s (EBegin (vs_next s) topic) (Ret (subscribe_begin clientId topic s))"
| step_publish: "v2_step s (EPublish req) (Publish req s)"
| step_sent: "vs_running s ch = Some (clientId, topic) \<Longrightarrow> ch_buf (vs_chans s ch) = msg # rest \<Longrightarrow>
    v2_step s (ESent ch) (Ret (stream_Send ch msg (receive ch s)))"
| step_send_error: "vs_running s ch = Some (clientId, topic) \<Longrightarrow> ch_buf (vs_chans s ch) = msg # rest \<Longrightarrow>
    v2_step s (EExit ch) (subscribe_exit ch clientId topic (receive ch s))"
| step_done: "vs_running s ch = Some (clientId, topic) \<Longrightarrow>
    v2_step s (EExit ch) (subscribe_exit ch clientId topic s)"

inductive_cases v2_stepE: "v2_step s ev r"

inductive v2_run :: "ps_event list \<Rightarrow> v2_server \<Rightarrow> bool" where
  run_init: "v2_run [] NewPubSubServer"
| run_step: "v2_run evs s \<Longrightarrow> v2_step s ev (Ret s') \<Longrightarrow> v2_run (evs @ [ev]) s'"

section \<open>Version 1 cannot publish\<close>

lemma v1_send_loop_never:
  assumes "v1_send_loop others m i c = Some r"
  shows "\<not> go_returns r"
proof (rule v1_send_loop.raw_induct[where P = "\<lambda>others m i c r. \<not> go_returns r", OF _ assms])
  fix loop :: "(nat \<Rightarrow> 'a chan_st \<Rightarrow> 'a chan_st) \<Rightarrow> 'a \<Rightarrow> nat \<Rightarrow> 'a chan_st \<Rightarrow> 'a chan_st go option"
  fix others m i c r
  assume IH: "\<And>others m i c r. loop others m i c = Some r \<Longrightarrow> \<not> go_returns r"
    and "(case try_send m c of Ret c' \<Rightarrow> loop others m (Suc i) (others i c')
      | Panic p \<Rightarrow> Some (Panic p) | Exit e \<Rightarrow> Some (Exit e)) = Some r"
  then show "\<not> go_returns r" by (cases "try_send m c") auto
qed

text \<open>
  C40: In version 1 a call of \<open>Publish\<close> returns its message only when nobody has subscribed: with a
  subscriber the inner loop offers the message again and again, whatever the subscriber does in the
  meantime, and ends at best in a panic.
\<close>

theorem v1_publish_never_returns:
  "v1_Publish others req s = Some (Ret m) \<longleftrightarrow> v1_subscribers s = [] \<and> m = req"
proof (cases "v1_subscribers s")
  case Nil
  then show ?thesis by (auto simp: v1_Publish_def)
next
  case (Cons ch chs)
  have "v1_send_loop others req 0 c \<noteq> Some (Ret c')" for c c'
    using v1_send_loop_never by fastforce
  with Cons show ?thesis
    by (auto simp: v1_Publish_def bind_eq_Some_conv split: go.splits)
qed

text \<open>
  Some case of the \<open>select\<close> is always ready. A call of \<open>Subscribe\<close> touches no channel but its own and, while its
  channel is open, leaves without a panic, as in version 1 nobody else closes the channel.
\<close>

lemma v1_turn_ready: "\<exists>r. v1_turn send ctx_done ch s r"
proof (cases "ch_buf (v1_chans s ch)")
  case Nil
  then show ?thesis by (cases "ch_closed (v1_chans s ch)"; cases ctx_done) (blast intro: v1_turn.intros)+
next
  case (Cons m rest)
  then show ?thesis by (cases "send m") (blast intro: v1_turn.intros)+
qed

lemma v1_turn_effect:
  assumes "v1_turn send ctx_done ch s r" and "\<not> ch_closed (v1_chans s ch)"
  shows "case r of
      GoesOn s' \<Rightarrow> (\<forall>c. c \<noteq> ch \<longrightarrow> v1_chans s' c = v1_chans s c) \<and> \<not> ch_closed (v1_chans s' ch) \<and>
        v1_subscribers s' = v1_subscribers s
    | Leaves err out \<Rightarrow> (\<exists>s'. out = Ret s' \<and> (\<forall>c. c \<noteq> ch \<longrightarrow> v1_chans s' c = v1_chans s c) \<and>
        ch_closed (v1_chans s' ch) \<and> v1_subscribers s' = remove1 ch (v1_subscribers s))"
  using assms by (auto elim!: v1_turnE simp: v1_subscribe_exit_def close_st_def)

section \<open>Version 2: publishing\<close>

definition offer :: "message \<Rightarrow> message chan_st \<Rightarrow> message chan_st" where
  "offer m c = (if ch_buf c = [] then c\<lparr>ch_buf := [m]\<rparr> else c)"

lemma try_send_open: "\<not> ch_closed c \<Longrightarrow> try_send m c = Ret (offer m c)"
  by (simp add: try_send_def offer_def)

lemma publish_fold:
  "distinct chs \<Longrightarrow> \<forall>ch \<in> set chs. \<not> ch_closed (vs_chans s ch) \<Longrightarrow>
   go_fold (send_to req) chs s =
     Ret (s\<lparr>vs_chans := (\<lambda>ch. if ch \<in> set chs then offer req (vs_chans s ch) else vs_chans s ch)\<rparr>)"
proof (induction chs arbitrary: s)
  case (Cons ch chs)
  define s1 where "s1 = s\<lparr>vs_chans := (vs_chans s)(ch := offer req (vs_chans s ch))\<rparr>"
  have "send_to req ch s = Ret s1" using Cons.prems by (simp add: send_to_def try_send_open s1_def)
  moreover have "go_fold (send_to req) chs s1 =
      Ret (s1\<lparr>vs_chans := (\<lambda>c. if c \<in> set chs then offer req (vs_chans s1 c) else vs_chans s1 c)\<rparr>)"
    using Cons.prems by (intro Cons.IH) (auto simp: s1_def)
  moreover have "(\<lambda>c. if c \<in> set chs then offer req (vs_chans s1 c) else vs_chans s1 c) =
      (\<lambda>c. if c \<in> set (ch # chs) then offer req (vs_chans s c) else vs_chans s c)"
    using Cons.prems(1) by (auto simp: s1_def fun_eq_iff)
  ultimately show ?case by (simp add: s1_def)
qed simp

lemma offer_closed [simp]: "ch_closed (offer m c) = ch_closed c"
  by (simp add: offer_def)

lemma offer_bound: "length (ch_buf c) \<le> 1 \<Longrightarrow> length (ch_buf (offer m c)) \<le> 1"
  by (simp add: offer_def)

lemma offer_buf: "ch_buf (offer m c) = (if ch_buf c = [] then [m] else ch_buf c)"
  by (simp add: offer_def)

section \<open>Version 2: what a subscriber was offered\<close>

definition published :: "string \<Rightarrow> ps_event list \<Rightarrow> message list" where
  "published t evs = concat (map (\<lambda>ev. case ev of EPublish m \<Rightarrow> if msg_Topic m = t then [m] else [] | _ \<Rightarrow> []) evs)"

fun offered :: "chan \<Rightarrow> string \<Rightarrow> ps_event list \<Rightarrow> message list" where
  "offered ch t [] = []"
| "offered ch t (EBegin ch' t' # evs) = (if ch' = ch then published t evs else offered ch t evs)"
| "offered ch t (ev # evs) = offered ch t evs"

definition begun :: "chan \<Rightarrow> ps_event list \<Rightarrow> bool" where
  "begun ch evs \<longleftrightarrow> (\<exists>t. EBegin ch t \<in> set evs)"

lemma published_append [simp]: "published t (evs @ evs') = published t evs @ published t evs'"
  by (simp add: published_def)

lemma offered_append: "begun ch evs \<Longrightarrow> offered ch t (evs @ evs') = offered ch t evs @ published t evs'"
  by (induction ch t evs rule: offered.induct) (auto simp: begun_def)

lemma begun_append: "begun ch (evs @ [ev]) \<longleftrightarrow> begun ch evs \<or> (\<exists>t. ev = EBegin ch t)"
  by (auto simp: begun_def)

section \<open>Version 2: the invariant\<close>

definition fresh_ok :: "ps_event list \<Rightarrow> v2_server \<Rightarrow> bool" where
  "fresh_ok evs s \<longleftrightarrow>
     (\<forall>ch. vs_next s \<le> ch \<longrightarrow> vs_running s ch = None \<and> vs_sent s ch = [] \<and> \<not> begun ch evs)"

definition table_ok :: "v2_server \<Rightarrow> bool" where
  "table_ok s \<longleftrightarrow>
     (\<forall>t chs. subscribers s t = Some chs \<longrightarrow>
        distinct chs \<and> (\<forall>ch \<in> set chs. \<exists>clientId. vs_running s ch = Some (clientId, t)))"

definition sub_call_ok :: "ps_event list \<Rightarrow> v2_server \<Rightarrow> chan \<Rightarrow> string \<Rightarrow> bool" where
  "sub_call_ok evs s ch t \<longleftrightarrow>
     (\<exists>chs. subscribers s t = Some chs \<and> ch \<in> set chs) \<and> \<not> ch_closed (vs_chans s ch) \<and>
     length (ch_buf (vs_chans s ch)) \<le> 1 \<and> begun ch evs \<and>
     subseq (vs_sent s ch @ ch_buf (vs_chans s ch)) (offered ch t evs)"

definition v2_inv :: "ps_event list \<Rightarrow> v2_server \<Rightarrow> bool" where
  "v2_inv evs s \<longleftrightarrow>
     fresh_ok evs s \<and> table_ok s \<and>
     (\<forall>ch clientId t. vs_running s ch = Some (clientId, t) \<longrightarrow> sub_call_ok evs s ch t)"

lemma v2_inv_call: "v2_inv evs s \<Longrightarrow> vs_running s ch = Some (clientId, t) \<Longrightarrow> sub_call_ok evs s ch t"
  by (auto simp: v2_inv_def)

lemma Publish_eq:
  assumes "v2_inv evs s"
  shows "Publish req s = Ret (s\<lparr>vs_chans := (\<lambda>ch. if (\<exists>chs. subscribers s (msg_Topic req) = Some chs \<and> ch \<in> set chs)
      then offer req (vs_chans s ch) else vs_chans s ch)\<rparr>)"
proof (cases "subscribers s (msg_Topic req)")
  case (Some chs)
  then have d: "distinct chs" and o: "\<forall>ch \<in> set chs. \<not> ch_closed (vs_chans s ch)"
    using assms by (fastforce simp: v2_inv_def table_ok_def sub_call_ok_def)+
  from publish_fold[OF d o, of req] Some show ?thesis by (simp add: Publish_def)
qed (simp add: Publish_def)

text \<open>Leaving \<open>Subscribe\<close>: the channel is closed by \<open>removeSubscriber\<close> and then once more.\<close>

lemma exit_panics:
  assumes "subscribers s t = Some chs" and "\<not> ch_closed (vs_chans s ch)"
  shows "subscribe_exit ch clientId t s = Panic CloseOfClosed"
  using assms by (simp add: subscribe_exit_def removeSubscriber_def close_chan_def close_st_def)

lemma inv_begin:
  assumes "v2_inv evs s"
  shows "v2_inv (evs @ [EBegin (vs_next s) topic]) (subscribe_begin clientId topic s)"
proof -
  let ?n = "vs_next s" and ?s = "subscribe_begin clientId topic s" and ?evs = "evs @ [EBegin (vs_next s) topic]"
  define chs where "chs = (case subscribers s topic of None \<Rightarrow> [] | Some chs \<Rightarrow> chs)"
  have n: "vs_running s ?n = None" "vs_sent s ?n = []" using assms by (auto simp: v2_inv_def fresh_ok_def)
  have notin: "?n \<notin> set chs" and dist: "distinct chs"
    and mem: "\<And>ch. ch \<in> set chs \<Longrightarrow> \<exists>c. vs_running s ch = Some (c, topic)"
    using assms n unfolding chs_def
    by (cases "subscribers s topic"; force simp: v2_inv_def table_ok_def)+
  have eq: "subscribers ?s = (subscribers s)(topic \<mapsto> chs @ [?n])"
    "vs_running ?s = (vs_running s)(?n \<mapsto> (clientId, topic))" "vs_sent ?s = vs_sent s"
    "vs_chans ?s = (vs_chans s)(?n := new_chan)" "vs_next ?s = Suc ?n"
    using notin by (auto simp: subscribe_begin_def addSubscriber_def Let_def chs_def split: option.splits)
  have "fresh_ok ?evs ?s"
    using assms by (auto simp: v2_inv_def fresh_ok_def eq begun_append)
  moreover have "table_ok ?s"
    unfolding table_ok_def
  proof (intro allI impI)
    fix t chs' assume t: "subscribers ?s t = Some chs'"
    show "distinct chs' \<and> (\<forall>ch \<in> set chs'. \<exists>clientId. vs_running ?s ch = Some (clientId, t))"
    proof (cases "t = topic")
      case True
      with t notin dist mem show ?thesis by (auto simp: eq)
    next
      case False
      with t have "subscribers s t = Some chs'" by (simp add: eq)
      then have "distinct chs' \<and> (\<forall>ch \<in> set chs'. \<exists>clientId. vs_running s ch = Some (clientId, t))"
        using assms by (simp add: v2_inv_def table_ok_def)
      with n show ?thesis by (auto simp: eq)
    qed
  qed
  moreover have "sub_call_ok ?evs ?s ch t" if r: "vs_running ?s ch = Some (c, t)" for ch c t
  proof (cases "ch = ?n")
    case True
    have "\<not> begun ?n evs" using assms by (auto simp: v2_inv_def fresh_ok_def)
    then have "offered ?n t ?evs = []" for t
      by (induction ?n t evs rule: offered.induct) (auto simp: begun_def published_def)
    moreover have tc: "t = topic" using True r by (simp add: eq)
    ultimately show ?thesis
      unfolding True tc by (simp add: sub_call_ok_def eq new_chan_def begun_append n)
  next
    case False
    with r assms have "sub_call_ok evs s ch t" by (auto simp: eq intro: v2_inv_call)
    with False show ?thesis
      by (auto simp: sub_call_ok_def eq begun_append offered_append published_def chs_def)
  qed
  ultimately show ?thesis by (auto simp: v2_inv_def)
qed

lemma subseq_offer:
  "subseq (xs @ b) ys \<Longrightarrow> subseq (xs @ (if b = [] then [m] else b)) (ys @ [m])"
  by (auto simp: subseq_append' intro: subseq_rev_drop_many list_emb_append_mono)

lemma inv_publish:
  assumes "v2_inv evs s" and "Publish req s = Ret s'"
  shows "v2_inv (evs @ [EPublish req]) s'"
proof -
  let ?hit = "\<lambda>ch. \<exists>chs. subscribers s (msg_Topic req) = Some chs \<and> ch \<in> set chs"
  have s': "s' = s\<lparr>vs_chans := (\<lambda>ch. if ?hit ch then offer req (vs_chans s ch) else vs_chans s ch)\<rparr>"
    using Publish_eq[OF assms(1), of req] assms(2) by simp
  have "sub_call_ok (evs @ [EPublish req]) s' ch t" if r: "vs_running s ch = Some (c, t)" for ch c t
  proof -
    have ok: "sub_call_ok evs s ch t" using v2_inv_call[OF assms(1) r] .
    then have off: "offered ch t (evs @ [EPublish req]) =
        offered ch t evs @ (if msg_Topic req = t then [req] else [])"
      by (simp add: sub_call_ok_def offered_append published_def)
    have hit: "?hit ch \<longleftrightarrow> msg_Topic req = t"
    proof
      assume "?hit ch"
      then obtain c' where "vs_running s ch = Some (c', msg_Topic req)"
        using assms(1) unfolding v2_inv_def table_ok_def by blast
      with r show "msg_Topic req = t" by simp
    qed (use ok in \<open>auto simp: sub_call_ok_def\<close>)
    show ?thesis
      using ok hit subseq_offer[of "vs_sent s ch" "ch_buf (vs_chans s ch)" "offered ch t evs" req]
      by (auto simp: sub_call_ok_def s' off offer_bound offer_buf begun_append intro: subseq_rev_drop_many)
  qed
  moreover have "fresh_ok (evs @ [EPublish req]) s'" "table_ok s'"
    using assms(1) by (auto simp: v2_inv_def fresh_ok_def table_ok_def s' begun_append)
  ultimately show ?thesis by (simp add: v2_inv_def s')
qed

lemma inv_sent:
  assumes "v2_inv evs s" and "vs_running s ch = Some (clientId, topic)" and "ch_buf (vs_chans s ch) = msg # rest"
  shows "v2_inv (evs @ [ESent ch]) (stream_Send ch msg (receive ch s))"
proof -
  let ?s = "stream_Send ch msg (receive ch s)"
  have "sub_call_ok (evs @ [ESent ch]) ?s ch' t" if "vs_running s ch' = Some (c, t)" for ch' c t
    using v2_inv_call[OF assms(1) that] assms(3)
    by (auto simp: sub_call_ok_def stream_Send_def receive_def begun_append offered_append published_def)
  moreover have "fresh_ok (evs @ [ESent ch]) ?s" "table_ok ?s"
    using assms(1,2) by (auto simp: v2_inv_def fresh_ok_def table_ok_def stream_Send_def receive_def begun_append)
  ultimately show ?thesis by (simp add: v2_inv_def stream_Send_def receive_def)
qed

lemma exit_of_running:
  assumes "v2_inv evs s" and "vs_running s ch = Some (clientId, t)"
  shows "subscribe_exit ch clientId t s = Panic CloseOfClosed"
    and "subscribe_exit ch clientId t (receive ch s) = Panic CloseOfClosed"
  using v2_inv_call[OF assms] by (auto simp: sub_call_ok_def receive_def intro!: exit_panics)

lemma v2_step_inv:
  assumes "v2_inv evs s" and "v2_step s ev (Ret s')"
  shows "v2_inv (evs @ [ev]) s'"
  using assms(2)
proof (cases rule: v2_step.cases)
  case step_begin
  with inv_begin[OF assms(1)] show ?thesis by simp
next
  case step_publish
  with inv_publish[OF assms(1)] show ?thesis by simp
next
  case step_sent
  with inv_sent[OF assms(1)] show ?thesis by simp
qed (use exit_of_running[OF assms(1)] in auto)

lemma v2_run_inv: "v2_run evs s \<Longrightarrow> v2_inv evs s"
proof (induction rule: v2_run.induct)
  case run_init
  then show ?case by (simp add: v2_inv_def fresh_ok_def table_ok_def NewPubSubServer_def begun_def)
next
  case (run_step evs s ev s')
  then show ?case by (blast intro: v2_step_inv)
qed

text \<open>
  C5: Version 2 delivers in order, without duplicates and without inventing messages: in every state the
  server can reach, what a subscriber has sent on its stream, followed by what waits in its channel, is a
  subsequence of what was published on its topic since it subscribed; at most one message waits; and
  publishing never fails.
\<close>

theorem v2_delivers_in_order:
  assumes "v2_run evs s"
  shows "(\<forall>ch clientId t. vs_running s ch = Some (clientId, t) \<longrightarrow>
      subseq (vs_sent s ch @ ch_buf (vs_chans s ch)) (offered ch t evs) \<and> length (ch_buf (vs_chans s ch)) \<le> 1) \<and>
    go_returns (Publish req s)"
  using v2_run_inv[OF assms] Publish_eq[OF v2_run_inv[OF assms], of req]
  by (auto simp: v2_inv_def sub_call_ok_def)

text \<open>
  In every state the server can reach, the end of any call of \<open>Subscribe\<close>, whether its client went away or
  sending to it failed, panics: \<open>removeSubscriber\<close> has already closed the channel that the deferred
  function closes again.
\<close>

lemma v2_unsubscribe_panics:
  assumes "v2_run evs s" and "v2_step s (EExit ch) r"
  shows "r = Panic CloseOfClosed"
  using assms(2) exit_of_running[OF v2_run_inv[OF assms(1)]] by (cases rule: v2_stepE) auto

definition hello_msg :: message where
  "hello_msg = \<lparr>msg_Topic = ''news'', msg_Content = ''hello''\<rparr>"

definition one_subscriber :: v2_server where
  "one_subscriber = subscribe_begin ''c1'' ''news'' NewPubSubServer"

lemma one_subscriber_run: "v2_run [EBegin 0 ''news''] one_subscriber"
proof -
  have "v2_step NewPubSubServer (EBegin (vs_next NewPubSubServer) ''news'') (Ret one_subscriber)"
    unfolding one_subscriber_def by (rule step_begin)
  from run_step[OF run_init this] show ?thesis by (simp add: NewPubSubServer_def)
qed

lemma v2_delivers_in_order_witness: "go_returns (Publish hello_msg one_subscriber)"
  using v2_delivers_in_order[OF one_subscriber_run] by blast

lemma v2_unsubscribe_panics_witness:
  "subscribe_exit 0 ''c1'' ''news'' one_subscriber = Panic CloseOfClosed"
proof -
  have "vs_running one_subscriber 0 = Some (''c1'', ''news'')"
    by (simp add: one_subscriber_def subscribe_begin_def NewPubSubServer_def Let_def)
  then have "v2_step one_subscriber (EExit 0) (subscribe_exit 0 ''c1'' ''news'' one_subscriber)"
    by (rule step_done)
  then show ?thesis by (rule v2_unsubscribe_panics[OF one_subscriber_run])
qed

end
