(* ===== verification/Buckets.thy ===== *)
theory Buckets
  imports Complex_Main "HOL-Library.Signed_Division"
begin

text \<open>
  The two rate limiters of \<open>base/main.go\<close>: \<open>TokenBucket\<close> and \<open>LeakyBucket\<close>.

  A finite \<open>float64\<close> is its real value, and each arithmetic operation rounds its exact result with the
  parameter \<open>rnd\<close>; \<open>float_law\<close> and \<open>round_law\<close> state what IEEE rounding promises. Infinities and NaN are not modelled.
  Times are nanoseconds since Go's zero time, as one clock reads them; \<open>Sub\<close> saturates at 64 bits. The mutexes
  make each \<open>Allow\<close> one step, which takes the readings of the clock as arguments.
\<close>

section \<open>Floats and durations\<close>

definition float_law :: "(real \<Rightarrow> real) \<Rightarrow> bool" where
  "float_law rnd \<longleftrightarrow> mono rnd \<and> rnd 0 = 0 \<and> (\<forall>x. rnd (rnd x) = rnd x)"

definition time_Sub :: "int \<Rightarrow> int \<Rightarrow> int" where
  "time_Sub t u = max (- (2 ^ 63)) (min (2 ^ 63 - 1) (t - u))"

definition Seconds :: "(real \<Rightarrow> real) \<Rightarrow> int \<Rightarrow> real" where
  "Seconds rnd d =
     rnd (rnd (of_int (d sdiv 1000000000)) + rnd (rnd (of_int (d smod 1000000000)) / 1000000000))"

lemma rnd_nonneg: "float_law rnd \<Longrightarrow> 0 \<le> x \<Longrightarrow> 0 \<le> rnd x"
  by (metis float_law_def monoD)

lemma Seconds_nonneg:
  assumes "float_law rnd" and "0 \<le> d"
  shows "0 \<le> Seconds rnd d"
proof -
  have "0 \<le> d sdiv 1000000000" "0 \<le> d smod 1000000000"
    using assms(2) by (simp_all add: signed_divide_int_def signed_modulo_int_def sgn_if)
  then show ?thesis unfolding Seconds_def
    by (intro rnd_nonneg[OF assms(1)] add_nonneg_nonneg divide_nonneg_nonneg) simp_all
qed

section \<open>The token bucket\<close>

record TokenBucket =
  tb_rate :: real
  tb_capacity :: real
  tb_tokens :: real
  tb_lastRefill :: int

definition NewTokenBucket :: "real \<Rightarrow> real \<Rightarrow> TokenBucket" where
  "NewTokenBucket rate capacity =
     \<lparr>tb_rate = rate, tb_capacity = capacity, tb_tokens = capacity, tb_lastRefill = 0\<rparr>"

definition tb_Allow :: "(real \<Rightarrow> real) \<Rightarrow> real \<times> int \<Rightarrow> TokenBucket \<Rightarrow> bool \<times> TokenBucket" where
  "tb_Allow rnd req tb =
     (let (needToken, now) = req;
          tmpToken = rnd (rnd (tb_tokens tb + rnd (tb_rate tb * Seconds rnd (time_Sub now (tb_lastRefill tb)))) - needToken);
          tmpToken = (if tmpToken > tb_capacity tb then tb_capacity tb else tmpToken)
      in if tmpToken \<ge> 0 then (True, tb\<lparr>tb_tokens := tmpToken, tb_lastRefill := now\<rparr>) else (False, tb))"

section \<open>The leaky bucket\<close>

record LeakyBucket =
  lb_rate :: real
  lb_bucketSize :: real
  lb_storage2Process :: real
  lb_lastLeakTime :: int

definition NewLeakyBucket :: "real \<Rightarrow> real \<Rightarrow> int \<Rightarrow> LeakyBucket" where
  "NewLeakyBucket rate bucketSize now =
     \<lparr>lb_rate = rate, lb_bucketSize = bucketSize, lb_storage2Process = 0, lb_lastLeakTime = now\<rparr>"

text \<open>The request: the tokens required and the two readings of the clock, at the start and at the end.\<close>

definition lb_Allow :: "(real \<Rightarrow> real) \<Rightarrow> real \<times> int \<times> int \<Rightarrow> LeakyBucket \<Rightarrow> bool \<times> LeakyBucket" where
  "lb_Allow rnd req lb =
     (let (requiredTokens, now, now') = req;
          elapsed = Seconds rnd (time_Sub now (lb_lastLeakTime lb));
          leakedTokens = rnd (elapsed * lb_rate lb);
          tmpStorage2Process = rnd (rnd (lb_storage2Process lb + leakedTokens) + requiredTokens)
      in if tmpStorage2Process > lb_bucketSize lb then (False, lb)
         else (True, lb\<lparr>lb_storage2Process := (if tmpStorage2Process \<le> 0 then 0 else tmpStorage2Process),
                        lb_lastLeakTime := now'\<rparr>))"

section \<open>What the limiters share\<close>

text \<open>Any limiter: the state after a list of requests, and those of them that were granted.\<close>

fun run_requests :: "('r \<Rightarrow> 's \<Rightarrow> bool \<times> 's) \<Rightarrow> 'r list \<Rightarrow> 's \<Rightarrow> 's" where
  "run_requests allow [] s = s"
| "run_requests allow (r # rs) s = run_requests allow rs (snd (allow r s))"

fun granted :: "('r \<Rightarrow> 's \<Rightarrow> bool \<times> 's) \<Rightarrow> 'r list \<Rightarrow> 's \<Rightarrow> 'r list" where
  "granted allow [] s = []"
| "granted allow (r # rs) s = (if fst (allow r s) then [r] else []) @ granted allow rs (snd (allow r s))"

locale rate_limiter =
  fixes allow :: "'r \<Rightarrow> 's \<Rightarrow> bool \<times> 's" and inv :: "'s \<Rightarrow> bool"
  assumes allow_inv: "inv s \<Longrightarrow> inv (snd (allow r s))"
    and refused: "\<not> fst (allow r s) \<Longrightarrow> snd (allow r s) = s"
begin

lemma run_inv: "inv s \<Longrightarrow> inv (run_requests allow rs s)"
  by (induction rs arbitrary: s) (simp_all add: allow_inv)

lemma run_granted: "run_requests allow (granted allow rs s) s = run_requests allow rs s"
  by (induction rs arbitrary: s) (simp_all add: refused)

end

definition tb_ok :: "TokenBucket \<Rightarrow> bool" where
  "tb_ok tb \<longleftrightarrow> 0 \<le> tb_tokens tb \<and> tb_tokens tb \<le> tb_capacity tb"

definition lb_ok :: "(real \<Rightarrow> real) \<Rightarrow> LeakyBucket \<Rightarrow> bool" where
  "lb_ok rnd lb \<longleftrightarrow> 0 \<le> lb_rate lb \<and> 0 \<le> lb_storage2Process lb \<and> lb_storage2Process lb \<le> max 0 (lb_bucketSize lb) \<and>
     (float_law rnd \<longrightarrow> rnd (lb_storage2Process lb) = lb_storage2Process lb)"

interpretation token: rate_limiter "tb_Allow rnd" tb_ok for rnd
  by unfold_locales (auto simp: tb_Allow_def tb_ok_def Let_def split: prod.splits)

definition lb_level :: "(real \<Rightarrow> real) \<Rightarrow> real \<Rightarrow> int \<Rightarrow> LeakyBucket \<Rightarrow> real" where
  "lb_level rnd n now lb =
     rnd (rnd (lb_storage2Process lb + rnd (Seconds rnd (time_Sub now (lb_lastLeakTime lb)) * lb_rate lb)) + n)"

lemma lb_Allow_level:
  "lb_Allow rnd (n, now, now') lb =
     (if lb_level rnd n now lb > lb_bucketSize lb then (False, lb)
      else (True, lb\<lparr>lb_storage2Process := max 0 (lb_level rnd n now lb), lb_lastLeakTime := now'\<rparr>))"
  by (simp add: lb_Allow_def lb_level_def max_def Let_def)

lemma lb_level_rounded: "float_law rnd \<Longrightarrow> rnd (max 0 (lb_level rnd n now lb)) = max 0 (lb_level rnd n now lb)"
  by (auto simp: lb_level_def float_law_def max_def)

interpretation leaky: rate_limiter "lb_Allow rnd" "lb_ok rnd" for rnd
proof
  show "lb_ok rnd s \<Longrightarrow> lb_ok rnd (snd (lb_Allow rnd r s))" for r s
    by (cases r) (auto simp: lb_Allow_level lb_ok_def lb_level_rounded)
  show "\<not> fst (lb_Allow rnd r s) \<Longrightarrow> snd (lb_Allow rnd r s) = s" for r s
    by (cases r) (auto simp: lb_Allow_level split: if_splits)
qed

section \<open>Bounds and draining\<close>

lemma token_bounds:
  "0 \<le> capacity \<Longrightarrow> tb_ok (run_requests (tb_Allow rnd) rs (NewTokenBucket rate capacity))"
  by (rule token.run_inv) (simp add: tb_ok_def NewTokenBucket_def)

text \<open>
  Rounding with an error bound: integers up to $2^{53}$ are exact and a result of at most \<open>M\<close> is rounded by at
  most \<open>d\<close>. IEEE double precision has this for every \<open>M\<close> below the overflow threshold with
  \<open>d = max (M * 2 powr - 53) (2 powr - 1075)\<close>. \<open>tb_range\<close> says that \<open>M\<close> covers what a token bucket computes.
\<close>

definition round_law :: "real \<Rightarrow> real \<Rightarrow> (real \<Rightarrow> real) \<Rightarrow> bool" where
  "round_law d M rnd \<longleftrightarrow> mono rnd \<and> (\<forall>i. \<bar>i\<bar> \<le> 2 ^ 53 \<longrightarrow> rnd (of_int i) = of_int i) \<and>
     0 \<le> d \<and> (\<forall>x. \<bar>x\<bar> \<le> M \<longrightarrow> \<bar>rnd x - x\<bar> \<le> d)"

definition tb_range :: "real \<Rightarrow> real \<Rightarrow> TokenBucket \<Rightarrow> bool" where
  "tb_range d M tb \<longleftrightarrow> 0 \<le> tb_rate tb \<and> 2 ^ 34 + 2 * d < M \<and>
     tb_capacity tb + tb_rate tb * (2 ^ 34 + 2 * d) + 2 * d \<le> M"

lemma round_lawD:
  assumes "round_law d M rnd"
  shows "x \<le> y \<Longrightarrow> rnd x \<le> rnd y" and "\<bar>i\<bar> \<le> 2 ^ 53 \<Longrightarrow> rnd (of_int i) = of_int i" and "0 \<le> d"
    and "\<bar>x\<bar> \<le> M \<Longrightarrow> rnd x \<le> x + d" and "\<bar>x\<bar> \<le> M \<Longrightarrow> x - d \<le> rnd x" and "0 \<le> x \<Longrightarrow> 0 \<le> rnd x"
proof -
  show m: "x \<le> y \<Longrightarrow> rnd x \<le> rnd y" for x y using assms by (auto simp: round_law_def mono_def)
  show i: "\<bar>i\<bar> \<le> 2 ^ 53 \<Longrightarrow> rnd (of_int i) = of_int i" for i using assms by (simp add: round_law_def)
  show "0 \<le> x \<Longrightarrow> 0 \<le> rnd x" using m[of 0 x] i[of 0] by simp
  show "0 \<le> d" "\<bar>x\<bar> \<le> M \<Longrightarrow> rnd x \<le> x + d" "\<bar>x\<bar> \<le> M \<Longrightarrow> x - d \<le> rnd x"
    using assms by (force simp: round_law_def abs_le_iff)+
qed

text \<open>The seconds of a duration are off by at most two roundings.\<close>

lemma Seconds_close:
  assumes "round_law d M rnd" and "2 ^ 34 + 2 * d < M" and "0 \<le> t" and "t < 2 ^ 63"
  shows "0 \<le> Seconds rnd t" and "Seconds rnd t \<le> of_int t / 1000000000 + 2 * d" and "Seconds rnd t \<le> 2 ^ 34 + 2 * d"
proof -
  note L = round_lawD[OF assms(1)]
  define q r where "q = t div 1000000000" and "r = t mod 1000000000"
  have eq: "t sdiv 1000000000 = q" "t smod 1000000000 = r"
    using assms(3) by (simp_all add: q_def r_def signed_divide_int_def signed_modulo_int_def sgn_if minus_div_mult_eq_mod)
  have q: "0 \<le> q" "q < 2 ^ 34" using assms(3,4) by (auto simp: q_def)
  have r: "0 \<le> r" "r < 1000000000" by (simp_all add: r_def)
  have "t = q * 1000000000 + r" by (simp add: q_def r_def)
  then have t: "of_int t / 1000000000 = of_int q + of_int r / (1000000000 :: real)" by (simp add: add_divide_distrib)
  have small: "of_int r / (1000000000 :: real) \<le> 1" "0 \<le> of_int r / (1000000000 :: real)" using r by simp_all
  have "of_int q \<le> (of_int (2 ^ 34 - 1) :: real)" using q by (intro of_int_le_iff[THEN iffD2]) simp
  then have qr: "of_int q \<le> (2 ^ 34 - 1 :: real)" "0 \<le> (of_int q :: real)" using q by simp_all
  let ?f = "rnd (of_int r / 1000000000)"
  have S: "Seconds rnd t = rnd (of_int q + ?f)" using q r by (simp add: Seconds_def eq L(2))
  have M: "1 \<le> M" using assms(2) L(3) by simp
  have f: "0 \<le> ?f" "?f \<le> of_int r / 1000000000 + d" using L(4,6) small M by simp_all
  show "0 \<le> Seconds rnd t" unfolding S using f qr by (intro L(6)) simp
  have "Seconds rnd t \<le> of_int q + ?f + d" unfolding S
    using L(3) f qr small assms(2) by (intro L(4)) (simp add: abs_le_iff)
  with f show b: "Seconds rnd t \<le> of_int t / 1000000000 + 2 * d" by (simp add: t)
  show "Seconds rnd t \<le> 2 ^ 34 + 2 * d" using b qr small by (simp add: t)
qed

text \<open>
  A grant pays for what it takes out of the tokens and of the time since the last one, up to the rounding of
  three operations and of the seconds.
\<close>

definition tb_error :: "real \<Rightarrow> TokenBucket \<Rightarrow> real" where
  "tb_error d tb = (3 + 2 * tb_rate tb) * d"

lemma tb_Allow_pays:
  assumes "round_law d M rnd" and "tb_range d M tb" and "tb_ok tb" and "0 \<le> n" and "tb_lastRefill tb \<le> now"
    and "tb_Allow rnd (n, now) tb = (True, tb')"
  shows "n + tb_tokens tb' \<le>
      tb_tokens tb + tb_rate tb * (of_int (now - tb_lastRefill tb) / 1000000000) + tb_error d tb"
    and "tb_lastRefill tb' = now" and "tb_rate tb' = tb_rate tb" and "tb_capacity tb' = tb_capacity tb"
proof -
  note L = round_lawD[OF assms(1)]
  define t where "t = time_Sub now (tb_lastRefill tb)"
  have t: "0 \<le> t" "t < 2 ^ 63" "t \<le> now - tb_lastRefill tb" using assms(5) by (auto simp: t_def time_Sub_def)
  have R: "0 \<le> tb_rate tb" "2 ^ 34 + 2 * d < M" "tb_capacity tb + tb_rate tb * (2 ^ 34 + 2 * d) + 2 * d \<le> M"
    using assms(2) by (simp_all add: tb_range_def)
  note S = Seconds_close[OF assms(1) R(2) t(1,2)]
  define p where "p = tb_rate tb * Seconds rnd t"
  have p: "0 \<le> p" "p \<le> tb_rate tb * (2 ^ 34 + 2 * d)" using R(1) S by (auto simp: p_def intro: mult_left_mono)
  have tok: "0 \<le> tb_tokens tb" "tb_tokens tb \<le> tb_capacity tb" using assms(3) by (simp_all add: tb_ok_def)
  define x where "x = rnd (tb_tokens tb + rnd p)"
  have rp: "0 \<le> rnd p" "rnd p \<le> p + d" using L(3,4,6) p R(3) tok by (simp_all add: abs_le_iff)
  have "\<bar>tb_tokens tb + rnd p\<bar> \<le> M" using L(3) p R(3) rp tok by linarith
  then have x: "0 \<le> x" "x \<le> tb_tokens tb + rnd p + d" unfolding x_def
    using rp tok by (simp_all add: L(4,6) del: add.assoc)
  let ?y = "rnd (x - n)"
  have y: "0 \<le> ?y" and tb': "tb' = tb\<lparr>tb_tokens := min (tb_capacity tb) ?y, tb_lastRefill := now\<rparr>"
    using assms(6) tok by (auto simp: tb_Allow_def x_def p_def t_def Let_def min_def split: if_splits)
  have M: "d < M" "0 \<le> M" using R(2) L(3) by simp_all
  have "- M \<le> x - n"
  proof (rule ccontr)
    assume "\<not> - M \<le> x - n"
    then have "?y \<le> rnd (- M)" by (intro L(1)) simp
    also have "\<dots> \<le> - M + d" using M by (intro L(4)) simp
    finally show False using y M by simp
  qed
  then have "?y \<le> x - n + d" using x rp p tok R(3) assms(4) by (intro L(4)) (simp add: abs_le_iff)
  then have "n + tb_tokens tb' \<le> tb_tokens tb + p + 3 * d" using x rp by (simp add: tb')
  moreover have "p \<le> tb_rate tb * (of_int (now - tb_lastRefill tb) / 1000000000 + 2 * d)"
    unfolding p_def using R(1) S(2) t(3) by (intro mult_left_mono) (auto intro: order_trans divide_right_mono)
  ultimately show "n + tb_tokens tb' \<le>
      tb_tokens tb + tb_rate tb * (of_int (now - tb_lastRefill tb) / 1000000000) + tb_error d tb"
    by (simp add: tb_error_def algebra_simps)
  show "tb_lastRefill tb' = now" "tb_rate tb' = tb_rate tb" "tb_capacity tb' = tb_capacity tb" by (simp_all add: tb')
qed

fun tb_clock :: "int \<Rightarrow> (real \<times> int) list \<Rightarrow> int \<Rightarrow> bool" where
  "tb_clock t [] u \<longleftrightarrow> t \<le> u"
| "tb_clock t ((n, now) # rs) u \<longleftrightarrow> t \<le> now \<and> tb_clock now rs u"

lemma tb_clock_mono: "tb_clock t rs u \<Longrightarrow> t' \<le> t \<Longrightarrow> tb_clock t' rs u \<and> t' \<le> u"
  by (induction rs arbitrary: t t') auto

lemma token_run_pays:
  assumes law: "round_law d M rnd"
  shows "tb_range d M tb \<Longrightarrow> tb_ok tb \<Longrightarrow> \<forall>(n, _) \<in> set rs. 0 \<le> n \<Longrightarrow> tb_clock (tb_lastRefill tb) rs u \<Longrightarrow>
   sum_list (map fst (granted (tb_Allow rnd) rs tb)) + tb_tokens (run_requests (tb_Allow rnd) rs tb)
     \<le> tb_tokens tb + tb_rate tb * (of_int (u - tb_lastRefill tb) / 1000000000) +
       of_nat (length (granted (tb_Allow rnd) rs tb)) * tb_error d tb"
proof (induction rs arbitrary: tb)
  case (Cons r rs)
  obtain n now where r: "r = (n, now)" by (cases r)
  obtain ok tb' where a: "tb_Allow rnd r tb = (ok, tb')" by (metis prod.exhaust_sel)
  show ?case
  proof (cases ok)
    case False
    then have "tb' = tb" using token.refused[of rnd r tb] a by simp
    with False Cons a show ?thesis by (auto simp: r dest: tb_clock_mono)
  next
    case True
    have c: "tb_lastRefill tb \<le> now" "tb_clock now rs u" "0 \<le> n" using Cons.prems(3,4) by (simp_all add: r)
    have "tb_Allow rnd (n, now) tb = (True, tb')" using a True by (simp add: r)
    note p = tb_Allow_pays[OF law Cons.prems(1,2) c(3,1) this]
    have e: "tb_error d tb' = tb_error d tb" and rg: "tb_range d M tb'"
      using Cons.prems(1) p(3,4) by (simp_all add: tb_error_def tb_range_def)
    have "tb_ok tb'" using token.allow_inv[OF Cons.prems(2), of rnd r] a by simp
    then have "sum_list (map fst (granted (tb_Allow rnd) rs tb')) + tb_tokens (run_requests (tb_Allow rnd) rs tb')
        \<le> tb_tokens tb' + tb_rate tb * (of_int (u - now) / 1000000000) +
          of_nat (length (granted (tb_Allow rnd) rs tb')) * tb_error d tb"
      using Cons.IH[OF rg] Cons.prems(3) c(2) p e by simp
    moreover have "tb_rate tb * (of_int (u - now) / 1000000000) + tb_rate tb * (of_int (now - tb_lastRefill tb) / 1000000000) =
        tb_rate tb * (of_int (u - tb_lastRefill tb) / 1000000000)"
      by (simp add: field_simps)
    ultimately have "n + sum_list (map fst (granted (tb_Allow rnd) rs tb')) + tb_tokens (run_requests (tb_Allow rnd) rs tb')
        \<le> tb_tokens tb + tb_rate tb * (of_int (u - tb_lastRefill tb) / 1000000000) +
          (of_nat (length (granted (tb_Allow rnd) rs tb')) * tb_error d tb + tb_error d tb)"
      using p(1) by linarith
    then show ?thesis using True a by (simp add: r distrib_right add.assoc add.commute)
  qed
qed (simp add: tb_range_def)

text \<open>
  C37: The token bucket bounds what it lets through, rounding included: when every rounding of a value in the range
  is off by at most \<open>d\<close> and the clock does not go back, the requests granted from one moment to another add up to
  at most the tokens there were, plus the rate times the seconds between, plus \<open>(3 + 2 * rate) * d\<close> for each
  request granted; and the tokens stay between 0 and the capacity. In exact arithmetic (\<open>d = 0\<close>) the last term
  is not there.
\<close>

theorem token_bucket_bounds:
  assumes "round_law d M rnd" and "tb_range d M tb" and "tb_ok tb"
    and "\<forall>(n, _) \<in> set rs. 0 \<le> n" and "tb_clock (tb_lastRefill tb) rs u"
    and "tb' = run_requests (tb_Allow rnd) rs tb" and "gs = granted (tb_Allow rnd) rs tb"
  shows "sum_list (map fst gs) \<le> tb_tokens tb + tb_rate tb * (of_int (u - tb_lastRefill tb) / 1000000000) +
      of_nat (length gs) * ((3 + 2 * tb_rate tb) * d) \<and>
    0 \<le> tb_tokens tb' \<and> tb_tokens tb' \<le> tb_capacity tb'"
  using token.run_inv[OF assms(3), where rnd = rnd and rs = rs] token_run_pays[OF assms(1-5)]
  by (simp add: tb_ok_def assms(6,7) tb_error_def)

text \<open>With every result rounded up to an integer: a request for two tokens one nanosecond after the last is granted.\<close>

lemma ceiling_round_law: "round_law 1 M (\<lambda>x. of_int \<lceil>x\<rceil>)"
proof -
  have "\<bar>of_int \<lceil>x\<rceil> - x\<bar> \<le> 1" for x :: real by linarith
  then show ?thesis by (simp add: round_law_def mono_def ceiling_mono)
qed

lemma token_bucket_bounds_witness:
  "granted (tb_Allow (\<lambda>x. of_int \<lceil>x\<rceil>)) [(2, 1)] \<lparr>tb_rate = 2, tb_capacity = 5, tb_tokens = 0, tb_lastRefill = 0\<rparr> = [(2, 1)] \<and>
   (2 :: real) \<le> 0 + 2 * (1 / 1000000000) + 7"
proof -
  let ?rnd = "\<lambda>x :: real. of_int \<lceil>x\<rceil> :: real"
  let ?tb = "\<lparr>tb_rate = 2, tb_capacity = 5, tb_tokens = 0, tb_lastRefill = 0\<rparr> :: TokenBucket"
  have "\<lceil>1 / 1000000000 :: real\<rceil> = 1" by (simp add: ceiling_eq_iff)
  then have "Seconds ?rnd 1 = 1"
    by (simp add: Seconds_def signed_divide_int_def signed_modulo_int_def)
  then have "granted (tb_Allow ?rnd) [(2, 1)] ?tb = [(2, 1)]" by (simp add: tb_Allow_def time_Sub_def)
  with token_bucket_bounds[OF ceiling_round_law, of "10 ^ 12" ?tb "[(2, 1)]" 1, OF _ _ _ _ refl refl]
  show ?thesis by (simp add: tb_ok_def tb_range_def)
qed

text \<open>
  The tokens are limited after the request has been served, and a new bucket was last filled at Go's zero
  time: the first request may take far more than the capacity.
\<close>

lemma Seconds_saturated: "Seconds (\<lambda>x. x) (time_Sub 63838368000000000000 0) = 9223372036854775807 / 1000000000"
proof -
  have "time_Sub 63838368000000000000 0 = 9223372036854775807" by (simp add: time_Sub_def)
  moreover have "(9223372036854775807::int) sdiv 1000000000 = 9223372036" "(9223372036854775807::int) smod 1000000000 = 854775807"
    by (simp_all add: signed_divide_int_def signed_modulo_int_def)
  ultimately show ?thesis by (simp add: Seconds_def)
qed

lemma first_request_burst:
  "tb_Allow (\<lambda>x. x) (1000000, 63838368000000000000) (NewTokenBucket 10 5) =
     (True, \<lparr>tb_rate = 10, tb_capacity = 5, tb_tokens = 5, tb_lastRefill = 63838368000000000000\<rparr>)"
proof -
  let ?tmp = "5 + 10 * (9223372036854775807 / 1000000000) - 1000000 :: real"
  have "(5::real) < ?tmp" by simp
  then show ?thesis by (simp add: tb_Allow_def NewTokenBucket_def Seconds_saturated)
qed

text \<open>A clock that does not go back: each request starts after the one before has ended.\<close>

fun clock_ok :: "int \<Rightarrow> (real \<times> int \<times> int) list \<Rightarrow> bool" where
  "clock_ok t [] = True"
| "clock_ok t ((n, a, b) # rs) \<longleftrightarrow> 0 \<le> n \<and> t \<le> a \<and> a \<le> b \<and> clock_ok b rs"

lemma lb_level_ge:
  assumes "float_law rnd" and "lb_ok rnd lb" and "lb_lastLeakTime lb \<le> a"
  shows "rnd (lb_storage2Process lb + n) \<le> lb_level rnd n a lb"
proof -
  define leaked where "leaked = rnd (Seconds rnd (time_Sub a (lb_lastLeakTime lb)) * lb_rate lb)"
  have m: "x \<le> y \<Longrightarrow> rnd x \<le> rnd y" for x y using assms(1) by (auto simp: float_law_def mono_def)
  have i: "rnd (lb_storage2Process lb) = lb_storage2Process lb" and r: "0 \<le> lb_rate lb"
    using assms(1,2) by (simp_all add: lb_ok_def)
  have "0 \<le> time_Sub a (lb_lastLeakTime lb)" using assms(3) unfolding time_Sub_def by simp
  from Seconds_nonneg[OF assms(1) this] r have "0 \<le> leaked"
    unfolding leaked_def by (intro rnd_nonneg[OF assms(1)] mult_nonneg_nonneg)
  then have "rnd (lb_storage2Process lb) \<le> rnd (lb_storage2Process lb + leaked)" by (intro m) simp
  then show ?thesis unfolding lb_level_def leaked_def[symmetric] i by (intro m) simp
qed

lemma lb_Allow_grows:
  assumes "float_law rnd" and "lb_ok rnd lb" and "lb_lastLeakTime lb \<le> a" and "0 \<le> n"
  shows "lb_storage2Process lb \<le> lb_storage2Process (snd (lb_Allow rnd (n, a, b) lb))"
proof -
  have "rnd (lb_storage2Process lb) \<le> rnd (lb_storage2Process lb + n)"
    using assms(1,4) by (auto simp: float_law_def intro!: monoD[of rnd])
  with assms(1,2) lb_level_ge[OF assms(1-3), of n] show ?thesis by (simp add: lb_Allow_level lb_ok_def)
qed

lemma lb_Allow_keeps:
  "lb_rate (snd (lb_Allow rnd r lb)) = lb_rate lb" "lb_bucketSize (snd (lb_Allow rnd r lb)) = lb_bucketSize lb"
  by (auto simp: lb_Allow_def Let_def split: prod.splits)

lemma lb_run_grows:
  assumes "float_law rnd"
  shows "lb_ok rnd lb \<Longrightarrow> lb_lastLeakTime lb \<le> t \<Longrightarrow> clock_ok t (rs @ [(n, a, b)]) \<Longrightarrow>
    lb_storage2Process lb \<le> lb_storage2Process (run_requests (lb_Allow rnd) rs lb) \<and>
    lb_bucketSize (run_requests (lb_Allow rnd) rs lb) = lb_bucketSize lb \<and>
    lb_lastLeakTime (run_requests (lb_Allow rnd) rs lb) \<le> a \<and> 0 \<le> n"
proof (induction rs arbitrary: lb t)
  case (Cons r rs)
  obtain m c d where r: "r = (m, c, d)" by (cases r) auto
  let ?lb = "snd (lb_Allow rnd r lb)"
  have "lb_lastLeakTime ?lb \<le> d" using Cons.prems by (auto simp: r lb_Allow_def Let_def)
  moreover have "clock_ok d (rs @ [(n, a, b)])" using Cons.prems by (simp add: r)
  moreover have "lb_storage2Process lb \<le> lb_storage2Process ?lb"
    using lb_Allow_grows[OF assms Cons.prems(1), of c m d] Cons.prems by (simp add: r)
  ultimately show ?case
    using Cons.IH[OF leaky.allow_inv[OF Cons.prems(1)]] by (fastforce simp: lb_Allow_keeps)
qed simp

text \<open>
  The leaky bucket never drains: with a non-negative rate, non-negative requests and a clock that does not go
  back, what it holds never gets less, however long it is left alone, and a request that does not fit beside
  what it holds is refused in every later state.
\<close>

lemma leaky_never_drains:
  assumes "float_law rnd" and "lb_ok rnd lb" and "lb_lastLeakTime lb \<le> t" and "clock_ok t (rs @ [(n, a, b)])"
  shows "lb_storage2Process lb \<le> lb_storage2Process (run_requests (lb_Allow rnd) rs lb) \<and>
    (lb_bucketSize lb < rnd (lb_storage2Process lb + n) \<longrightarrow>
       lb_Allow rnd (n, a, b) (run_requests (lb_Allow rnd) rs lb) = (False, run_requests (lb_Allow rnd) rs lb))"
proof -
  let ?lb = "run_requests (lb_Allow rnd) rs lb"
  have g: "lb_storage2Process lb \<le> lb_storage2Process ?lb" "lb_bucketSize ?lb = lb_bucketSize lb"
    "lb_lastLeakTime ?lb \<le> a" "0 \<le> n" using lb_run_grows[OF assms] by simp_all
  have "rnd (lb_storage2Process lb + n) \<le> rnd (lb_storage2Process ?lb + n)"
    using g(1) assms(1) by (auto simp: float_law_def intro!: monoD[of rnd])
  also note lb_level_ge[OF assms(1) leaky.run_inv[OF assms(2)] g(3)]
  finally show ?thesis using g(1,2) by (simp add: lb_Allow_level)
qed

lemma leaky_never_drains_witness:
  "lb_Allow (\<lambda>x. x) (1, 86400000000000, 86400000000000)
     (run_requests (lb_Allow (\<lambda>x. x)) [(5, 0, 0)] (NewLeakyBucket 2 5 0)) =
   (False, \<lparr>lb_rate = 2, lb_bucketSize = 5, lb_storage2Process = 5, lb_lastLeakTime = 0\<rparr>)"
proof -
  have f: "float_law (\<lambda>x. x)" by (simp add: float_law_def mono_def)
  have s: "run_requests (lb_Allow (\<lambda>x. x)) [(5, 0, 0)] (NewLeakyBucket 2 5 0) =
      \<lparr>lb_rate = 2, lb_bucketSize = 5, lb_storage2Process = 5, lb_lastLeakTime = 0\<rparr>"
    by (simp add: lb_Allow_def NewLeakyBucket_def Seconds_def time_Sub_def)
  show ?thesis unfolding s
    using leaky_never_drains[OF f, of "\<lparr>lb_rate = 2, lb_bucketSize = 5, lb_storage2Process = 5, lb_lastLeakTime = 0\<rparr>" 0
        "[]" 1 86400000000000 86400000000000] by (simp add: lb_ok_def)
qed

end
