(* ===== verification/Sprintf.thy ===== *)
theory Sprintf
  imports GoStrings
begin

text \<open>
  \<open>Sprintf\<close> of \<open>common/utils/utils.go\<close>: formatting with numbered placeholders such as \<open>(2%s)\<close>, then spaces
  between digits and letters, then single spaces. The regular expressions are written out as scanners:
  the classes that follow each other in them are disjoint, so a greedy match from the left is the match
  Go finds. \<open>fmt.Sprintf\<close> is the parameter \<open>fmt\<close>; an argument has type \<open>'v\<close>, and \<open>slice\<close> makes one of a list.

  The replacements work on runes and keep the bytes of every rune they do not replace, so the text is a
  list of pairs of a rune and its bytes. They only take spaces away next to a space that stays, and put spaces
  between decoded runes, so decoding the text anew between them gives the same pairs.
\<close>

section \<open>Placeholders: \<open>\(\d+(%(\d*(\.)?\d*)?[a-z])\)\<close>\<close>

definition is_digit :: "char \<Rightarrow> bool" where
  "is_digit c \<longleftrightarrow> 48 \<le> (of_char c :: nat) \<and> (of_char c :: nat) \<le> 57"

definition is_lower :: "char \<Rightarrow> bool" where
  "is_lower c \<longleftrightarrow> 97 \<le> (of_char c :: nat) \<and> (of_char c :: nat) \<le> 122"

fun expect :: "(char \<Rightarrow> bool) \<Rightarrow> string \<Rightarrow> (char \<times> string) option" where
  "expect P [] = None"
| "expect P (c # t) = (if P c then Some (c, t) else None)"

text \<open>\<open>(\d*(\.)?\d*)?\<close>: what it matches and the rest.\<close>

definition match_number :: "string \<Rightarrow> string \<times> string" where
  "match_number s =
     (let d1 = takeWhile is_digit s; t = dropWhile is_digit s in
      case expect (\<lambda>c. c = CHR ''.'') t of
        None \<Rightarrow> (d1, t)
      | Some (_, t) \<Rightarrow> (d1 @ ''.'' @ takeWhile is_digit t, dropWhile is_digit t))"

text \<open>\<open>(%(\d*(\.)?\d*)?[a-z])\<close>: what it matches and the rest.\<close>

definition match_verb :: "string \<Rightarrow> (string \<times> string) option" where
  "match_verb s =
     (case expect (\<lambda>c. c = CHR ''%'') s of
        None \<Rightarrow> None
      | Some (_, t) \<Rightarrow>
          (case expect is_lower (snd (match_number t)) of
             None \<Rightarrow> None
           | Some (v, t') \<Rightarrow> Some (''%'' @ fst (match_number t) @ [v], t')))"

text \<open>A placeholder at the start of the text: its digits, its verb, and the rest.\<close>

definition match_placeholder :: "string \<Rightarrow> ((string \<times> string) \<times> string) option" where
  "match_placeholder s =
     (case expect (\<lambda>c. c = CHR ''('') s of
        None \<Rightarrow> None
      | Some (_, t) \<Rightarrow>
          if takeWhile is_digit t = [] then None
          else (case match_verb (dropWhile is_digit t) of
                  None \<Rightarrow> None
                | Some (verb, t') \<Rightarrow>
                    (case expect (\<lambda>c. c = CHR '')'') t' of
                       None \<Rightarrow> None
                     | Some (_, rest) \<Rightarrow> Some ((takeWhile is_digit t, verb), rest))))"

lemma expect_Some_iff: "expect P s = Some (c, t) \<longleftrightarrow> s = c # t \<and> P c"
  by (cases s) auto

lemma match_number_append: "fst (match_number s) @ snd (match_number s) = s"
proof (cases "expect (\<lambda>c. c = CHR ''.'') (dropWhile is_digit s)")
  case (Some ct)
  then obtain t where "dropWhile is_digit s = CHR ''.'' # t" by (cases ct) (simp add: expect_Some_iff)
  then show ?thesis using takeWhile_dropWhile_id[of is_digit s] by (simp add: match_number_def)
qed (simp add: match_number_def)

lemma match_verb_append: "match_verb s = Some (verb, t) \<Longrightarrow> s = verb @ t"
  unfolding match_verb_def
  by (auto simp: expect_Some_iff split: option.splits) (metis match_number_append)

lemma match_placeholder_append:
  assumes "match_placeholder s = Some ((ds, verb), t)"
  shows "s = ''('' @ ds @ verb @ '')'' @ t" and "ds \<noteq> []" and "list_all is_digit ds"
proof -
  obtain u t' where s: "s = CHR ''('' # u" and ds: "ds = takeWhile is_digit u" "ds \<noteq> []"
    and v: "match_verb (dropWhile is_digit u) = Some (verb, t')" and t': "t' = CHR '')'' # t"
    using assms by (auto simp: match_placeholder_def expect_Some_iff split: option.splits if_splits)
  have "u = ds @ verb @ CHR '')'' # t"
    using match_verb_append[OF v] takeWhile_dropWhile_id[of is_digit u] by (simp only: ds t')
  then show "s = ''('' @ ds @ verb @ '')'' @ t" by (simp add: s)
  show "ds \<noteq> []" "list_all is_digit ds" using ds by (auto simp: list_all_iff dest: set_takeWhileD)
qed

lemma match_placeholder_rest: "match_placeholder s = Some (p, t) \<Longrightarrow> length t < length s"
  by (cases p) (auto dest: match_placeholder_append(1))

text \<open>The text cut into its placeholders, from the left and without overlap, and the bytes between them.\<close>

function pieces :: "string \<Rightarrow> (char + string \<times> string) list" where
  "pieces s =
     (case match_placeholder s of
        Some (p, t) \<Rightarrow> Inr p # pieces t
      | None \<Rightarrow> (case s of [] \<Rightarrow> [] | c # t \<Rightarrow> Inl c # pieces t))"
  by pat_completeness auto
termination
  by (relation "measure length") (auto dest: match_placeholder_rest)

declare pieces.simps [simp del]

definition FindAll_placeholders :: "string \<Rightarrow> (string \<times> string) list" where
  "FindAll_placeholders s = concat (map (case_sum (\<lambda>_. []) (\<lambda>p. [p])) (pieces s))"

definition ReplaceAll_placeholders :: "string \<Rightarrow> string" where
  "ReplaceAll_placeholders s = concat (map (case_sum (\<lambda>c. [c]) snd) (pieces s))"

section \<open>Arguments\<close>

definition digits_value :: "string \<Rightarrow> nat" where
  "digits_value ds = foldl (\<lambda>a c. 10 * a + (of_char c - 48)) 0 ds"

text \<open>\<open>strconv.Atoi\<close> of a non-empty string of digits.\<close>

definition Atoi_digits :: "string \<Rightarrow> nat option" where
  "Atoi_digits ds = (if digits_value ds < 2 ^ 63 then Some (digits_value ds) else None)"

text \<open>The loop over the placeholders; \<open>None\<close> is the return inside it.\<close>

fun select_args :: "'v list \<Rightarrow> (string \<times> string) list \<Rightarrow> 'v list \<Rightarrow> 'v list option go" where
  "select_args args [] list = Ret (Some list)"
| "select_args args ((ds, verb) # ps) list =
     (case Atoi_digits ds of
        None \<Rightarrow> Ret None
      | Some index \<Rightarrow>
          if index = 0 \<or> length args < index then Panic IndexOutOfRange
          else select_args args ps (list @ [args ! (index - 1)]))"

section \<open>Spaces\<close>

type_synonym seg = "nat \<times> nat list"

function segs :: "nat list \<Rightarrow> seg list" where
  "segs [] = []"
| "segs (b # bs) = (let (r, w) = decode_step (b # bs) in (r, take w (b # bs)) # segs (drop w (b # bs)))"
  by pat_completeness auto
termination
proof (relation "measure length")
  fix b bs x r w
  assume "x = decode_step (b # bs)" and "(r, w) = x"
  then have "1 \<le> w" using decode_step_width[of b bs] by (metis snd_conv)
  then show "(drop w (b # bs), b # bs) \<in> measure length" by auto
qed simp

definition seg_text :: "seg list \<Rightarrow> string" where
  "seg_text xs = string_of_bytes (concat (map snd xs))"

definition sp :: seg where "sp = (32, [32])"

definition digit_seg :: "seg \<Rightarrow> bool" where    \<comment> \<open>\<open>\d\<close>\<close>
  "digit_seg x \<longleftrightarrow> 48 \<le> fst x \<and> fst x \<le> 57"

definition letter_seg :: "seg \<Rightarrow> bool" where    \<comment> \<open>\<open>[\u4e00-\u9fa5]|[a-zA-Z]\<close>\<close>
  "letter_seg x \<longleftrightarrow> (19968 \<le> fst x \<and> fst x \<le> 40869) \<or> (97 \<le> fst x \<and> fst x \<le> 122) \<or> (65 \<le> fst x \<and> fst x \<le> 90)"

definition space_seg :: "seg \<Rightarrow> bool" where    \<comment> \<open>\<open>\s\<close>\<close>
  "space_seg x \<longleftrightarrow> fst x \<in> {9, 10, 12, 13, 32}"

definition white_seg :: "seg \<Rightarrow> bool" where    \<comment> \<open>\<open>unicode.IsSpace\<close>\<close>
  "white_seg x \<longleftrightarrow> fst x \<in> {9, 10, 11, 12, 13, 32, 133, 160, 5760, 8232, 8233, 8239, 8287, 12288} \<or>
     (8192 \<le> fst x \<and> fst x \<le> 8202)"

text \<open>\<open>ReplaceAllString("(P)(Q)", "${1} ${2}")\<close>: a match takes both runes, so the next one starts after them.\<close>

fun put_spaces :: "(seg \<Rightarrow> bool) \<Rightarrow> (seg \<Rightarrow> bool) \<Rightarrow> seg list \<Rightarrow> seg list" where
  "put_spaces P Q (x # y # r) =
     (if P x \<and> Q y then x # sp # y # put_spaces P Q r else x # put_spaces P Q (y # r))"
| "put_spaces P Q r = r"

text \<open>\<open>ReplaceAllString("(\S)(\s+)(\S)", "${1} ${3}")\<close>.\<close>

function merge_spaces :: "seg list \<Rightarrow> seg list" where
  "merge_spaces [] = []"
| "merge_spaces (x # r) =
     (if space_seg x \<or> takeWhile space_seg r = [] then x # merge_spaces r
      else (case dropWhile space_seg r of
              [] \<Rightarrow> x # r
            | y # r' \<Rightarrow> x # sp # y # merge_spaces r'))"
  by pat_completeness auto
termination
proof (relation "measure length")
  fix x r y r'
  assume "dropWhile space_seg r = y # r'"
  then have "length (y # r') \<le> length r" by (metis length_dropWhile_le)
  then show "(r', x # r) \<in> measure length" by simp
qed auto

definition TrimSpace :: "seg list \<Rightarrow> seg list" where
  "TrimSpace xs = rev (dropWhile white_seg (rev (dropWhile white_seg xs)))"

definition tidy :: "seg list \<Rightarrow> seg list" where
  "tidy xs = TrimSpace (merge_spaces (put_spaces letter_seg digit_seg (put_spaces digit_seg letter_seg xs)))"

definition tidy_text :: "string \<Rightarrow> string" where
  "tidy_text s = seg_text (tidy (segs (bytes_of s)))"

section \<open>The function\<close>

definition Sprintf ::
    "(string \<Rightarrow> 'v list \<Rightarrow> string) \<Rightarrow> ('v list \<Rightarrow> 'v) \<Rightarrow> string \<Rightarrow> 'v list \<Rightarrow> string go" where
  "Sprintf fmt slice formatStr args =
     (if formatStr = [] then Ret []
      else
        let placeholderList = FindAll_placeholders formatStr in
        if length placeholderList = length args then
          go_map (\<lambda>list. case list of
              None \<Rightarrow> fmt formatStr [slice args]
            | Some list \<Rightarrow> tidy_text (fmt (ReplaceAll_placeholders formatStr) list))
            (select_args args placeholderList [])
        else Ret (tidy_text (fmt formatStr args)))"

section \<open>Parsing what was rendered\<close>

text \<open>A format given as its literal bytes and its numbered verbs.\<close>

definition render :: "(char + nat \<times> string) list \<Rightarrow> string" where
  "render ps = concat (map (case_sum (\<lambda>c. [c]) (\<lambda>(i, verb). ''('' @ nat_text i @ verb @ '')'')) ps)"

definition verb_ok :: "string \<Rightarrow> bool" where
  "verb_ok verb \<longleftrightarrow> match_verb verb = Some (verb, [])"

definition piece_ok :: "char + nat \<times> string \<Rightarrow> bool" where
  "piece_ok p = (case p of Inl c \<Rightarrow> c \<noteq> CHR ''('' | Inr (i, verb) \<Rightarrow> i < 2 ^ 63 \<and> verb_ok verb)"

definition numbered :: "(char + nat \<times> string) list \<Rightarrow> nat list" where
  "numbered ps = concat (map (case_sum (\<lambda>_. []) (\<lambda>(i, _). [i])) ps)"

lemma is_digit_nat_text: "list_all is_digit (nat_text n)"
  using nat_text_digits by (auto simp: list_all_iff is_digit_def)

lemma takeWhile_dropWhile_stop:
  "dropWhile P s \<noteq> [] \<Longrightarrow> takeWhile P (s @ u) = takeWhile P s \<and> dropWhile P (s @ u) = dropWhile P s @ u"
  by (auto simp: takeWhile_append dropWhile_append)

lemma match_number_extend:
  assumes "snd (match_number s) \<noteq> []"
  shows "match_number (s @ u) = (fst (match_number s), snd (match_number s) @ u)"
proof (cases "dropWhile is_digit s")
  case Nil
  with assms show ?thesis by (simp add: match_number_def)
next
  case (Cons c t)
  note stop = takeWhile_dropWhile_stop[of is_digit s u, unfolded Cons]
  show ?thesis
  proof (cases "c = CHR ''.''")
    case True
    with assms Cons have "dropWhile is_digit t \<noteq> []" by (simp add: match_number_def)
    from takeWhile_dropWhile_stop[OF this, of u] stop True Cons show ?thesis by (simp add: match_number_def)
  qed (use stop Cons in \<open>simp add: match_number_def\<close>)
qed

lemma match_verb_extend:
  assumes "match_verb s = Some (verb, t)"
  shows "match_verb (s @ u) = Some (verb, t @ u)"
proof -
  obtain b v where s: "s = CHR ''%'' # b" "snd (match_number b) = v # t" "is_lower v"
    "verb = ''%'' @ fst (match_number b) @ [v]"
    using assms by (auto simp: match_verb_def expect_Some_iff split: option.splits)
  with match_number_extend[of b u] show ?thesis by (simp add: match_verb_def)
qed

lemma verb_ok_percent: "verb_ok verb \<Longrightarrow> \<exists>t. verb = CHR ''%'' # t"
  by (auto simp: verb_ok_def match_verb_def expect_Some_iff split: option.splits)

lemma percent_not_digit: "\<not> is_digit (CHR ''%'')"
  by (simp add: is_digit_def)

lemma match_placeholder_render:
  assumes "verb_ok verb"
  shows "match_placeholder (''('' @ nat_text i @ verb @ '')'' @ t) = Some ((nat_text i, verb), t)"
proof -
  obtain v where v: "verb = CHR ''%'' # v" using verb_ok_percent[OF assms] by blast
  define u where "u = verb @ CHR '')'' # t"
  have "takeWhile is_digit (nat_text i @ u) = nat_text i" "dropWhile is_digit (nat_text i @ u) = u"
    using is_digit_nat_text[of i] percent_not_digit by (auto simp: u_def v list_all_iff takeWhile_append dropWhile_append)
  moreover have "match_verb u = Some (verb, CHR '')'' # t)"
    using match_verb_extend[of verb verb "[]"] assms by (simp add: u_def verb_ok_def)
  ultimately show ?thesis by (simp add: match_placeholder_def u_def[symmetric])
qed

lemma pieces_render:
  "list_all piece_ok ps \<Longrightarrow> pieces (render ps) = map (map_sum id (\<lambda>(i, verb). (nat_text i, verb))) ps"
proof (induction ps)
  case Nil
  show ?case by (subst pieces.simps) (simp add: render_def match_placeholder_def)
next
  case (Cons p ps)
  then have IH: "pieces (render ps) = map (map_sum id (\<lambda>(i, verb). (nat_text i, verb))) ps"
    by (intro Cons.IH) simp
  show ?case
  proof (cases p)
    case (Inl c)
    then have "render (p # ps) = c # render ps" "c \<noteq> CHR ''(''"
      using Cons.prems by (simp_all add: render_def piece_ok_def)
    then show ?thesis using IH Inl by (subst pieces.simps) (simp add: match_placeholder_def)
  next
    case (Inr iv)
    obtain i verb where iv: "iv = (i, verb)" by (cases iv)
    have "render (p # ps) = ''('' @ nat_text i @ verb @ '')'' @ render ps" by (simp add: render_def Inr iv)
    moreover have "verb_ok verb" using Cons.prems by (simp add: Inr iv piece_ok_def)
    ultimately show ?thesis
      using IH match_placeholder_render[of verb i "render ps"] by (subst pieces.simps) (simp only: Inr iv, simp)
  qed
qed

lemma digits_value_snoc: "digits_value (ds @ [c]) = 10 * digits_value ds + (of_char c - 48)"
  by (simp add: digits_value_def)

lemma digits_value_nat_text: "digits_value (nat_text n) = n"
proof (induction n rule: nat_text.induct)
  case (1 n)
  have m: "(48 + n mod 10) mod 256 = 48 + n mod 10" by (rule mod_less) (use mod_less_divisor[of 10 n] in linarith)
  show ?case
  proof (cases "n < 10")
    case True
    with m show ?thesis by (subst nat_text.simps) (simp add: digits_value_def)
  next
    case False
    with 1 m show ?thesis by (subst nat_text.simps) (simp add: digits_value_snoc)
  qed
qed

lemma select_args_numbered:
  assumes "\<And>i verb. (i, verb) \<in> set ps \<Longrightarrow> i < 2 ^ 63"
  shows "select_args args (map (\<lambda>(i, verb). (nat_text i, verb)) ps) list =
    (if \<forall>i\<in>fst ` set ps. 0 < i \<and> i \<le> length args
     then Ret (Some (list @ map (\<lambda>(i, _). args ! (i - 1)) ps))
     else Panic IndexOutOfRange)"
  using assms
proof (induction ps arbitrary: list)
  case (Cons p ps)
  obtain i verb where p: "p = (i, verb)" by (cases p)
  have "i < 2 ^ 63" using Cons.prems[of i verb] by (simp add: p)
  then have "Atoi_digits (nat_text i) = Some i" by (simp add: Atoi_digits_def digits_value_nat_text)
  moreover have "select_args args (map (\<lambda>(i, verb). (nat_text i, verb)) ps) l =
    (if \<forall>i\<in>fst ` set ps. 0 < i \<and> i \<le> length args
     then Ret (Some (l @ map (\<lambda>(i, _). args ! (i - 1)) ps)) else Panic IndexOutOfRange)" for l
    by (rule Cons.IH) (use Cons.prems in auto)
  ultimately show ?case by (simp add: p)
qed simp

definition verbs :: "(char + nat \<times> string) list \<Rightarrow> (nat \<times> string) list" where
  "verbs ps = concat (map (case_sum (\<lambda>_. []) (\<lambda>p. [p])) ps)"

lemma verbs_ok: "list_all piece_ok ps \<Longrightarrow> (i, verb) \<in> set (verbs ps) \<Longrightarrow> i < 2 ^ 63"
  by (induction ps) (auto simp: verbs_def piece_ok_def split: sum.splits)

lemma FindAll_render:
  "list_all piece_ok ps \<Longrightarrow> FindAll_placeholders (render ps) = map (\<lambda>(i, verb). (nat_text i, verb)) (verbs ps)"
proof -
  have "concat (map (case_sum (\<lambda>_. []) (\<lambda>p. [p])) (map (map_sum id (\<lambda>(i, verb). (nat_text i, verb))) ps)) =
      map (\<lambda>(i, verb). (nat_text i, verb)) (verbs ps)"
    by (induction ps) (auto simp: verbs_def split: sum.split)
  then show "list_all piece_ok ps \<Longrightarrow> ?thesis" by (simp only: FindAll_placeholders_def pieces_render)
qed

lemma ReplaceAll_render:
  "list_all piece_ok ps \<Longrightarrow>
   ReplaceAll_placeholders (render ps) = concat (map (case_sum (\<lambda>c. [c]) snd) ps)"
proof -
  have "concat (map (case_sum (\<lambda>c. [c]) snd) (map (map_sum id (\<lambda>(i, verb). (nat_text i, verb))) ps)) =
      concat (map (case_sum (\<lambda>c. [c]) snd) ps)"
    by (induction ps) (auto split: sum.split)
  then show "list_all piece_ok ps \<Longrightarrow> ?thesis" by (simp only: ReplaceAll_placeholders_def pieces_render)
qed

text \<open>
  C38: A format with numbered placeholders, as many as there are arguments, is formatted with its plain verbs and
  the arguments in the order of the numbers, each counted from 1; a number that is 0 or larger than
  the number of arguments panics.
\<close>

theorem Sprintf_positional:
  assumes "list_all piece_ok ps" and "ps \<noteq> []" and "length (verbs ps) = length args"
  shows "Sprintf fmt slice (render ps) args =
    (if \<forall>i\<in>fst ` set (verbs ps). 0 < i \<and> i \<le> length args
     then Ret (tidy_text (fmt (concat (map (case_sum (\<lambda>c. [c]) snd) ps))
       (map (\<lambda>(i, _). args ! (i - 1)) (verbs ps))))
     else Panic IndexOutOfRange)"
proof -
  have "render ps \<noteq> []" using assms(2) by (cases ps) (auto simp: render_def split: sum.split prod.split)
  then show ?thesis
    using select_args_numbered[OF verbs_ok[OF assms(1)], where args = args and list = "[]"]
    by (simp add: Sprintf_def FindAll_render ReplaceAll_render assms(1,3))
qed

section \<open>What the spaces look like afterwards\<close>

text \<open>A relation on neighbours that a space never breaks.\<close>

definition spaced :: "(seg \<Rightarrow> seg \<Rightarrow> bool) \<Rightarrow> bool" where
  "spaced R \<longleftrightarrow> (\<forall>x. R x sp \<and> R sp x)"

lemma successively_put_spaces:
  assumes "spaced R"
  shows "successively R xs \<Longrightarrow> successively R (put_spaces P Q xs) \<and>
    (xs \<noteq> [] \<longrightarrow> put_spaces P Q xs \<noteq> [] \<and> hd (put_spaces P Q xs) = hd xs)"
  using assms
  by (induction P Q xs rule: put_spaces.induct) (auto simp: successively_Cons spaced_def)

lemma put_spaces_separates:
  assumes "\<And>x. P x \<Longrightarrow> \<not> Q x" and "\<not> P sp" "\<not> Q sp"
  shows "successively (\<lambda>x y. \<not> (P x \<and> Q y)) (put_spaces P Q xs) \<and>
    (xs \<noteq> [] \<longrightarrow> put_spaces P Q xs \<noteq> [] \<and> hd (put_spaces P Q xs) = hd xs)"
  using assms
proof (induction P Q xs rule: put_spaces.induct)
  case (1 P Q x y r)
  show ?case
  proof (cases "P x \<and> Q y")
    case True
    then have "\<not> P y" using 1(3) by blast
    with True 1 show ?thesis by (auto simp: successively_Cons)
  next
    case False
    with 1 show ?thesis by (auto simp: successively_Cons)
  qed
qed auto

lemma dropWhile_suffix: "\<exists>ys. xs = ys @ dropWhile P xs"
  by (metis takeWhile_dropWhile_id)

lemma successively_merge_spaces:
  assumes "spaced R"
  shows "successively R xs \<Longrightarrow> successively R (merge_spaces xs) \<and>
    (xs \<noteq> [] \<longrightarrow> merge_spaces xs \<noteq> [] \<and> hd (merge_spaces xs) = hd xs)"
proof (induction xs rule: merge_spaces.induct)
  case (2 x r)
  show ?case
  proof (cases "space_seg x \<or> takeWhile space_seg r = []")
    case True
    with 2 show ?thesis by (auto simp: successively_Cons)
  next
    case False
    show ?thesis
    proof (cases "dropWhile space_seg r")
      case Nil
      with False 2(3) show ?thesis by (simp del: dropWhile_eq_Nil_conv)
    next
      case (Cons y r')
      then obtain ys where "r = ys @ y # r'" using dropWhile_suffix[of r space_seg] by auto
      then have "successively R (y # r')"
        using 2(3) by (auto simp: successively_Cons successively_append_iff)
      moreover have "R a sp" "R sp a" for a using assms unfolding spaced_def by blast+
      moreover have "merge_spaces (x # r) = x # sp # y # merge_spaces r'" using False Cons by simp
      ultimately show ?thesis using 2(2)[OF False Cons] by (cases "r' = []") (simp_all add: successively_Cons)
    qed
  qed
qed simp

lemma TrimSpace_split:
  obtains b where "dropWhile white_seg xs = TrimSpace xs @ b"
proof -
  define ys where "ys = dropWhile white_seg xs"
  obtain b where "rev ys = b @ dropWhile white_seg (rev ys)" using dropWhile_suffix[of "rev ys"] by blast
  then have "ys = rev (dropWhile white_seg (rev ys)) @ rev b" by (metis rev_append rev_rev_ident)
  then show thesis by (intro that[of "rev b"]) (simp add: TrimSpace_def ys_def)
qed

lemma successively_TrimSpace: "successively R xs \<Longrightarrow> successively R (TrimSpace xs)"
  using TrimSpace_split[of xs] dropWhile_suffix[of xs white_seg]
  by (metis successively_append_iff)

lemma TrimSpace_ends:
  assumes "TrimSpace xs \<noteq> []"
  shows "\<not> white_seg (hd (TrimSpace xs)) \<and> \<not> white_seg (last (TrimSpace xs))"
proof
  obtain b where b: "dropWhile white_seg xs = TrimSpace xs @ b" by (rule TrimSpace_split)
  then have "dropWhile white_seg xs \<noteq> []" using assms by (simp del: dropWhile_eq_Nil_conv)
  from hd_dropWhile[OF this] show "\<not> white_seg (hd (TrimSpace xs))" using assms by (simp add: b)
  show "\<not> white_seg (last (TrimSpace xs))"
    using assms by (simp add: TrimSpace_def last_rev hd_dropWhile del: dropWhile_eq_Nil_conv)
qed

text \<open>
  In a tidied text no digit stands next to a Latin letter or a Chinese character, in either order, and the
  text neither starts nor ends with white space.
\<close>

lemma tidy_separates:
  "successively (\<lambda>x y. \<not> (digit_seg x \<and> letter_seg y) \<and> \<not> (letter_seg x \<and> digit_seg y)) (tidy xs) \<and>
   (tidy xs \<noteq> [] \<longrightarrow> \<not> white_seg (hd (tidy xs)) \<and> \<not> white_seg (last (tidy xs)))"
proof -
  have disj: "digit_seg x \<Longrightarrow> \<not> letter_seg x" for x by (auto simp: digit_seg_def letter_seg_def)
  have sp: "\<not> digit_seg sp" "\<not> letter_seg sp" by (simp_all add: digit_seg_def letter_seg_def sp_def)
  let ?R = "\<lambda>x y. \<not> (digit_seg x \<and> letter_seg y)" and ?S = "\<lambda>x y. \<not> (letter_seg x \<and> digit_seg y)"
  have R: "successively ?R (put_spaces digit_seg letter_seg xs)"
    using put_spaces_separates[of digit_seg letter_seg] disj sp by blast
  have "spaced ?R" "spaced ?S" by (simp_all add: spaced_def sp)
  note keep = this[THEN successively_put_spaces] this[THEN successively_merge_spaces]
  have S: "successively ?S (put_spaces letter_seg digit_seg (put_spaces digit_seg letter_seg xs))"
    using put_spaces_separates[of letter_seg digit_seg] disj sp by blast
  have "successively ?R (tidy xs)" "successively ?S (tidy xs)"
    using keep R S unfolding tidy_def by (blast intro: successively_TrimSpace)+
  then have "successively (\<lambda>x y. ?R x y \<and> ?S x y) (tidy xs)" by (simp add: successively_conv_nth)
  then show ?thesis using TrimSpace_ends by (auto simp: tidy_def)
qed

lemma tidy_separates_witness:
  "tidy [(97, [97]), (55, [55]), (32, [32])] = [(97, [97]), sp, (55, [55])] \<and>
   \<not> white_seg (last (tidy [(97, [97]), (55, [55]), (32, [32])]))"
proof -
  have "tidy [(97, [97]), (55, [55]), (32, [32])] = [(97, [97]), sp, (55, [55])]"
    by (simp add: tidy_def TrimSpace_def digit_seg_def letter_seg_def space_seg_def white_seg_def sp_def)
  with tidy_separates[of "[(97, [97]), (55, [55]), (32, [32])]"] show ?thesis by simp
qed

text \<open>
  Runs of spaces around a word of one character: the match for the first run takes the word, so the second
  run stays.
\<close>

lemma merge_skips_single:
  assumes "\<not> space_seg x" "\<not> space_seg y" "\<not> space_seg z" "\<not> white_seg x" "\<not> white_seg z"
    and "\<not> digit_seg x" "\<not> digit_seg y" "\<not> digit_seg z"
  shows "tidy [x, sp, sp, y, sp, sp, z] = [x, sp, y, sp, sp, z]"
proof -
  have "space_seg sp" "\<not> digit_seg sp" "\<not> letter_seg sp" "white_seg sp"
    by (simp_all add: space_seg_def digit_seg_def letter_seg_def sp_def white_seg_def)
  with assms show ?thesis by (simp add: tidy_def TrimSpace_def)
qed


lemma segs_ascii: "list_all (\<lambda>b. b < 128) bs \<Longrightarrow> segs bs = map (\<lambda>b. (b, [b])) bs"
  by (induction bs) auto

lemma tidy_text_ascii:
  "ascii s \<Longrightarrow> tidy_text s = seg_text (tidy (map (\<lambda>b. (b, [b])) (bytes_of s)))"
  by (simp add: tidy_text_def segs_ascii ascii_def bytes_of_def list_all_iff)

lemma seg_text_ascii: "seg_text (map (\<lambda>b. (b, [b])) (bytes_of s)) = s"
  by (simp add: seg_text_def bytes_of_def string_of_bytes_def comp_def concat_map_singleton)

lemma Sprintf_positional_witness:
  "Sprintf (\<lambda>f vs. concat (f # vs)) concat ''(2%s)x(1%d)'' [''7'', ''a''] = Ret ''%sx%da 7''"
proof -
  let ?ps = "[Inr (2, ''%s''), Inl (CHR ''x''), Inr (1, ''%d'')] :: (char + nat \<times> string) list"
  have n: "nat_text 2 = ''2''" "nat_text 1 = ''1''" by code_simp+
  have r: "render ?ps = ''(2%s)x(1%d)''" by (simp only: render_def n list.map sum.case prod.case concat.simps append.simps)
  have "list_all piece_ok ?ps"
    by (simp add: piece_ok_def verb_ok_def match_verb_def match_number_def is_lower_def is_digit_def)
  then have f: "Sprintf (\<lambda>f vs. concat (f # vs)) concat (render ?ps) [''7'', ''a''] =
      Ret (tidy_text (concat [''%s'', ''x'', ''%d'', ''a'', ''7'']))"
    by (subst Sprintf_positional) (simp_all add: verbs_def)
  have "tidy [(37, [37]), (115, [115]), (120, [120]), (37, [37]), (100, [100]), (97, [97]), (55, [55])] =
      [(37, [37]), (115, [115]), (120, [120]), (37, [37]), (100, [100]), (97, [97]), (32, [32]), (55, [55])]"
    by (simp add: tidy_def TrimSpace_def digit_seg_def letter_seg_def space_seg_def white_seg_def sp_def)
  then have "tidy (map (\<lambda>b. (b, [b])) (bytes_of ''%sx%da7'')) = map (\<lambda>b. (b, [b])) (bytes_of ''%sx%da 7'')"
    by (simp add: bytes_of_def)
  then have "tidy_text (concat [''%s'', ''x'', ''%d'', ''a'', ''7'']) = ''%sx%da 7''"
    by (simp add: tidy_text_ascii seg_text_ascii)
  with f show ?thesis by (simp only: r)
qed

end
