(* ===== verification/Cluster.thy ===== *)
theory Cluster
  imports GrpcCall
begin

text \<open>
  Several instances sharing the namespace map through one Nacos server: each has its own client state, and all
  act on one world \<open>'w\<close>, of which \<open>stored\<close> reads the content under the shared key. An event is a call of
  \<open>SetServiceNamespace\<close> by an instance, or the watch of an instance delivering what is stored then. The
  sequence of events is arbitrary.
\<close>

section \<open>Instances and events\<close>

record ('i, 'w, 'conn) cluster =
  cl_inst :: "'i \<Rightarrow> ('w, 'conn) call_client"
  cl_world :: 'w

datatype 'i cl_event = Sets 'i string string | Delivers 'i

text \<open>What the instances run with; the watch was registered with \<open>cx_param\<close> and \<open>cx_key\<close>.\<close>

record ('w, 'conn) cluster_env =
  cx_retry :: "(ConfigParam \<times> bool \<times> 'w) retry"
  cx_nacos :: nacos_env
  cx_md5 :: "string \<Rightarrow> string"
  cx_sdk :: "('w, 'conn call_state) config_client"
  cx_enc :: "ns_map \<Rightarrow> string"
  cx_dec :: ns_decoder
  cx_param :: ConfigParam
  cx_key :: string
  cx_stored :: "'w \<Rightarrow> string"

fun cl_step ::
    "('w, 'conn) cluster_env \<Rightarrow> 'i cl_event \<Rightarrow> ('i, 'w, 'conn) cluster \<Rightarrow> ('i, 'w, 'conn) cluster go" where
  "cl_step X (Sets i svc ns) cl =
     (let c = SetServiceNamespace (cx_retry X) (cx_nacos X) (cx_md5 X) (cx_sdk X) (cx_enc X) svc ns
                ((cl_inst cl i)\<lparr>nc_world := cl_world cl\<rparr>)
      in Ret (cl\<lparr>cl_inst := (cl_inst cl)(i := c), cl_world := nc_world c\<rparr>))"
| "cl_step X (Delivers i) cl =
     go_map (\<lambda>c. cl\<lparr>cl_inst := (cl_inst cl)(i := c)\<rparr>)
       (OnChange_body (cx_param X) (call_handler (cx_dec X)) (cx_key X) (cx_stored X (cl_world cl)) (cl_inst cl i))"

definition cl_run ::
    "('w, 'conn) cluster_env \<Rightarrow> 'i cl_event list \<Rightarrow> ('i, 'w, 'conn) cluster \<Rightarrow> ('i, 'w, 'conn) cluster go" where
  "cl_run X = go_fold (cl_step X)"

definition cl_view :: "('i, 'w, 'conn) cluster \<Rightarrow> 'i \<Rightarrow> string \<Rightarrow> string option" where
  "cl_view cl i = ns_view (nc_app (cl_inst cl i))"

definition cl_stored :: "('w, 'conn) cluster_env \<Rightarrow> ('i, 'w, 'conn) cluster \<Rightarrow> string \<Rightarrow> string option" where
  "cl_stored X cl =
     (if cx_stored X (cl_world cl) = [] then Map.empty else map_of (fst (cx_dec X (cx_stored X (cl_world cl)))))"

definition cl_ok :: "('w, 'conn) cluster_env \<Rightarrow> ('i, 'w, 'conn) cluster \<Rightarrow> bool" where
  "cl_ok X cl \<longleftrightarrow>
     (\<forall>i. call_ok (nc_app (cl_inst cl i)) \<and> GrpcCallRelationKey (nc_app (cl_inst cl i)) = cx_key X)"

section \<open>What is documented of the server and of JSON\<close>

text \<open>Encoding a map of strings and decoding it gives the same map; a decoded map has each key once.\<close>

definition codec_law :: "('w, 'conn) cluster_env \<Rightarrow> bool" where
  "codec_law X \<longleftrightarrow> (\<forall>v. distinct (map fst (fst (cx_dec X v)))) \<and>
     (\<forall>mp. distinct (map fst mp) \<longrightarrow> cx_enc X mp \<noteq> [] \<and> map_of (fst (cx_dec X (cx_enc X mp))) = map_of mp)"

text \<open>
  A publication under the key without a compare-and-set guard replaces the content; with an error it may
  or may not have done so. The server is reliable when no publication has an error.
\<close>

definition server_law :: "('w, 'conn) cluster_env \<Rightarrow> bool" where
  "server_law X \<longleftrightarrow> retry_law (cx_retry X) \<and>
     (\<forall>p w r w'. vo_DataId p = cx_key X \<and> vo_CasMd5 p = [] \<and> cc_PublishConfig (cx_sdk X) p w = (r, w') \<longrightarrow>
        cx_stored X w' = vo_Content p \<or> snd r \<noteq> None \<and> cx_stored X w' = cx_stored X w)"

definition reliable :: "('w, 'conn) cluster_env \<Rightarrow> bool" where
  "reliable X \<longleftrightarrow> (\<forall>p w. snd (fst (cc_PublishConfig (cx_sdk X) p w)) = None)"

section \<open>Single events\<close>

lemma publish_stored:
  assumes "server_law X" and "cp_DataId p = cx_key X" and "cp_CasMd5 p = []"
    and "w' = snd (snd (PublishConfig (cx_retry X) (cx_nacos X) (cx_md5 X) (cx_sdk X) p [] w))"
  shows "cx_stored X w' = cp_Content p \<or> \<not> reliable X \<and> cx_stored X w' = cx_stored X w"
proof -
  define q :: "'b call_state vo_ConfigParam" where
    "q = changeOwnConfigParam2vo (published_param (cx_nacos X) (cx_md5 X) [] p)"
  have q: "vo_DataId q = cx_key X" "vo_CasMd5 q = []" "vo_Content q = cp_Content p"
    using assms(2,3) by (simp_all add: q_def changeOwnConfigParam2vo_def published_param_def)
  have R: "retry_law (cx_retry X)" using assms(1) by (simp add: server_law_def)
  have P: "\<And>w r w'. cc_PublishConfig (cx_sdk X) q w = (r, w') \<Longrightarrow>
      cx_stored X w' = cp_Content p \<or> snd r \<noteq> None \<and> cx_stored X w' = cx_stored X w"
    using assms(1) q unfolding server_law_def by metis
  have N: "\<And>w r w'. cc_PublishConfig (cx_sdk X) q w = (r, w') \<Longrightarrow> snd r \<noteq> None \<Longrightarrow> \<not> reliable X"
    unfolding reliable_def by (metis fst_conv)
  obtain ok e w1 where first: "cc_PublishConfig (cx_sdk X) q w = ((ok, e), w1)" by (metis prod.exhaust)
  obtain r w2 where second: "cc_PublishConfig (cx_sdk X) q w1 = (r, w2)" by (metis prod.exhaust)
  have "w' = (if e = None then w1 else w2)"
    using first second by (cases e) (simp_all add: assms(4) PublishConfig_eq[OF R] q_def[symmetric] Let_def)
  then show ?thesis using P[OF first] P[OF second] N[OF first] N[OF second] by (auto split: if_splits)
qed

lemma cl_sets:
  assumes "cl_ok X cl" and "codec_law X" and "server_law X"
  shows "\<exists>cl'. cl_step X (Sets i svc ns) cl = Ret cl' \<and> cl_ok X cl' \<and>
    cl_view cl' = (cl_view cl)(i := (cl_view cl i)(svc \<mapsto> ns)) \<and>
    (cl_stored X cl' = cl_view cl' i \<or> \<not> reliable X \<and> cl_stored X cl' = cl_stored X cl)"
proof -
  define c where "c = (cl_inst cl i)\<lparr>nc_world := cl_world cl\<rparr>"
  define c' where "c' = SetServiceNamespace (cx_retry X) (cx_nacos X) (cx_md5 X) (cx_sdk X) (cx_enc X) svc ns c"
  have ok: "call_ok (nc_app c)" and key: "GrpcCallRelationKey (nc_app c) = cx_key X"
    using assms(1) by (simp_all add: c_def cl_ok_def)
  note keeps = SetServiceNamespace_keeps[OF ok c'_def]
  obtain mp where mp: "map_of mp = ns_view (nc_app c')" "distinct (map fst mp)"
    and w: "nc_world c' = snd (snd (PublishConfig (cx_retry X) (cx_nacos X) (cx_md5 X) (cx_sdk X)
         (zero_ConfigParam\<lparr>cp_DataId := GrpcCallRelationKey (nc_app c), cp_Content := cx_enc X mp\<rparr>) []
         (nc_world c)))"
    using SetServiceNamespace_effect[OF ok c'_def] by blast
  have key': "GrpcCallRelationKey (nc_app c') = cx_key X"
    using key by (simp add: c'_def SetServiceNamespace_def Let_def)
  have st: "cx_stored X (nc_world c') = cx_enc X mp \<or>
      \<not> reliable X \<and> cx_stored X (nc_world c') = cx_stored X (cl_world cl)"
    using publish_stored[OF assms(3) _ _ w] key by (simp add: zero_ConfigParam_def c_def)
  have dec: "cx_enc X mp \<noteq> []" "map_of (fst (cx_dec X (cx_enc X mp))) = map_of mp"
    using assms(2) mp(2) by (auto simp: codec_law_def)
  define cl' where "cl' = cl\<lparr>cl_inst := (cl_inst cl)(i := c'), cl_world := nc_world c'\<rparr>"
  have "cl_step X (Sets i svc ns) cl = Ret cl'" by (simp add: cl'_def c'_def c_def Let_def)
  moreover have "cl_ok X cl'" using assms(1) keeps(2) key' by (simp add: cl'_def cl_ok_def)
  moreover have "cl_view cl' = (cl_view cl)(i := (cl_view cl i)(svc \<mapsto> ns))"
    using keeps(1) by (auto simp: cl'_def cl_view_def c_def fun_eq_iff)
  moreover have "cl_stored X cl' = cl_view cl' i \<or> \<not> reliable X \<and> cl_stored X cl' = cl_stored X cl"
    using st dec mp(1) by (auto simp: cl_stored_def cl'_def cl_view_def)
  ultimately show ?thesis by blast
qed

lemma cl_delivers:
  assumes "cl_ok X cl" and "codec_law X"
  shows "\<exists>cl'. cl_step X (Delivers i) cl = Ret cl' \<and> cl_ok X cl' \<and>
    cl_view cl' = (cl_view cl)(i := cl_view cl i ++ cl_stored X cl) \<and> cl_stored X cl' = cl_stored X cl"
proof -
  let ?s = "nc_app (cl_inst cl i)" and ?v = "cx_stored X (cl_world cl)"
  have ok: "call_ok ?s" using assms(1) by (simp add: cl_ok_def)
  obtain tmp e where dec: "cx_dec X ?v = (tmp, e)" by (cases "cx_dec X ?v")
  have "distinct (map fst tmp)" using assms(2) dec by (metis codec_law_def fst_conv)
  from call_handler_effect[where dec = "cx_dec X" and data = ?v and key = "cx_key X", OF ok dec this] obtain s' where
    s': "call_handler (cx_dec X) (cx_key X) ?v ?s = Ret s'"
    "ns_view s' = (if ?v = [] then ns_view ?s else ns_view ?s ++ map_of tmp)"
    "GrpcCallRelationKey s' = GrpcCallRelationKey ?s" by blast
  define c' where "c' = (cl_inst cl i)\<lparr>nc_app := s',
      ConfigCacheMap := sm_Store (cx_param X) ?v (ConfigCacheMap (cl_inst cl i))\<rparr>"
  define cl' where "cl' = cl\<lparr>cl_inst := (cl_inst cl)(i := c')\<rparr>"
  have "cl_step X (Delivers i) cl = Ret cl'" by (simp add: OnChange_body_def s'(1) cl'_def c'_def)
  moreover have "cl_ok X cl'"
    using assms(1) handler_keeps_ok[OF ok s'(1)] s'(3) by (simp add: cl'_def c'_def cl_ok_def)
  moreover have "cl_view cl' = (cl_view cl)(i := cl_view cl i ++ cl_stored X cl)"
    by (auto simp: cl'_def c'_def cl_view_def fun_eq_iff s'(2) cl_stored_def dec)
  moreover have "cl_stored X cl' = cl_stored X cl" by (simp add: cl_stored_def cl'_def)
  ultimately show ?thesis by blast
qed

lemma cl_step_returns:
  assumes "cl_ok X cl" and "codec_law X" and "server_law X"
  shows "\<exists>cl'. cl_step X e cl = Ret cl' \<and> cl_ok X cl'"
proof (cases e)
  case Sets
  then show ?thesis using cl_sets[OF assms] by blast
next
  case Delivers
  then show ?thesis using cl_delivers[OF assms(1,2)] by blast
qed

lemma cl_run_returns:
  "cl_ok X cl \<Longrightarrow> codec_law X \<Longrightarrow> server_law X \<Longrightarrow> \<exists>cl'. cl_run X evs cl = Ret cl' \<and> cl_ok X cl'"
proof (induction evs arbitrary: cl)
  case (Cons e evs)
  obtain cl1 where "cl_step X e cl = Ret cl1" "cl_ok X cl1" using cl_step_returns[OF Cons.prems] by blast
  with Cons.IH[of cl1] Cons.prems show ?case by (simp add: cl_run_def)
qed (simp add: cl_run_def)

section \<open>Runs\<close>

text \<open>Who knows that \<open>svc\<close> is in \<open>ns\<close>: an instance, or the server.\<close>

definition cl_known :: "('w, 'conn) cluster_env \<Rightarrow> ('i, 'w, 'conn) cluster \<Rightarrow> string \<Rightarrow> string \<Rightarrow> bool" where
  "cl_known X cl svc ns \<longleftrightarrow> cl_stored X cl svc = Some ns \<or> (\<exists>i. cl_view cl i svc = Some ns)"

lemma cl_step_known:
  assumes ok: "cl_ok X cl" "codec_law X" "server_law X"
    and "cl_step X e cl = Ret cl'" and "cl_known X cl' svc ns"
  shows "cl_known X cl svc ns \<or> (\<exists>i. e = Sets i svc ns)"
proof (cases e)
  case (Sets i svc1 ns1)
  with cl_sets[OF ok, of i svc1 ns1] assms(4,5) show ?thesis
    by (auto simp: cl_known_def split: if_splits)
next
  case (Delivers i)
  with cl_delivers[OF ok(1,2), of i] assms(4,5) show ?thesis
    by (auto simp: cl_known_def split: if_splits)
qed

lemma cl_run_known:
  "cl_ok X cl \<Longrightarrow> codec_law X \<Longrightarrow> server_law X \<Longrightarrow> cl_run X evs cl = Ret cl' \<Longrightarrow>
   cl_known X cl' svc ns \<Longrightarrow> cl_known X cl svc ns \<or> (\<exists>i. Sets i svc ns \<in> set evs)"
proof (induction evs arbitrary: cl)
  case (Cons e evs)
  obtain cl1 where cl1: "cl_step X e cl = Ret cl1" "cl_ok X cl1"
    using cl_step_returns[OF Cons.prems(1,2,3)] by blast
  then have "cl_run X evs cl1 = Ret cl'" using Cons.prems(4) by (simp add: cl_run_def)
  from Cons.IH[OF cl1(2) Cons.prems(2,3) this Cons.prems(5)]
  consider "cl_known X cl1 svc ns" | i where "Sets i svc ns \<in> set evs" by blast
  then show ?case
  proof cases
    case 1
    from cl_step_known[OF Cons.prems(1,2,3) cl1(1) this] show ?thesis by (auto simp del: cl_step.simps)
  next
    case 2
    then show ?thesis by auto
  qed
qed (simp add: cl_run_def)

lemma map_add_again: "m ++ n ++ n = m ++ n"
  by (auto simp: map_add_def fun_eq_iff split: option.split)

lemma cl_deliveries:
  "cl_ok X cl \<Longrightarrow> codec_law X \<Longrightarrow>
   \<exists>cl'. cl_run X (map Delivers js) cl = Ret cl' \<and> cl_stored X cl' = cl_stored X cl \<and>
     cl_view cl' = (\<lambda>j. if j \<in> set js then cl_view cl j ++ cl_stored X cl else cl_view cl j)"
proof (induction js arbitrary: cl)
  case (Cons j js)
  obtain cl1 where cl1: "cl_step X (Delivers j) cl = Ret cl1" "cl_ok X cl1"
    "cl_view cl1 = (cl_view cl)(j := cl_view cl j ++ cl_stored X cl)" "cl_stored X cl1 = cl_stored X cl"
    using cl_delivers[OF Cons.prems] by blast
  obtain cl' where cl': "cl_run X (map Delivers js) cl1 = Ret cl'" "cl_stored X cl' = cl_stored X cl1"
    "cl_view cl' = (\<lambda>j. if j \<in> set js then cl_view cl1 j ++ cl_stored X cl1 else cl_view cl1 j)"
    using Cons.IH[OF cl1(2) Cons.prems(2)] by blast
  have run: "cl_run X (map Delivers (j # js)) cl = Ret cl'"
    using cl1(1) cl'(1) by (simp add: cl_run_def del: cl_step.simps)
  have view: "cl_view cl' =
      (\<lambda>k. if k \<in> set (j # js) then cl_view cl k ++ cl_stored X cl else cl_view cl k)"
    unfolding cl'(3) cl1(3,4) by (auto simp: map_add_again)
  have "cl_stored X cl' = cl_stored X cl" using cl'(2) cl1(4) by (rule trans)
  with run view show ?case by (intro exI[of _ cl'] conjI)
qed (simp add: cl_run_def)

section \<open>An instance of the laws\<close>

text \<open>A codec: numbers in unary, strings and lists behind their lengths.\<close>

definition enc_nat :: "nat \<Rightarrow> string" where
  "enc_nat n = replicate n (CHR ''1'') @ ''0''"

fun dec_nat :: "string \<Rightarrow> nat \<times> string" where
  "dec_nat [] = (0, [])"
| "dec_nat (c # cs) = (if c = CHR ''1'' then (case dec_nat cs of (n, r) \<Rightarrow> (Suc n, r)) else (0, cs))"

definition enc_str :: "string \<Rightarrow> string" where
  "enc_str s = enc_nat (length s) @ s"

definition dec_str :: "string \<Rightarrow> string \<times> string" where
  "dec_str t = (case dec_nat t of (n, r) \<Rightarrow> (take n r, drop n r))"

fun dec_pairs :: "nat \<Rightarrow> string \<Rightarrow> ns_map" where
  "dec_pairs 0 t = []"
| "dec_pairs (Suc n) t = (case dec_str t of (k, r) \<Rightarrow> case dec_str r of (v, r') \<Rightarrow> (k, v) # dec_pairs n r')"

definition example_enc :: "ns_map \<Rightarrow> string" where
  "example_enc mp = enc_nat (length mp) @ concat (map (\<lambda>(k, v). enc_str k @ enc_str v) mp)"

definition example_dec :: ns_decoder where
  "example_dec t = (AList.clearjunk (case dec_nat t of (n, r) \<Rightarrow> dec_pairs n r), None)"

lemma dec_enc_nat: "dec_nat (enc_nat n @ r) = (n, r)"
  by (induction n) (simp_all add: enc_nat_def)

lemma enc_nat_nonempty: "enc_nat n \<noteq> []"
  by (simp add: enc_nat_def)

lemma dec_enc_str: "dec_str (enc_str s @ r) = (s, r)"
  by (simp add: dec_str_def enc_str_def dec_enc_nat)

lemma dec_enc_pairs: "dec_pairs (length mp) (concat (map (\<lambda>(k, v). enc_str k @ enc_str v) mp)) = mp"
  by (induction mp) (auto simp: dec_enc_str)

definition example_cluster_env :: "(string, nat) cluster_env" where
  "example_cluster_env =
     \<lparr>cx_retry = retry_twice, cx_nacos = example_env, cx_md5 = rev,
      cx_sdk = \<lparr>cc_PublishConfig = (\<lambda>p w. ((True, None), vo_Content p)), cc_ListenConfig = (\<lambda>p w. (None, w)),
        cc_GetConfig = (\<lambda>p w. ((w, None), w))\<rparr>,
      cx_enc = example_enc, cx_dec = example_dec, cx_param = zero_ConfigParam,
      cx_key = ''common-grpc-relation.grpc.call.map.service2namespace'', cx_stored = (\<lambda>w. w)\<rparr>"

lemma example_cluster_laws:
  "codec_law example_cluster_env" "server_law example_cluster_env" "reliable example_cluster_env"
  by (auto simp: codec_law_def server_law_def reliable_def example_cluster_env_def retry_twice_law
      example_dec_def example_enc_def dec_enc_nat dec_enc_pairs map_of_clearjunk distinct_clearjunk enc_nat_nonempty)

definition example_cluster :: "(nat, string, nat) cluster" where
  "example_cluster =
     \<lparr>cl_inst = (\<lambda>i. \<lparr>nc_world = [], ConfigCacheMap = [], ConfigWatchHandleMap = [],
        nc_app = \<lparr>call_once = True, GrpcCallRelationKey = ''common-grpc-relation.grpc.call.map.service2namespace'',
          service2NamespaceMap = [], serviceName2ConnMap = []\<rparr>\<rparr>),
      cl_world = []\<rparr>"

lemma example_cluster_ok: "cl_ok example_cluster_env example_cluster"
  by (simp add: cl_ok_def example_cluster_def example_cluster_env_def call_ok_def sm_ok_def)

lemma example_cluster_view: "cl_view example_cluster = (\<lambda>i. Map.empty)"
  by (auto simp: cl_view_def example_cluster_def ns_view_def str_view_def sm_Load_map_of fun_eq_iff)

lemma example_cluster_stored: "cl_stored example_cluster_env example_cluster = Map.empty"
  by (simp add: cl_stored_def example_cluster_env_def example_cluster_def)

section \<open>What the instances agree on\<close>

text \<open>
  C13: Whatever the instances set and in whatever order the watches deliver, no instance and no published
  map ever names a namespace for a service that nobody knew at the start and no instance has set since: the
  publications and deliveries of the shared map invent nothing. Every such run returns.
\<close>

theorem cluster_no_invention:
  assumes "cl_ok X cl" and "codec_law X" and "server_law X"
  shows "\<exists>cl'. cl_run X evs cl = Ret cl' \<and>
    (\<forall>svc ns. cl_known X cl' svc ns \<longrightarrow> cl_known X cl svc ns \<or> (\<exists>i. Sets i svc ns \<in> set evs))"
  using cl_run_returns[OF assms, of evs] cl_run_known[OF assms, of evs] by blast

lemma cluster_no_invention_witness:
  "\<exists>cl'. cl_run example_cluster_env [Sets 0 ''auth'' ''dev'', Delivers 1, Sets 1 ''kafka'' ''prod''] example_cluster
       = Ret cl' \<and> (\<forall>ns. cl_known example_cluster_env cl' ''auth'' ns \<longrightarrow> ns = ''dev'')"
  using cluster_no_invention[OF example_cluster_ok example_cluster_laws(1,2),
      of "[Sets 0 ''auth'' ''dev'', Delivers 1, Sets 1 ''kafka'' ''prod'']"]
  by (fastforce simp: cl_known_def example_cluster_view example_cluster_stored simp del: cl_step.simps)

text \<open>
  C15: When no publication fails, a namespace that one instance sets reaches every instance to which the
  watch delivers it: each of them then has what it had, overridden by the whole map of the instance that
  set it.
\<close>

theorem setting_converges:
  assumes "cl_ok X cl" and "codec_law X" and "server_law X" and "reliable X"
  shows "\<exists>cl'. cl_run X (Sets i svc ns # map Delivers js) cl = Ret cl' \<and>
    (\<forall>j\<in>set js. cl_view cl' j = cl_view cl j ++ (cl_view cl i)(svc \<mapsto> ns))"
proof -
  obtain cl1 where cl1: "cl_step X (Sets i svc ns) cl = Ret cl1" "cl_ok X cl1"
    "cl_view cl1 = (cl_view cl)(i := (cl_view cl i)(svc \<mapsto> ns))" "cl_stored X cl1 = cl_view cl1 i"
    using cl_sets[OF assms(1,2,3), of i svc ns] assms(4) by blast
  obtain cl' where cl': "cl_run X (map Delivers js) cl1 = Ret cl'"
    "cl_view cl' = (\<lambda>j. if j \<in> set js then cl_view cl1 j ++ cl_stored X cl1 else cl_view cl1 j)"
    using cl_deliveries[OF cl1(2) assms(2), of js] by blast
  have "cl_run X (Sets i svc ns # map Delivers js) cl = Ret cl'"
    using cl1(1) cl'(1) by (simp add: cl_run_def del: cl_step.simps)
  moreover have "\<forall>j\<in>set js. cl_view cl' j = cl_view cl j ++ (cl_view cl i)(svc \<mapsto> ns)"
    by (auto simp: cl'(2) cl1(3,4) fun_eq_iff map_add_def split: option.split)
  ultimately show ?thesis by blast
qed

text \<open>
  C14: Two instances that set the namespaces of two services at the same time lose one of them: the second
  publication replaces the first, since \<open>SetServiceNamespace\<close> publishes the whole map without comparing
  it with what is stored. However often and to whomever the map is then delivered, no instance but the
  first learns of the first setting, and the server does not hold it.
\<close>

theorem concurrent_set_lost:
  assumes "cl_ok X cl" and "codec_law X" and "server_law X" and "reliable X"
    and "a \<noteq> b" and "svc \<noteq> svc2" and "cl_view cl b svc = None"
  shows "\<exists>cl'. cl_run X (Sets a svc ns # Sets b svc2 ns2 # map Delivers js) cl = Ret cl' \<and>
    cl_view cl' a svc = Some ns \<and> cl_stored X cl' svc = None \<and>
    (\<forall>j. j \<noteq> a \<longrightarrow> cl_view cl' j svc = cl_view cl j svc)"
proof -
  obtain cl1 where cl1: "cl_step X (Sets a svc ns) cl = Ret cl1" "cl_ok X cl1"
    "cl_view cl1 = (cl_view cl)(a := (cl_view cl a)(svc \<mapsto> ns))"
    using cl_sets[OF assms(1,2,3), of a svc ns] by blast
  obtain cl2 where cl2: "cl_step X (Sets b svc2 ns2) cl1 = Ret cl2" "cl_ok X cl2"
    "cl_view cl2 = (cl_view cl1)(b := (cl_view cl1 b)(svc2 \<mapsto> ns2))" "cl_stored X cl2 = cl_view cl2 b"
    using cl_sets[OF cl1(2) assms(2,3), of b svc2 ns2] assms(4) by blast
  obtain cl' where cl': "cl_run X (map Delivers js) cl2 = Ret cl'" "cl_stored X cl' = cl_stored X cl2"
    "cl_view cl' = (\<lambda>j. if j \<in> set js then cl_view cl2 j ++ cl_stored X cl2 else cl_view cl2 j)"
    using cl_deliveries[OF cl2(2) assms(2), of js] by blast
  have run: "cl_run X (Sets a svc ns # Sets b svc2 ns2 # map Delivers js) cl = Ret cl'"
    using cl1(1) cl2(1) cl'(1) by (simp add: cl_run_def del: cl_step.simps)
  have lost: "cl_stored X cl2 svc = None" using assms(5,6,7) by (simp add: cl2(3,4) cl1(3))
  have view: "cl_view cl' j svc = cl_view cl2 j svc" for j
    by (simp add: cl'(3) map_add_def lost)
  show ?thesis using run lost assms(5,6) by (auto simp: view cl'(2) cl2(3) cl1(3))
qed

lemma setting_converges_witness:
  "\<exists>cl'. cl_run example_cluster_env (Sets 0 ''auth'' ''dev'' # map Delivers [1, 2]) example_cluster = Ret cl' \<and>
     cl_view cl' 2 ''auth'' = Some ''dev''"
  using setting_converges[OF example_cluster_ok example_cluster_laws, of 0 "''auth''" "''dev''" "[1, 2]"]
  by (fastforce simp: example_cluster_view simp del: cl_step.simps)

lemma concurrent_set_lost_witness:
  "\<exists>cl'. cl_run example_cluster_env (Sets 0 ''auth'' ''dev'' # Sets 1 ''kafka'' ''prod'' # map Delivers [0, 1, 2])
       example_cluster = Ret cl' \<and>
     cl_view cl' 0 ''auth'' = Some ''dev'' \<and> cl_view cl' 1 ''auth'' = None"
  using concurrent_set_lost[OF example_cluster_ok example_cluster_laws, of 0 1 "''auth''" "''kafka''" "''dev''" "''prod''" "[0, 1, 2]"]
  by (auto simp: example_cluster_view simp del: cl_step.simps)

end
