(* ===== verification/Stubs.thy ===== *)
theory Stubs
  imports Server PubSub
begin

text \<open>
  The generated gRPC code: the messages of \<open>proto/pb/*.pb.go\<close> and \<open>publish/*/pb/pubsub.pb.go\<close> with their
  getters, and of the \<open>*_grpc.pb.go\<close> files the client stubs, the server interfaces, the typed streams, the
  handlers and the service descriptors.

  A message struct is a record; \<open>pb_message\<close> is what an \<open>interface{}\<close> holds when it holds one of them. The
  gRPC library is a parameter: on the client a \<open>client_conn\<close>, whose \<open>Invoke\<close> and \<open>NewStream\<close> act on a world
  \<open>'w\<close>, on the server a \<open>server_stream\<close>, the function \<open>dec\<close> that decodes a request into a new message, and the server's
  interceptor. A function that receives into a message gives the message it leaves. A streaming method need not
  return: then it is \<open>None\<close>.
\<close>

section \<open>Messages\<close>

record HelloRequest = hq_Name :: string
record HelloResponse = hr_Reply :: string
record SetLogLevelRequest = lq_Level :: string
record DownloadPprofFileRequest = pq_PprofTypes :: "int list"
record FileChunk = fc_Data :: string
record FileUploadResponse = ur_Message :: string
record DownloadFileRequest = dq_FileId :: string
record v1_Message = m1_Content :: string
record Subscription =
  sb_ClientId :: string
  sb_Topic :: string

datatype pb_message =
    MHelloRequest HelloRequest
  | MHelloResponse HelloResponse
  | MSetLogLevelRequest SetLogLevelRequest
  | MSetLogLevelResponse SetLogLevelResponse
  | MDownloadPprofFileRequest DownloadPprofFileRequest
  | MFileChunk FileChunk
  | MFileUploadResponse FileUploadResponse
  | MDownloadFileRequest DownloadFileRequest
  | MMessage1 v1_Message
  | MMessage2 message
  | MSubscription Subscription
  | MEmpty

text \<open>The getters accept a nil receiver.\<close>

definition GetName :: "HelloRequest option \<Rightarrow> string" where
  "GetName x = (case x of Some m \<Rightarrow> hq_Name m | None \<Rightarrow> [])"
definition GetReply :: "HelloResponse option \<Rightarrow> string" where
  "GetReply x = (case x of Some m \<Rightarrow> hr_Reply m | None \<Rightarrow> [])"
definition GetLevel :: "SetLogLevelRequest option \<Rightarrow> string" where
  "GetLevel x = (case x of Some m \<Rightarrow> lq_Level m | None \<Rightarrow> [])"
definition GetCode :: "SetLogLevelResponse option \<Rightarrow> int" where
  "GetCode x = (case x of Some m \<Rightarrow> rsp_Code m | None \<Rightarrow> 0)"
definition GetErrMsg :: "SetLogLevelResponse option \<Rightarrow> string" where
  "GetErrMsg x = (case x of Some m \<Rightarrow> rsp_ErrMsg m | None \<Rightarrow> [])"
definition GetPprofTypes :: "DownloadPprofFileRequest option \<Rightarrow> int list" where
  "GetPprofTypes x = (case x of Some m \<Rightarrow> pq_PprofTypes m | None \<Rightarrow> [])"
definition GetData :: "FileChunk option \<Rightarrow> string" where
  "GetData x = (case x of Some m \<Rightarrow> fc_Data m | None \<Rightarrow> [])"
definition GetMessage :: "FileUploadResponse option \<Rightarrow> string" where
  "GetMessage x = (case x of Some m \<Rightarrow> ur_Message m | None \<Rightarrow> [])"
definition GetFileId :: "DownloadFileRequest option \<Rightarrow> string" where
  "GetFileId x = (case x of Some m \<Rightarrow> dq_FileId m | None \<Rightarrow> [])"

text \<open>\<open>x.(*T)\<close>\<close>

fun as_HelloRequest :: "pb_message \<Rightarrow> HelloRequest go" where
  "as_HelloRequest (MHelloRequest m) = Ret m"
| "as_HelloRequest _ = Panic TypeAssertFault"
fun as_SetLogLevelRequest :: "pb_message \<Rightarrow> SetLogLevelRequest go" where
  "as_SetLogLevelRequest (MSetLogLevelRequest m) = Ret m"
| "as_SetLogLevelRequest _ = Panic TypeAssertFault"
fun as_Message1 :: "pb_message \<Rightarrow> v1_Message go" where
  "as_Message1 (MMessage1 m) = Ret m"
| "as_Message1 _ = Panic TypeAssertFault"
fun as_Message2 :: "pb_message \<Rightarrow> message go" where
  "as_Message2 (MMessage2 m) = Ret m"
| "as_Message2 _ = Panic TypeAssertFault"

text \<open>
  What the variable of type \<open>*T\<close> holds after the library has received into it: the library fills a message of
  the type it was given, so the first case applies; otherwise it would be as \<open>new(T)\<close> made it.
\<close>

fun into_HelloResponse :: "pb_message \<Rightarrow> HelloResponse" where
  "into_HelloResponse (MHelloResponse m) = m"
| "into_HelloResponse _ = \<lparr>hr_Reply = []\<rparr>"
fun into_SetLogLevelResponse :: "pb_message \<Rightarrow> SetLogLevelResponse" where
  "into_SetLogLevelResponse (MSetLogLevelResponse m) = m"
| "into_SetLogLevelResponse _ = \<lparr>rsp_Code = 0, rsp_ErrMsg = []\<rparr>"
fun into_DownloadPprofFileRequest :: "pb_message \<Rightarrow> DownloadPprofFileRequest" where
  "into_DownloadPprofFileRequest (MDownloadPprofFileRequest m) = m"
| "into_DownloadPprofFileRequest _ = \<lparr>pq_PprofTypes = []\<rparr>"
fun into_FileChunk :: "pb_message \<Rightarrow> FileChunk" where
  "into_FileChunk (MFileChunk m) = m"
| "into_FileChunk _ = \<lparr>fc_Data = []\<rparr>"
fun into_FileUploadResponse :: "pb_message \<Rightarrow> FileUploadResponse" where
  "into_FileUploadResponse (MFileUploadResponse m) = m"
| "into_FileUploadResponse _ = \<lparr>ur_Message = []\<rparr>"
fun into_DownloadFileRequest :: "pb_message \<Rightarrow> DownloadFileRequest" where
  "into_DownloadFileRequest (MDownloadFileRequest m) = m"
| "into_DownloadFileRequest _ = \<lparr>dq_FileId = []\<rparr>"
fun into_Message1 :: "pb_message \<Rightarrow> v1_Message" where
  "into_Message1 (MMessage1 m) = m"
| "into_Message1 _ = \<lparr>m1_Content = []\<rparr>"
fun into_Message2 :: "pb_message \<Rightarrow> message" where
  "into_Message2 (MMessage2 m) = m"
| "into_Message2 _ = \<lparr>msg_Topic = [], msg_Content = []\<rparr>"
fun into_Subscription :: "pb_message \<Rightarrow> Subscription" where
  "into_Subscription (MSubscription m) = m"
| "into_Subscription _ = \<lparr>sb_ClientId = [], sb_Topic = []\<rparr>"

section \<open>Descriptors\<close>

text \<open>
  \<open>interface{}\<close> results of a unary handler are a message or nil. \<open>grpc.UnaryServerInfo\<close> is reduced to \<open>FullMethod\<close>.
\<close>

type_synonym 'w unary_result = "(pb_message option \<times> gerr option) go \<times> 'w"
type_synonym ('ctx, 'w) any_handler = "'ctx \<Rightarrow> pb_message \<Rightarrow> 'w \<Rightarrow> 'w unary_result"
type_synonym ('ctx, 'w) interceptor = "'ctx \<Rightarrow> pb_message \<Rightarrow> string \<Rightarrow> ('ctx, 'w) any_handler \<Rightarrow> 'w \<Rightarrow> 'w unary_result"
type_synonym ('ctx, 'q, 'r, 'w) rpc = "'ctx \<Rightarrow> 'q \<Rightarrow> 'w \<Rightarrow> ('r option \<times> gerr option) go \<times> 'w"
type_synonym 'w stream_result = "(gerr option go \<times> 'w) option"

record 'w server_stream =
  sv_SendMsg :: "pb_message \<Rightarrow> 'w \<Rightarrow> gerr option \<times> 'w"
  sv_RecvMsg :: "pb_message \<Rightarrow> 'w \<Rightarrow> (read_err + pb_message) \<times> 'w"
  sv_SetHeader :: "md \<Rightarrow> 'w \<Rightarrow> 'w"

record ('ctx, 'w) PandaAccountServer =
  pa_SayHello2DemoClient :: "('ctx, HelloRequest, HelloResponse, 'w) rpc"
  pa_UploadFile :: "'w server_stream \<Rightarrow> 'w \<Rightarrow> 'w stream_result"
  pa_DownloadFile :: "DownloadFileRequest \<Rightarrow> 'w server_stream \<Rightarrow> 'w \<Rightarrow> 'w stream_result"

record ('ctx, 'w) PandaAuthServer =
  pu_SayHello :: "('ctx, HelloRequest, HelloResponse, 'w) rpc"

record ('ctx, 'w) CommonServiceServer =
  pc_SetLogLevel :: "('ctx, SetLogLevelRequest, SetLogLevelResponse, 'w) rpc"
  pc_DownloadPprof :: "DownloadPprofFileRequest \<Rightarrow> 'w server_stream \<Rightarrow> 'w \<Rightarrow> 'w stream_result"

record ('ctx, 'w) PubSubServer1 =
  p1_Subscribe :: "v1_Message \<Rightarrow> 'w server_stream \<Rightarrow> 'w \<Rightarrow> 'w stream_result"
  p1_Publish :: "('ctx, v1_Message, v1_Message, 'w) rpc"

record ('ctx, 'w) PubSubServer2 =
  p2_Subscribe :: "Subscription \<Rightarrow> 'w server_stream \<Rightarrow> 'w \<Rightarrow> 'w stream_result"
  p2_Publish :: "('ctx, message, unit, 'w) rpc"

text \<open>What \<open>srv interface{}\<close> holds.\<close>

datatype ('ctx, 'w) any_server =
    AccountServer "('ctx, 'w) PandaAccountServer"
  | AuthServer "('ctx, 'w) PandaAuthServer"
  | CommonServer "('ctx, 'w) CommonServiceServer"
  | PubSub1 "('ctx, 'w) PubSubServer1"
  | PubSub2 "('ctx, 'w) PubSubServer2"

record ('ctx, 'w) method_desc =
  MethodName :: string
  Handler :: "('ctx, 'w) any_server \<Rightarrow> 'ctx \<Rightarrow> (pb_message \<Rightarrow> gerr + pb_message) \<Rightarrow> ('ctx, 'w) interceptor option \<Rightarrow> 'w \<Rightarrow>
    'w unary_result"

record ('ctx, 'w) stream_desc =
  StreamName :: string
  StreamHandler :: "('ctx, 'w) any_server \<Rightarrow> 'w server_stream \<Rightarrow> 'w \<Rightarrow> 'w stream_result"
  ServerStreams :: bool
  ClientStreams :: bool

record ('ctx, 'w) service_desc =
  ServiceName :: string
  Methods :: "('ctx, 'w) method_desc list"
  Streams :: "('ctx, 'w) stream_desc list"
  Metadata :: string

section \<open>Handlers\<close>

text \<open>The common text of the unary handlers: \<open>meth\<close> is the method of the server, if it is of the asserted type.\<close>

definition unary_handler ::
    "pb_message \<Rightarrow> (pb_message \<Rightarrow> 'q go) \<Rightarrow> ('r \<Rightarrow> pb_message) \<Rightarrow> string \<Rightarrow> ('ctx, 'q, 'r, 'w) rpc option \<Rightarrow> 'ctx \<Rightarrow>
     (pb_message \<Rightarrow> gerr + pb_message) \<Rightarrow> ('ctx, 'w) interceptor option \<Rightarrow> 'w \<Rightarrow> 'w unary_result" where
  "unary_handler new_in assert_req result FullMethod meth ctx dec interceptor w =
     (case dec new_in of
        Inl err \<Rightarrow> (Ret (None, Some err), w)
      | Inr inp \<Rightarrow>
          let handler = (\<lambda>ctx req w. case meth of
                None \<Rightarrow> (Panic TypeAssertFault, w)
              | Some f \<Rightarrow> (case assert_req req of
                    Ret q \<Rightarrow> (case f ctx q w of (r, w) \<Rightarrow> (go_map (\<lambda>(resp, err). (map_option result resp, err)) r, w))
                  | Panic p \<Rightarrow> (Panic p, w)
                  | Exit m \<Rightarrow> (Exit m, w)))
          in case interceptor of
               None \<Rightarrow> handler ctx inp w
             | Some ic \<Rightarrow> ic ctx inp FullMethod handler w)"

definition PandaAccount_SayHello2DemoClient_Handler where
  "PandaAccount_SayHello2DemoClient_Handler srv =
     unary_handler (MHelloRequest \<lparr>hq_Name = []\<rparr>) as_HelloRequest MHelloResponse ''/pb.PandaAccount/SayHello2DemoClient''
       (case srv of AccountServer s \<Rightarrow> Some (pa_SayHello2DemoClient s) | _ \<Rightarrow> None)"

definition PandaAuth_SayHello_Handler where
  "PandaAuth_SayHello_Handler srv =
     unary_handler (MHelloRequest \<lparr>hq_Name = []\<rparr>) as_HelloRequest MHelloResponse ''/pb.PandaAuth/SayHello''
       (case srv of AuthServer s \<Rightarrow> Some (pu_SayHello s) | _ \<Rightarrow> None)"

definition CommonService_SetLogLevel_Handler where
  "CommonService_SetLogLevel_Handler srv =
     unary_handler (MSetLogLevelRequest \<lparr>lq_Level = []\<rparr>) as_SetLogLevelRequest MSetLogLevelResponse
       ''/pb.CommonService/setLogLevel'' (case srv of CommonServer s \<Rightarrow> Some (pc_SetLogLevel s) | _ \<Rightarrow> None)"

definition PubSub1_Publish_Handler where
  "PubSub1_Publish_Handler srv =
     unary_handler (MMessage1 \<lparr>m1_Content = []\<rparr>) as_Message1 MMessage1 ''/pubsub.PubSub/Publish''
       (case srv of PubSub1 s \<Rightarrow> Some (p1_Publish s) | _ \<Rightarrow> None)"

definition PubSub2_Publish_Handler where
  "PubSub2_Publish_Handler srv =
     unary_handler (MMessage2 \<lparr>msg_Topic = [], msg_Content = []\<rparr>) as_Message2 (\<lambda>_. MEmpty) ''/pubsub.PubSub/Publish''
       (case srv of PubSub2 s \<Rightarrow> Some (p2_Publish s) | _ \<Rightarrow> None)"

text \<open>An error of a stream as an \<open>error\<close>: \<open>io.EOF\<close> is one whose text is \<open>EOF\<close>.\<close>

primrec stream_error :: "read_err \<Rightarrow> gerr" where
  "stream_error EOF = PlainErr ''EOF''"
| "stream_error (ReadErr e) = e"

text \<open>The handlers of methods that receive one request and stream the answer.\<close>

definition server_streaming_handler ::
    "pb_message \<Rightarrow> (pb_message \<Rightarrow> 'q) \<Rightarrow> ('q \<Rightarrow> 'w server_stream \<Rightarrow> 'w \<Rightarrow> 'w stream_result) option \<Rightarrow> 'w server_stream \<Rightarrow> 'w \<Rightarrow>
     'w stream_result" where
  "server_streaming_handler new_m into meth stream w =
     (case sv_RecvMsg stream new_m w of
        (Inl err, w) \<Rightarrow> Some (Ret (Some (stream_error err)), w)
      | (Inr m, w) \<Rightarrow>
          (case meth of None \<Rightarrow> Some (Panic TypeAssertFault, w) | Some f \<Rightarrow> f (into m) stream w))"

definition PandaAccount_UploadFile_Handler where
  "PandaAccount_UploadFile_Handler srv stream w =
     (case srv of AccountServer s \<Rightarrow> pa_UploadFile s stream w | _ \<Rightarrow> Some (Panic TypeAssertFault, w))"

definition PandaAccount_DownloadFile_Handler where
  "PandaAccount_DownloadFile_Handler srv =
     server_streaming_handler (MDownloadFileRequest \<lparr>dq_FileId = []\<rparr>) into_DownloadFileRequest
       (case srv of AccountServer s \<Rightarrow> Some (pa_DownloadFile s) | _ \<Rightarrow> None)"

definition CommonService_DownloadPprofFile_Handler where
  "CommonService_DownloadPprofFile_Handler srv =
     server_streaming_handler (MDownloadPprofFileRequest \<lparr>pq_PprofTypes = []\<rparr>) into_DownloadPprofFileRequest
       (case srv of CommonServer s \<Rightarrow> Some (pc_DownloadPprof s) | _ \<Rightarrow> None)"

definition PubSub1_Subscribe_Handler where
  "PubSub1_Subscribe_Handler srv =
     server_streaming_handler (MMessage1 \<lparr>m1_Content = []\<rparr>) into_Message1
       (case srv of PubSub1 s \<Rightarrow> Some (p1_Subscribe s) | _ \<Rightarrow> None)"

definition PubSub2_Subscribe_Handler where
  "PubSub2_Subscribe_Handler srv =
     server_streaming_handler (MSubscription \<lparr>sb_ClientId = [], sb_Topic = []\<rparr>) into_Subscription
       (case srv of PubSub2 s \<Rightarrow> Some (p2_Subscribe s) | _ \<Rightarrow> None)"

text \<open>The typed streams that a method of the server is given.\<close>

definition uploadFileServer_SendAndClose :: "'w server_stream \<Rightarrow> FileUploadResponse \<Rightarrow> 'w \<Rightarrow> gerr option \<times> 'w" where
  "uploadFileServer_SendAndClose x m = sv_SendMsg x (MFileUploadResponse m)"

definition uploadFileServer_Recv :: "'w server_stream \<Rightarrow> 'w \<Rightarrow> (read_err + FileChunk) \<times> 'w" where
  "uploadFileServer_Recv x w = map_prod (map_sum id into_FileChunk) id (sv_RecvMsg x (MFileChunk \<lparr>fc_Data = []\<rparr>) w)"

definition fileServer_Send :: "'w server_stream \<Rightarrow> FileChunk \<Rightarrow> 'w \<Rightarrow> gerr option \<times> 'w" where
  "fileServer_Send x m = sv_SendMsg x (MFileChunk m)"

definition subscribeServer1_Send :: "'w server_stream \<Rightarrow> v1_Message \<Rightarrow> 'w \<Rightarrow> gerr option \<times> 'w" where
  "subscribeServer1_Send x m = sv_SendMsg x (MMessage1 m)"

definition subscribeServer2_Send :: "'w server_stream \<Rightarrow> message \<Rightarrow> 'w \<Rightarrow> gerr option \<times> 'w" where
  "subscribeServer2_Send x m = sv_SendMsg x (MMessage2 m)"

section \<open>Service descriptors\<close>

definition CommonService_ServiceDesc :: "('ctx, 'w) service_desc" where
  "CommonService_ServiceDesc =
     \<lparr>ServiceName = ''pb.CommonService'',
      Methods = [\<lparr>MethodName = ''setLogLevel'', Handler = CommonService_SetLogLevel_Handler\<rparr>],
      Streams = [\<lparr>StreamName = ''DownloadPprofFile'', StreamHandler = CommonService_DownloadPprofFile_Handler,
        ServerStreams = True, ClientStreams = False\<rparr>],
      Metadata = ''common.proto''\<rparr>"

definition PandaAccount_ServiceDesc :: "('ctx, 'w) service_desc" where
  "PandaAccount_ServiceDesc =
     \<lparr>ServiceName = ''pb.PandaAccount'',
      Methods = [\<lparr>MethodName = ''SayHello2DemoClient'', Handler = PandaAccount_SayHello2DemoClient_Handler\<rparr>],
      Streams = [\<lparr>StreamName = ''UploadFile'', StreamHandler = PandaAccount_UploadFile_Handler,
        ServerStreams = False, ClientStreams = True\<rparr>,
        \<lparr>StreamName = ''DownloadFile'', StreamHandler = PandaAccount_DownloadFile_Handler,
        ServerStreams = True, ClientStreams = False\<rparr>],
      Metadata = ''panda-account.proto''\<rparr>"

definition PandaAuth_ServiceDesc :: "('ctx, 'w) service_desc" where
  "PandaAuth_ServiceDesc =
     \<lparr>ServiceName = ''pb.PandaAuth'',
      Methods = [\<lparr>MethodName = ''SayHello'', Handler = PandaAuth_SayHello_Handler\<rparr>],
      Streams = [],
      Metadata = ''panda-auth.proto''\<rparr>"

definition PubSub1_ServiceDesc :: "('ctx, 'w) service_desc" where
  "PubSub1_ServiceDesc =
     \<lparr>ServiceName = ''pubsub.PubSub'',
      Methods = [\<lparr>MethodName = ''Publish'', Handler = PubSub1_Publish_Handler\<rparr>],
      Streams = [\<lparr>StreamName = ''Subscribe'', StreamHandler = PubSub1_Subscribe_Handler,
        ServerStreams = True, ClientStreams = False\<rparr>],
      Metadata = ''pubsub.proto''\<rparr>"

definition PubSub2_ServiceDesc :: "('ctx, 'w) service_desc" where
  "PubSub2_ServiceDesc =
     \<lparr>ServiceName = ''pubsub.PubSub'',
      Methods = [\<lparr>MethodName = ''Publish'', Handler = PubSub2_Publish_Handler\<rparr>],
      Streams = [\<lparr>StreamName = ''Subscribe'', StreamHandler = PubSub2_Subscribe_Handler,
        ServerStreams = True, ClientStreams = False\<rparr>],
      Metadata = ''pubsub.proto''\<rparr>"

section \<open>Servers that implement nothing\<close>

definition unimplemented :: "string \<Rightarrow> gerr" where
  "unimplemented name = StatusErr 12 (''method '' @ name @ '' not implemented'')"

definition UnimplementedPandaAccountServer :: "('ctx, 'w) PandaAccountServer" where
  "UnimplementedPandaAccountServer =
     \<lparr>pa_SayHello2DemoClient = (\<lambda>ctx q w. (Ret (None, Some (unimplemented ''SayHello2DemoClient'')), w)),
      pa_UploadFile = (\<lambda>stream w. Some (Ret (Some (unimplemented ''UploadFile'')), w)),
      pa_DownloadFile = (\<lambda>q stream w. Some (Ret (Some (unimplemented ''DownloadFile'')), w))\<rparr>"

definition UnimplementedPandaAuthServer :: "('ctx, 'w) PandaAuthServer" where
  "UnimplementedPandaAuthServer = \<lparr>pu_SayHello = (\<lambda>ctx q w. (Ret (None, Some (unimplemented ''SayHello'')), w))\<rparr>"

definition UnimplementedCommonServiceServer :: "('ctx, 'w) CommonServiceServer" where
  "UnimplementedCommonServiceServer =
     \<lparr>pc_SetLogLevel = (\<lambda>ctx q w. (Ret (None, Some (unimplemented ''SetLogLevel'')), w)),
      pc_DownloadPprof = (\<lambda>q stream w. Some (Ret (Some (unimplemented ''DownloadPprofFile'')), w))\<rparr>"

definition UnimplementedPubSubServer1 :: "('ctx, 'w) PubSubServer1" where
  "UnimplementedPubSubServer1 =
     \<lparr>p1_Subscribe = (\<lambda>q stream w. Some (Ret (Some (unimplemented ''Subscribe'')), w)),
      p1_Publish = (\<lambda>ctx q w. (Ret (None, Some (unimplemented ''Publish'')), w))\<rparr>"

definition UnimplementedPubSubServer2 :: "('ctx, 'w) PubSubServer2" where
  "UnimplementedPubSubServer2 =
     \<lparr>p2_Subscribe = (\<lambda>q stream w. Some (Ret (Some (unimplemented ''Subscribe'')), w)),
      p2_Publish = (\<lambda>ctx q w. (Ret (None, Some (unimplemented ''Publish'')), w))\<rparr>"

section \<open>Client stubs\<close>

text \<open>
  \<open>Invoke\<close> is given the request and the message for the response; it also delivers the metadata of header and
  trailer to the call options that ask for them. \<open>NewStream\<close> looks at the two flags of the descriptor.
\<close>

record ('ctx, 'st, 'w) client_conn =
  cn_Invoke :: "'ctx \<Rightarrow> string \<Rightarrow> pb_message \<Rightarrow> pb_message \<Rightarrow> 'w \<Rightarrow> ((gerr option \<times> pb_message) \<times> (md \<times> md)) \<times> 'w"
  cn_NewStream :: "'ctx \<Rightarrow> bool \<times> bool \<Rightarrow> string \<Rightarrow> 'w \<Rightarrow> (gerr + 'st) \<times> 'w"
  cn_SendMsg :: "'st \<Rightarrow> pb_message \<Rightarrow> 'w \<Rightarrow> read_err option \<times> 'w"
  cn_CloseSend :: "'st \<Rightarrow> 'w \<Rightarrow> gerr option \<times> 'w"
  cn_RecvMsg :: "'st \<Rightarrow> pb_message \<Rightarrow> 'w \<Rightarrow> (read_err + pb_message) \<times> 'w"

definition invoke_unary ::
    "('ctx, 'st, 'w) client_conn \<Rightarrow> string \<Rightarrow> pb_message \<Rightarrow> (pb_message \<Rightarrow> 'r) \<Rightarrow> 'ctx \<Rightarrow> pb_message \<Rightarrow> 'w \<Rightarrow>
     (('r option \<times> gerr option) \<times> (md \<times> md)) \<times> 'w" where
  "invoke_unary cc meth out into ctx inp w =
     (case cn_Invoke cc ctx meth inp out w of
        (((Some err, _), md), w) \<Rightarrow> (((None, Some err), md), w)
      | (((None, out), md), w) \<Rightarrow> (((Some (into out), None), md), w))"

definition pandaAccountClient_SayHello2DemoClient where
  "pandaAccountClient_SayHello2DemoClient cc ctx inp =
     invoke_unary cc ''/pb.PandaAccount/SayHello2DemoClient'' (MHelloResponse \<lparr>hr_Reply = []\<rparr>) into_HelloResponse ctx
       (MHelloRequest inp)"

definition pandaAuthClient_SayHello where
  "pandaAuthClient_SayHello cc ctx inp =
     invoke_unary cc ''/pb.PandaAuth/SayHello'' (MHelloResponse \<lparr>hr_Reply = []\<rparr>) into_HelloResponse ctx (MHelloRequest inp)"

definition commonServiceClient_SetLogLevel where
  "commonServiceClient_SetLogLevel cc ctx inp =
     invoke_unary cc ''/pb.CommonService/setLogLevel'' (MSetLogLevelResponse \<lparr>rsp_Code = 0, rsp_ErrMsg = []\<rparr>)
       into_SetLogLevelResponse ctx (MSetLogLevelRequest inp)"

definition pubSubClient1_Publish where
  "pubSubClient1_Publish cc ctx inp =
     invoke_unary cc ''/pubsub.PubSub/Publish'' (MMessage1 \<lparr>m1_Content = []\<rparr>) into_Message1 ctx (MMessage1 inp)"

definition pubSubClient2_Publish where
  "pubSubClient2_Publish cc ctx inp = invoke_unary cc ''/pubsub.PubSub/Publish'' MEmpty (\<lambda>_. ()) ctx (MMessage2 inp)"

text \<open>A call that sends one request and then receives: the stream, or the first error.\<close>

definition open_server_stream ::
    "('ctx, 'st, 'w) client_conn \<Rightarrow> ('ctx, 'w) stream_desc \<Rightarrow> string \<Rightarrow> 'ctx \<Rightarrow> pb_message \<Rightarrow> 'w \<Rightarrow> (gerr + 'st) \<times> 'w" where
  "open_server_stream cc desc meth ctx inp w =
     (case cn_NewStream cc ctx (ClientStreams desc, ServerStreams desc) meth w of
        (Inl err, w) \<Rightarrow> (Inl err, w)
      | (Inr stream, w) \<Rightarrow>
          (case cn_SendMsg cc stream inp w of
             (Some err, w) \<Rightarrow> (Inl (stream_error err), w)
           | (None, w) \<Rightarrow>
               (case cn_CloseSend cc stream w of (Some err, w) \<Rightarrow> (Inl err, w) | (None, w) \<Rightarrow> (Inr stream, w))))"

definition pandaAccountClient_DownloadFile where
  "pandaAccountClient_DownloadFile cc ctx inp =
     open_server_stream cc (Streams PandaAccount_ServiceDesc ! 1) ''/pb.PandaAccount/DownloadFile'' ctx
       (MDownloadFileRequest inp)"

definition commonServiceClient_DownloadPprofFile where
  "commonServiceClient_DownloadPprofFile cc ctx inp =
     open_server_stream cc (Streams CommonService_ServiceDesc ! 0) ''/pb.CommonService/DownloadPprofFile'' ctx
       (MDownloadPprofFileRequest inp)"

definition pubSubClient1_Subscribe where
  "pubSubClient1_Subscribe cc ctx inp =
     open_server_stream cc (Streams PubSub1_ServiceDesc ! 0) ''/pubsub.PubSub/Subscribe'' ctx (MMessage1 inp)"

definition pubSubClient2_Subscribe where
  "pubSubClient2_Subscribe cc ctx inp =
     open_server_stream cc (Streams PubSub2_ServiceDesc ! 0) ''/pubsub.PubSub/Subscribe'' ctx (MSubscription inp)"

definition pandaAccountClient_UploadFile ::
    "('ctx, 'st, 'w) client_conn \<Rightarrow> 'ctx \<Rightarrow> 'w \<Rightarrow> (gerr + 'st) \<times> 'w" where
  "pandaAccountClient_UploadFile cc ctx w =
     (let desc = (Streams PandaAccount_ServiceDesc ! 0 :: ('ctx, 'w) stream_desc) in
      cn_NewStream cc ctx (ClientStreams desc, ServerStreams desc) ''/pb.PandaAccount/UploadFile'' w)"

text \<open>The typed streams of the client.\<close>

definition uploadFileClient_Send where
  "uploadFileClient_Send cc stream m w = cn_SendMsg cc stream (MFileChunk m) w"

definition uploadFileClient_CloseAndRecv ::
    "('ctx, 'st, 'w) client_conn \<Rightarrow> 'st \<Rightarrow> 'w \<Rightarrow> (gerr + FileUploadResponse) \<times> 'w" where
  "uploadFileClient_CloseAndRecv cc stream w =
     (case cn_CloseSend cc stream w of
        (Some err, w) \<Rightarrow> (Inl err, w)
      | (None, w) \<Rightarrow>
          (case cn_RecvMsg cc stream (MFileUploadResponse \<lparr>ur_Message = []\<rparr>) w of
             (Inl err, w) \<Rightarrow> (Inl (stream_error err), w)
           | (Inr m, w) \<Rightarrow> (Inr (into_FileUploadResponse m), w)))"

definition fileClient_Recv :: "('ctx, 'st, 'w) client_conn \<Rightarrow> 'st \<Rightarrow> 'w \<Rightarrow> (read_err + FileChunk) \<times> 'w" where
  "fileClient_Recv cc stream w =
     map_prod (map_sum id into_FileChunk) id (cn_RecvMsg cc stream (MFileChunk \<lparr>fc_Data = []\<rparr>) w)"

definition subscribeClient1_Recv :: "('ctx, 'st, 'w) client_conn \<Rightarrow> 'st \<Rightarrow> 'w \<Rightarrow> (read_err + v1_Message) \<times> 'w" where
  "subscribeClient1_Recv cc stream w =
     map_prod (map_sum id into_Message1) id (cn_RecvMsg cc stream (MMessage1 \<lparr>m1_Content = []\<rparr>) w)"

definition subscribeClient2_Recv :: "('ctx, 'st, 'w) client_conn \<Rightarrow> 'st \<Rightarrow> 'w \<Rightarrow> (read_err + message) \<times> 'w" where
  "subscribeClient2_Recv cc stream w =
     map_prod (map_sum id into_Message2) id
       (cn_RecvMsg cc stream (MMessage2 \<lparr>msg_Topic = [], msg_Content = []\<rparr>) w)"

end
