(* ===== verification/Engine.thy ===== *)
theory Engine
  imports Gateway
begin

text \<open>
  The HTTP side of \<open>panda-grpc-gw/main.go\<close>: the middleware that removes prefixes, the catch-all route of gin and
  the \<open>http.ServeMux\<close> behind it, with its cleaning of paths, its redirects and its choice of the longest
  pattern, as in the standard library of the Go version that \<open>go.mod\<close> names (1.19).

  All patterns that the program registers begin with a slash, so the host of a request plays no part. What the
  gateway's routes, the file server of the static assets and the Kubernetes proxy do with a request is
  outside this theory: a dispatch ends in a \<open>gw_reply\<close> that names them.
\<close>

section \<open>http.ServeMux\<close>

record 'h serve_mux =
  mux_m :: "(string, 'h) gomap"
  mux_es :: "(string \<times> 'h) list"       \<comment> \<open>the patterns that end in a slash, longest first\<close>

definition NewServeMux :: "'h serve_mux" where
  "NewServeMux = \<lparr>mux_m = [], mux_es = []\<rparr>"

fun appendSorted :: "(string \<times> 'h) list \<Rightarrow> string \<times> 'h \<Rightarrow> (string \<times> 'h) list" where
  "appendSorted [] e = [e]"
| "appendSorted (x # xs) e = (if length (fst x) < length (fst e) then e # x # xs else x # appendSorted xs e)"

definition mux_Handle :: "string \<Rightarrow> 'h \<Rightarrow> 'h serve_mux \<Rightarrow> 'h serve_mux go" where
  "mux_Handle pat h mux =
     (if pat = [] then Panic (UserPanic ''http: invalid pattern'')
      else if map_of (mux_m mux) pat \<noteq> None then Panic (UserPanic (''http: multiple registrations for '' @ pat))
      else Ret (mux\<lparr>mux_m := AList.update pat h (mux_m mux),
                    mux_es := if last pat = CHR ''/'' then appendSorted (mux_es mux) (pat, h) else mux_es mux\<rparr>))"

definition mux_match :: "'h serve_mux \<Rightarrow> string \<Rightarrow> 'h option" where
  "mux_match mux path =
     (case map_of (mux_m mux) path of
        Some h \<Rightarrow> Some h
      | None \<Rightarrow> map_option snd (find (\<lambda>(pat, h). HasPrefix path pat) (mux_es mux)))"

definition cleanPath :: "string \<Rightarrow> string" where
  "cleanPath p =
     (if p = [] then ''/''
      else
        let p = (if hd p \<noteq> CHR ''/'' then CHR ''/'' # p else p);
            np = path_Clean p
        in if last p = CHR ''/'' \<and> np \<noteq> ''/'' then np @ ''/'' else np)"

definition redirectToPathSlash :: "'h serve_mux \<Rightarrow> string \<Rightarrow> string option" where
  "redirectToPathSlash mux path =
     (if map_of (mux_m mux) path = None \<and> path \<noteq> [] \<and> map_of (mux_m mux) (path @ ''/'') \<noteq> None \<and>
         last path \<noteq> CHR ''/''
      then Some (path @ ''/'') else None)"

datatype 'h mux_answer = Serve 'h | RedirectTo string | NoHandler

definition mux_Handler :: "string \<Rightarrow> string \<Rightarrow> 'h serve_mux \<Rightarrow> 'h mux_answer" where
  "mux_Handler meth path mux =
     (let found = (\<lambda>path. case mux_match mux path of None \<Rightarrow> NoHandler | Some h \<Rightarrow> Serve h) in
      if meth = ''CONNECT''
      then (case redirectToPathSlash mux path of Some u \<Rightarrow> RedirectTo u | None \<Rightarrow> found path)
      else
        let clean = cleanPath path in
        case redirectToPathSlash mux clean of
          Some u \<Rightarrow> RedirectTo u
        | None \<Rightarrow> if clean \<noteq> path then RedirectTo clean else found path)"

section \<open>What the gateway registers\<close>

datatype gw_handler = GwMux | SwaggerFile | K8sApi | SwaggerUI

definition serveSwaggerUI :: "gw_handler serve_mux \<Rightarrow> gw_handler serve_mux go" where
  "serveSwaggerUI mux = mux_Handle ''/swagger-ui/'' SwaggerUI mux"

definition gateway_mux :: "gw_handler serve_mux go" where
  "gateway_mux =
     go_bind (mux_Handle ''/'' GwMux NewServeMux) (\<lambda>mux.
     go_bind (mux_Handle ''/swagger/'' SwaggerFile mux) (\<lambda>mux.
     go_bind (mux_Handle ''/k8s/'' K8sApi mux) serveSwaggerUI))"

text \<open>\<open>http.StripPrefix\<close>; \<open>raw\<close> is \<open>URL.RawPath\<close>, which is empty unless the path was escaped unusually.\<close>

definition StripPrefix :: "string \<Rightarrow> string \<Rightarrow> string \<Rightarrow> string option" where
  "StripPrefix prefix_text path raw =
     (let p = TrimPrefix path prefix_text; rp = TrimPrefix raw prefix_text in
      if length p < length path \<and> (raw = [] \<or> length rp < length raw) then Some p else None)"

text \<open>\<open>http.ServeFile\<close> refuses a request whose path has an element \<open>..\<close>, with either slash.\<close>

definition containsDotDot :: "string \<Rightarrow> bool" where
  "containsDotDot v \<longleftrightarrow> ''..'' \<in> set (split_byte (CHR ''/'') (map (\<lambda>c. if c = CHR 0x5C then CHR ''/'' else c) v))"

datatype 'cfg gw_reply =
    GatewayRoute string           \<comment> \<open>the gateway's runtime matches this path\<close>
  | SwaggerServed string          \<comment> \<open>the file with this name\<close>
  | K8sReply "'cfg k8s_reply"
  | UIServed string               \<comment> \<open>the static asset for this path\<close>
  | Moved string                  \<comment> \<open>status 301 with this location\<close>
  | InvalidPath                   \<comment> \<open>status 400\<close>
  | PageNotFound                  \<comment> \<open>status 404\<close>

definition gw_serve ::
    "('cfg \<Rightarrow> string) \<Rightarrow> ('cfg, 'cl) k8s_state \<Rightarrow> string \<Rightarrow> string \<Rightarrow> gw_handler \<Rightarrow> 'cfg gw_reply" where
  "gw_serve Host st path raw h =
     (case h of
        GwMux \<Rightarrow> GatewayRoute path
      | SwaggerFile \<Rightarrow>
          (case serveSwaggerFile path of
             NotFound \<Rightarrow> PageNotFound
           | ServeFile f \<Rightarrow> if containsDotDot path then InvalidPath else SwaggerServed f)
      | K8sApi \<Rightarrow> K8sReply (serveK8sApi Host st)
      | SwaggerUI \<Rightarrow> (case StripPrefix ''/swagger-ui/'' path raw of None \<Rightarrow> PageNotFound | Some p \<Rightarrow> UIServed p))"

definition engine_methods :: "string list" where
  "engine_methods =
     [''GET'', ''POST'', ''PUT'', ''PATCH'', ''HEAD'', ''OPTIONS'', ''DELETE'', ''CONNECT'', ''TRACE'']"

text \<open>
  A request through the engine: gin matches its own path against the catch-all, then the middleware
  rewrites the path and the mux sees the rewritten one. The escaped path is left as it was.
\<close>

definition engine_dispatch ::
    "('cfg \<Rightarrow> string) \<Rightarrow> ('cfg, 'cl) k8s_state \<Rightarrow> string \<Rightarrow> string \<Rightarrow> string \<Rightarrow> 'cfg gw_reply go" where
  "engine_dispatch Host st meth path raw =
     (if meth \<in> set engine_methods \<and> HasPrefix path ''/'' then
        go_map (\<lambda>mux.
          let path = RemovePrefix path in
          case mux_Handler meth path mux of
            NoHandler \<Rightarrow> PageNotFound
          | RedirectTo u \<Rightarrow> Moved u
          | Serve h \<Rightarrow> gw_serve Host st path raw h)
        gateway_mux
      else Ret PageNotFound)"

section \<open>The longest pattern\<close>

lemma set_appendSorted [simp]: "set (appendSorted es e) = insert e (set es)"
  by (induction es) auto

lemma appendSorted_sorted:
  "sorted_wrt (\<ge>) (map (length \<circ> fst) es) \<Longrightarrow> sorted_wrt (\<ge>) (map (length \<circ> fst) (appendSorted es e))"
  by (induction es) auto

definition mux_ok :: "'h serve_mux \<Rightarrow> bool" where
  "mux_ok mux \<longleftrightarrow> sorted_wrt (\<ge>) (map (length \<circ> fst) (mux_es mux)) \<and>
     (\<forall>pat h. (pat, h) \<in> set (mux_es mux) \<longleftrightarrow> map_of (mux_m mux) pat = Some h \<and> pat \<noteq> [] \<and> last pat = CHR ''/'')"

lemma NewServeMux_ok: "mux_ok NewServeMux"
  by (simp add: mux_ok_def NewServeMux_def)

lemma mux_Handle_ok: "mux_ok mux \<Longrightarrow> mux_Handle pat h mux = Ret mux' \<Longrightarrow> mux_ok mux'"
  by (auto simp: mux_ok_def mux_Handle_def appendSorted_sorted gomap_simps split: if_splits)

lemma find_longest:
  assumes "sorted_wrt (\<ge>) (map (length \<circ> fst) es)" and "find P es = Some e"
  shows "e \<in> set es \<and> P e \<and> (\<forall>e' \<in> set es. P e' \<longrightarrow> length (fst e') \<le> length (fst e))"
  using assms by (induction es) (auto split: if_splits)

text \<open>
  A path without a pattern of its own is served by the longest registered pattern that ends in a slash and
  begins the path, and by none exactly when there is no such pattern.
\<close>

lemma mux_match_longest:
  assumes "mux_ok mux" and "map_of (mux_m mux) path = None"
  shows "case mux_match mux path of
      None \<Rightarrow> (\<forall>pat h. map_of (mux_m mux) pat = Some h \<longrightarrow> pat \<noteq> [] \<longrightarrow> last pat = CHR ''/'' \<longrightarrow> \<not> HasPrefix path pat)
    | Some h \<Rightarrow> (\<exists>pat. map_of (mux_m mux) pat = Some h \<and> last pat = CHR ''/'' \<and> HasPrefix path pat \<and>
        (\<forall>pat' h'. map_of (mux_m mux) pat' = Some h' \<longrightarrow> pat' \<noteq> [] \<longrightarrow> last pat' = CHR ''/'' \<longrightarrow>
           HasPrefix path pat' \<longrightarrow> length pat' \<le> length pat))"
proof (cases "find (\<lambda>(pat, h). HasPrefix path pat) (mux_es mux)")
  case None
  then have "mux_match mux path = None" by (simp add: mux_match_def assms(2))
  moreover have "\<forall>(pat, h) \<in> set (mux_es mux). \<not> HasPrefix path pat"
    using None by (auto simp: find_None_iff)
  ultimately show ?thesis using assms(1) by (auto simp: mux_ok_def)
next
  case (Some e)
  have "sorted_wrt (\<ge>) (map (length \<circ> fst) (mux_es mux))" using assms(1) by (simp add: mux_ok_def)
  note found = find_longest[OF this Some]
  obtain pat h where e: "e = (pat, h)" by (cases e)
  have h: "(pat, h) \<in> set (mux_es mux)" and pre: "HasPrefix path pat" using found e by auto
  have longest: "\<And>pat' h'. (pat', h') \<in> set (mux_es mux) \<Longrightarrow> HasPrefix path pat' \<Longrightarrow> length pat' \<le> length pat"
    using found e by fastforce
  have "mux_match mux path = Some h" by (simp add: mux_match_def assms(2) Some e)
  moreover have es: "\<And>pat h. (pat, h) \<in> set (mux_es mux) \<longleftrightarrow>
      map_of (mux_m mux) pat = Some h \<and> pat \<noteq> [] \<and> last pat = CHR ''/''"
    using assms(1) by (simp add: mux_ok_def)
  ultimately show ?thesis using h pre longest unfolding es by (auto intro!: exI[of _ pat])
qed

section \<open>Where the gateway sends a path\<close>

definition gw_mux :: "gw_handler serve_mux" where
  "gw_mux =
     \<lparr>mux_m = [(''/'', GwMux), (''/swagger/'', SwaggerFile), (''/k8s/'', K8sApi), (''/swagger-ui/'', SwaggerUI)],
      mux_es = [(''/swagger-ui/'', SwaggerUI), (''/swagger/'', SwaggerFile), (''/k8s/'', K8sApi), (''/'', GwMux)]\<rparr>"

lemma gateway_mux_eq: "gateway_mux = Ret gw_mux"
  by (simp add: gateway_mux_def mux_Handle_def serveSwaggerUI_def NewServeMux_def gw_mux_def)

lemma gw_redirect:
  assumes "p \<noteq> []"
  shows "redirectToPathSlash gw_mux p =
    (if p \<in> {''/swagger'', ''/k8s'', ''/swagger-ui''} then Some (p @ ''/'') else None)"
proof -
  have slash: "''/swagger/'' = ''/swagger'' @ ''/''" "''/k8s/'' = ''/k8s'' @ ''/''" "''/swagger-ui/'' = ''/swagger-ui'' @ ''/''"
    by simp_all
  have "map_of (mux_m gw_mux) (p @ ''/'') \<noteq> None \<longleftrightarrow> p \<in> {''/swagger'', ''/k8s'', ''/swagger-ui''}"
    using assms unfolding gw_mux_def slash by (auto simp del: append.simps(2))
  moreover have "p \<in> {''/swagger'', ''/k8s'', ''/swagger-ui''} \<Longrightarrow> map_of (mux_m gw_mux) p = None \<and> last p \<noteq> CHR ''/''"
    by (auto simp: gw_mux_def)
  ultimately show ?thesis using assms unfolding redirectToPathSlash_def by metis
qed

lemma gw_match:
  assumes "HasPrefix p ''/''"
  shows "mux_match gw_mux p = Some
    (if HasPrefix p ''/swagger-ui/'' then SwaggerUI
     else if HasPrefix p ''/swagger/'' then SwaggerFile
     else if HasPrefix p ''/k8s/'' then K8sApi else GwMux)"
  using assms by (simp add: mux_match_def gw_mux_def HasPrefix_def)

lemma cleanPath_rooted: "HasPrefix (cleanPath p) ''/''"
proof -
  have "HasPrefix (path_Clean (CHR ''/'' # q)) ''/''" for q
    by (simp add: path_Clean_def HasPrefix_def Let_def)
  then have "HasPrefix (path_Clean (if hd p \<noteq> CHR ''/'' then CHR ''/'' # p else p)) ''/''" if "p \<noteq> []"
    using that by (cases p) auto
  then show ?thesis by (auto simp: cleanPath_def Let_def HasPrefix_iff)
qed

text \<open>The dispatch in words: what a cleaned path leads to, by its first element.\<close>

definition gateway_route :: "('cfg \<Rightarrow> string) \<Rightarrow> ('cfg, 'cl) k8s_state \<Rightarrow> string \<Rightarrow> string \<Rightarrow> 'cfg gw_reply" where
  "gateway_route Host st path raw =
     (let p = cleanPath path in
      if p \<in> {''/swagger'', ''/k8s'', ''/swagger-ui''} then Moved (p @ ''/'')
      else if p \<noteq> path then Moved p
      else gw_serve Host st path raw
        (if HasPrefix path ''/swagger-ui/'' then SwaggerUI
         else if HasPrefix path ''/swagger/'' then SwaggerFile
         else if HasPrefix path ''/k8s/'' then K8sApi
         else GwMux))"

lemma engine_dispatch_route:
  assumes "meth \<in> set engine_methods" and "meth \<noteq> ''CONNECT''" and "HasPrefix path ''/''"
  shows "engine_dispatch Host st meth path raw = Ret (gateway_route Host st (RemovePrefix path) raw)"
proof -
  define p where "p = RemovePrefix path"
  have ne: "cleanPath p \<noteq> []" using cleanPath_rooted[of p] by (auto simp: HasPrefix_iff)
  have found: "cleanPath p = p \<Longrightarrow> HasPrefix p ''/''" using cleanPath_rooted[of p] by simp
  show ?thesis
  proof (cases "cleanPath p \<in> {''/swagger'', ''/k8s'', ''/swagger-ui''}")
    case True
    then show ?thesis using assms
      by (auto simp: engine_dispatch_def gateway_mux_eq p_def[symmetric] gateway_route_def mux_Handler_def
          gw_redirect[OF ne] Let_def)
  next
    case False
    then have r: "redirectToPathSlash gw_mux (cleanPath p) = None" by (simp add: gw_redirect[OF ne])
    show ?thesis
    proof (cases "cleanPath p = p")
      case True
      with False r assms gw_match[OF found] show ?thesis
        by (simp add: engine_dispatch_def gateway_mux_eq p_def[symmetric] gateway_route_def mux_Handler_def Let_def)
    next
      case neq: False
      with False r assms show ?thesis
        by (simp add: engine_dispatch_def gateway_mux_eq p_def[symmetric] gateway_route_def mux_Handler_def Let_def)
    qed
  qed
qed

text \<open>\<open>CONNECT\<close> requests: the path is not cleaned, and may have lost its slash with the prefix.\<close>

lemma gw_redirect_any:
  "redirectToPathSlash gw_mux p = (if p \<in> {''/swagger'', ''/k8s'', ''/swagger-ui''} then Some (p @ ''/'') else None)"
proof (cases "p = []")
  case True
  then show ?thesis by (simp add: redirectToPathSlash_def)
next
  case False
  then show ?thesis by (rule gw_redirect)
qed

lemma gw_match_none:
  assumes "\<not> HasPrefix p ''/''"
  shows "mux_match gw_mux p = None"
proof (cases p)
  case (Cons x xs)
  with assms have "x \<noteq> CHR ''/''" by (simp add: HasPrefix_def)
  then show ?thesis by (simp add: Cons mux_match_def gw_mux_def HasPrefix_def)
qed (simp add: mux_match_def gw_mux_def HasPrefix_def)

lemma engine_dispatch_connect:
  assumes "HasPrefix path ''/''"
  shows "engine_dispatch Host st ''CONNECT'' path raw = Ret
    (let p = RemovePrefix path in
     if p \<in> {''/swagger'', ''/k8s'', ''/swagger-ui''} then Moved (p @ ''/'')
     else if HasPrefix p ''/swagger-ui/'' then gw_serve Host st p raw SwaggerUI
     else if HasPrefix p ''/swagger/'' then gw_serve Host st p raw SwaggerFile
     else if HasPrefix p ''/k8s/'' then gw_serve Host st p raw K8sApi
     else if HasPrefix p ''/'' then GatewayRoute p
     else PageNotFound)"
proof -
  define p where "p = RemovePrefix path"
  have run: "engine_dispatch Host st ''CONNECT'' path raw = Ret
      (case mux_Handler ''CONNECT'' p gw_mux of
         NoHandler \<Rightarrow> PageNotFound | RedirectTo u \<Rightarrow> Moved u | Serve h \<Rightarrow> gw_serve Host st p raw h)"
    unfolding p_def by (simp add: engine_dispatch_def assms engine_methods_def gateway_mux_eq Let_def)
  have sub: "HasPrefix p ''/swagger-ui/'' \<Longrightarrow> HasPrefix p ''/''" "HasPrefix p ''/swagger/'' \<Longrightarrow> HasPrefix p ''/''"
    "HasPrefix p ''/k8s/'' \<Longrightarrow> HasPrefix p ''/''"
    by (auto simp: HasPrefix_iff)
  show ?thesis
  proof (cases "HasPrefix p ''/''")
    case True
    then show ?thesis
      by (simp add: run p_def[symmetric] mux_Handler_def gw_redirect_any gw_match Let_def gw_serve_def)
  next
    case False
    then show ?thesis using sub
      by (auto simp: run p_def[symmetric] mux_Handler_def gw_redirect_any gw_match_none Let_def HasPrefix_def)
  qed
qed

text \<open>
  C33: The engine never panics, and where it sends a request is decided by the path without the removed prefixes. That path
  is cleaned first, unless the method is \<open>CONNECT\<close>; the three directories without their slash are redirected to them,
  and so is a path that was not clean to the clean one; the static assets, the swagger files and the Kubernetes proxy get
  the paths below their directory, and every other path that begins with a slash goes to the routes of the gateway. No
  page is found for a method gin does not know, for a path without a slash in front, and for \<open>CONNECT\<close> when the slash
  goes with the prefix.
\<close>

theorem engine_dispatches_by_prefix:
  "engine_dispatch Host st meth path raw = Ret
    (let p = RemovePrefix path;
         c = (if meth = ''CONNECT'' then p else cleanPath p)
     in if \<not> (meth \<in> set engine_methods \<and> HasPrefix path ''/'') then PageNotFound
        else if c \<in> {''/swagger'', ''/k8s'', ''/swagger-ui''} then Moved (c @ ''/'')
        else if c \<noteq> p then Moved c
        else if HasPrefix p ''/swagger-ui/'' then gw_serve Host st p raw SwaggerUI
        else if HasPrefix p ''/swagger/'' then gw_serve Host st p raw SwaggerFile
        else if HasPrefix p ''/k8s/'' then gw_serve Host st p raw K8sApi
        else if HasPrefix p ''/'' then GatewayRoute p
        else PageNotFound)"
proof -
  define p where "p = RemovePrefix path"
  consider (unknown) "meth \<notin> set engine_methods \<or> \<not> HasPrefix path ''/''"
    | (connect) "meth = ''CONNECT''" "HasPrefix path ''/''"
    | (other) "meth \<in> set engine_methods" "meth \<noteq> ''CONNECT''" "HasPrefix path ''/''" by blast
  then show ?thesis
  proof cases
    case unknown
    then show ?thesis by (auto simp: engine_dispatch_def)
  next
    case connect
    then show ?thesis by (simp add: engine_dispatch_connect engine_methods_def Let_def)
  next
    case other
    have "cleanPath p = p \<Longrightarrow> HasPrefix p ''/''" using cleanPath_rooted[of p] by simp
    with other show ?thesis
      by (auto simp: engine_dispatch_route p_def[symmetric] gateway_route_def gw_serve_def Let_def)
  qed
qed

definition example_k8s :: "(string, string) k8s_state" where
  "example_k8s = \<lparr>k8s_once = True, k8s_config = Some ''10.0.0.1'', k8sClient = None, service2NamespacesMp = Map.empty\<rparr>"

lemma k8s_request_proxied:
  "engine_dispatch id example_k8s ''GET'' ''/panda-grpc-gw/k8s/pods'' [] = Ret (K8sReply (Proxy ''10.0.0.1'' ''http'' ''10.0.0.1''))"
proof -
  have "RemovePrefix ''/panda-grpc-gw/k8s/pods'' = ''/k8s/pods''"
    using RemovePrefix_grpc_gw[of "''/k8s/pods''"] by (simp add: sublist_Cons_right)
  moreover have "cleanPath ''/k8s/pods'' = ''/k8s/pods''"
    by (simp add: cleanPath_def path_Clean_def HasPrefix_def)
  ultimately show ?thesis
    using engine_dispatch_route[where meth = "''GET''" and path = "''/panda-grpc-gw/k8s/pods''" and raw = "[]" and
        Host = id and st = example_k8s]
    by (simp add: engine_methods_def HasPrefix_def gateway_route_def gw_serve_def serveK8sApi_def GetK8sConfig_def
        example_k8s_def)
qed

text \<open>
  A redirect of the mux does not know the prefix that was removed: under the gateway's prefix it leads out of
  it.
\<close>

lemma redirect_loses_prefix:
  assumes "meth \<in> set engine_methods" and "meth \<noteq> ''CONNECT''"
    and "\<not> sublist ''/panda-gin-swagger'' (''/panda-grpc-gw'' @ p)" and "cleanPath p \<noteq> p"
    and "cleanPath p \<notin> {''/swagger'', ''/k8s'', ''/swagger-ui''}"
  shows "engine_dispatch Host st meth (''/panda-grpc-gw'' @ p) raw = Ret (Moved (cleanPath p))"
proof -
  have "HasPrefix (''/panda-grpc-gw'' @ p) ''/''" by (simp add: HasPrefix_def)
  from engine_dispatch_route[OF assms(1,2) this, of Host st raw, unfolded RemovePrefix_grpc_gw[OF assms(3)]]
  show ?thesis using assms(4,5) by (simp add: gateway_route_def Let_def)
qed

section \<open>The files served\<close>

lemma clean_elements_plain:
  "''..'' \<notin> set es \<Longrightarrow> clean_elements rooted out es = out @ filter (\<lambda>e. e \<noteq> [] \<and> e \<noteq> ''.'') es"
  by (induction es arbitrary: out) auto

lemma split_byte_snoc:
  "c \<notin> set s \<Longrightarrow> split_byte c (t @ s) = butlast (split_byte c t) @ [last (split_byte c t) @ s]"
proof (induction t)
  case (Cons x t)
  obtain w ws where "split_byte c t = w # ws" by (cases "split_byte c t") auto
  with Cons show ?case by (cases ws) auto
qed simp

lemma split_byte_tl: "set (split_byte c t) \<subseteq> set (tl (split_byte c (s @ c # t)))"
proof (induction s)
  case (Cons x s)
  then show ?case by (cases "split_byte c (s @ c # t)") auto
qed simp

lemma split_byte_mem_append: "w \<in> set (split_byte c t) \<Longrightarrow> w \<in> set (split_byte c (s @ c # t))"
  using split_byte_tl[of c t s] by (cases "split_byte c (s @ c # t)") auto

lemma split_byte_decomp:
  "\<exists>h ws. split_byte c s = h # ws \<and> c \<notin> set h \<and> (\<exists>b. s = h @ b \<and> (b = [] \<or> hd b = c)) \<and>
     (\<forall>w\<in>set ws. c \<notin> set w \<and> (\<exists>a b. s = a @ w @ b \<and> a \<noteq> [] \<and> last a = c \<and> (b = [] \<or> hd b = c)))"
proof (induction s)
  case (Cons x s)
  from Cons.IH obtain h ws b where IH: "split_byte c s = h # ws" "c \<notin> set h" "s = h @ b" "b = [] \<or> hd b = c"
    "\<And>w. w \<in> set ws \<Longrightarrow> c \<notin> set w \<and> (\<exists>a b. s = a @ w @ b \<and> a \<noteq> [] \<and> last a = c \<and> (b = [] \<or> hd b = c))"
    by blast
  have tl: "c \<notin> set w \<and> (\<exists>a b. x # s = a @ w @ b \<and> a \<noteq> [] \<and> last a = c \<and> (b = [] \<or> hd b = c))"
    if w: "w \<in> set ws" for w
  proof -
    obtain a b where "c \<notin> set w" "s = a @ w @ b" "a \<noteq> []" "last a = c" "b = [] \<or> hd b = c" using IH(5)[OF w] by blast
    then show ?thesis by (intro conjI exI[of _ "x # a"] exI[of _ b]) simp_all
  qed
  show ?case
  proof (cases "x = c")
    case True
    have "c \<notin> set h \<and> (\<exists>a b. x # s = a @ h @ b \<and> a \<noteq> [] \<and> last a = c \<and> (b = [] \<or> hd b = c))"
      using IH(2,3,4) True by (intro conjI exI[of _ "[x]"] exI[of _ b]) simp_all
    with True tl IH(1) show ?thesis by auto
  next
    case False
    with tl IH show ?thesis by auto
  qed
qed simp

lemma split_byte_mem:
  "w \<in> set (split_byte c s) \<longleftrightarrow>
     c \<notin> set w \<and> (\<exists>a b. s = a @ w @ b \<and> (a = [] \<or> last a = c) \<and> (b = [] \<or> hd b = c))"
proof
  assume w: "w \<in> set (split_byte c s)"
  obtain h ws where d: "split_byte c s = h # ws" "c \<notin> set h" "\<exists>b. s = h @ b \<and> (b = [] \<or> hd b = c)"
    "\<forall>w\<in>set ws. c \<notin> set w \<and> (\<exists>a b. s = a @ w @ b \<and> a \<noteq> [] \<and> last a = c \<and> (b = [] \<or> hd b = c))"
    using split_byte_decomp[of c s] by blast
  from w d(1) consider "w = h" | "w \<in> set ws" by auto
  then show "c \<notin> set w \<and> (\<exists>a b. s = a @ w @ b \<and> (a = [] \<or> last a = c) \<and> (b = [] \<or> hd b = c))"
  proof cases
    case 1
    with d(2,3) show ?thesis by (metis append_Nil)
  next
    case 2
    with d(4) show ?thesis by blast
  qed
next
  assume "c \<notin> set w \<and> (\<exists>a b. s = a @ w @ b \<and> (a = [] \<or> last a = c) \<and> (b = [] \<or> hd b = c))"
  then obtain a b where w: "c \<notin> set w" and s: "s = a @ w @ b" and a: "a = [] \<or> last a = c" and b: "b = [] \<or> hd b = c"
    by blast
  have wb: "w \<in> set (split_byte c (w @ b))" using w b by (cases b) (auto simp: split_byte_append)
  show "w \<in> set (split_byte c s)"
  proof (cases "a = []")
    case True
    with wb s show ?thesis by simp
  next
    case False
    with a have "s = butlast a @ c # (w @ b)" using append_butlast_last_id[of a] s by (metis append.assoc append_Cons append_Nil)
    with split_byte_mem_append[OF wb] show ?thesis by simp
  qed
qed

text \<open>An element without backslashes is still one when backslashes count as slashes.\<close>

lemma no_DotDot_element:
  assumes "\<not> containsDotDot v"
  shows "''..'' \<notin> set (split_byte (CHR ''/'') v)"
proof
  let ?f = "\<lambda>c. if c = CHR 0x5C then CHR ''/'' else c"
  assume "''..'' \<in> set (split_byte (CHR ''/'') v)"
  then obtain a b where v: "v = a @ ''..'' @ b" and a: "a = [] \<or> last a = CHR ''/''" and b: "b = [] \<or> hd b = CHR ''/''"
    unfolding split_byte_mem by blast
  have "map ?f v = map ?f a @ ''..'' @ map ?f b" by (simp add: v)
  moreover have "map ?f a = [] \<or> last (map ?f a) = CHR ''/''" using a by (cases "a = []") (auto simp: last_map)
  moreover have "map ?f b = [] \<or> hd (map ?f b) = CHR ''/''" using b by (cases "b = []") (auto simp: hd_map)
  ultimately have "containsDotDot v" unfolding containsDotDot_def split_byte_mem by auto
  with assms show False ..
qed

text \<open>
  C32: Whatever path and method a request has, a file that the swagger handler serves lies below \<open>proto\<close>: its name is
  \<open>proto\<close> followed by plain elements, none of them empty, \<open>.\<close> or \<open>..\<close> and none with a slash of its own,
  and the last one ends in \<open>swagger.json\<close>.
\<close>

theorem swagger_files_below_proto:
  assumes "engine_dispatch Host st meth path raw = Ret (SwaggerServed f)"
  shows "\<exists>es. f = join_slash (''proto'' # es) \<and> es \<noteq> [] \<and> HasSuffix (last es) ''swagger.json'' \<and>
    (\<forall>e\<in>set es. e \<noteq> [] \<and> e \<noteq> ''.'' \<and> e \<noteq> ''..'' \<and> CHR ''/'' \<notin> set e)"
proof -
  define q where "q = RemovePrefix path"
  define r where "r = TrimPrefix q ''/swagger/''"
  have "serveSwaggerFile q = ServeFile f" and dd: "\<not> containsDotDot q"
    using assms
    by (auto simp: engine_dispatch_def gateway_mux_eq q_def[symmetric] Let_def gw_serve_def
        split: if_splits mux_answer.splits gw_handler.splits swagger_reply.splits option.splits)
  then have f: "f = path_Join [''./proto/'', r]" and sfx: "HasSuffix q ''swagger.json''"
    by (auto simp: serveSwaggerFile_def r_def split: if_splits)
  have sub: "set (split_byte (CHR ''/'') r) \<subseteq> set (split_byte (CHR ''/'') q) \<and> HasSuffix r ''swagger.json''"
  proof (cases "HasPrefix q ''/swagger/''")
    case True
    then obtain t where t: "q = ''/swagger'' @ CHR ''/'' # t" by (auto simp: HasPrefix_iff)
    then have r: "r = t" using TrimPrefix_append[of "''/swagger/''" t] by (simp add: r_def)
    have "set (split_byte (CHR ''/'') t) \<subseteq> set (split_byte (CHR ''/'') q)"
      unfolding t by (auto intro: split_byte_mem_append)
    moreover have "HasSuffix t ''swagger.json''"
    proof -
      obtain u where "''/swagger/'' @ t = u @ ''swagger.json''" using sfx t by (auto simp: HasSuffix_iff)
      then obtain us where us: "''/swagger/'' = u @ us \<and> us @ t = ''swagger.json'' \<or> t = us @ ''swagger.json''"
        unfolding append_eq_append_conv2 by metis
      have "us = []" if "''/swagger/'' = u @ us" "us @ t = ''swagger.json''"
      proof (rule ccontr)
        assume ne: "us \<noteq> []"
        with that(1) have "last us = CHR ''/''" by (metis last_appendR last.simps list.distinct(1))
        with last_in_set[OF ne] have "CHR ''/'' \<in> set (us @ t)" by simp
        then show False unfolding that(2) by simp
      qed
      with us show ?thesis by (auto simp: HasSuffix_iff intro: exI[of _ "[]"])
    qed
    ultimately show ?thesis by (simp add: r)
  next
    case False
    then show ?thesis using sfx by (simp add: r_def TrimPrefix_def)
  qed
  then obtain t where t: "r = t @ ''swagger.json''" by (auto simp: HasSuffix_iff)
  let ?ws = "split_byte (CHR ''/'') r"
  define es where "es = filter (\<lambda>e. e \<noteq> [] \<and> e \<noteq> ''.'') ?ws"
  have plain: "''..'' \<notin> set ?ws" using sub no_DotDot_element[OF dd] by blast
  have ws: "?ws = butlast (split_byte (CHR ''/'') t) @ [last (split_byte (CHR ''/'') t) @ ''swagger.json'']"
    unfolding t by (rule split_byte_snoc) simp
  have ne: "r \<noteq> []" by (simp add: t)
  have "split_byte (CHR ''/'') (join_slash [''./proto/'', r]) = [''.'', ''proto'', []] @ ?ws" by simp
  moreover have "join_slash (''proto'' # es) \<noteq> []" by (cases es) simp_all
  ultimately have "f = join_slash (''proto'' # es)"
    using ne plain by (simp add: f path_Join_def path_Clean_def HasPrefix_def clean_elements_plain es_def Let_def)
  moreover have "es = filter (\<lambda>e. e \<noteq> [] \<and> e \<noteq> ''.'') (butlast (split_byte (CHR ''/'') t)) @ [last (split_byte (CHR ''/'') t) @ ''swagger.json'']"
    unfolding es_def by (subst ws) simp
  then have "es \<noteq> []" "HasSuffix (last es) ''swagger.json''" by simp_all
  moreover have "\<forall>e\<in>set es. e \<noteq> [] \<and> e \<noteq> ''.'' \<and> e \<noteq> ''..'' \<and> CHR ''/'' \<notin> set e"
    using plain by (auto simp: es_def dest: split_byte_parts)
  ultimately show ?thesis by blast
qed

lemma swagger_files_below_proto_witness:
  "\<exists>f es. engine_dispatch id example_k8s ''GET'' ''/swagger/pb/auth.swagger.json'' [] = Ret (SwaggerServed f) \<and>
     f = join_slash (''proto'' # es) \<and> HasSuffix (last es) ''swagger.json''"
proof -
  have "case engine_dispatch id example_k8s ''GET'' ''/swagger/pb/auth.swagger.json'' [] of
      Ret (SwaggerServed f) \<Rightarrow> True | _ \<Rightarrow> False"
    by code_simp
  then obtain f where "engine_dispatch id example_k8s ''GET'' ''/swagger/pb/auth.swagger.json'' [] = Ret (SwaggerServed f)"
    by (auto split: go.splits gw_reply.splits)
  then show ?thesis using swagger_files_below_proto by blast
qed

text \<open>The request of a directory below the gateway's prefix is redirected out of it.\<close>

lemma redirect_example:
  "engine_dispatch id example_k8s ''GET'' ''/panda-grpc-gw/k8s'' [] = Ret (Moved ''/k8s/'')"
  by code_simp

end
