(* ===== verification/Startup.thy ===== *)
theory Startup
  imports Stubs Holmes Kafka Engine
begin

text \<open>
  How the processes start and what their servers do around a handler: \<open>NewServer\<close> of
  \<open>grpc-server-wrapper.go\<close>, the \<open>main\<close> functions of \<open>panda-auth\<close>, \<open>panda-account\<close>, \<open>panda-export\<close>,
  \<open>panda-grpc-gw\<close> and of the two publish servers, and the tracer's \<open>init\<close> in \<open>common/interceptor\<close>.

  A gRPC server is what it was configured with and the services registered on it, each a descriptor of \<open>Stubs\<close>
  with the implementation. Listening, serving, gin's
  \<open>Run\<close> and \<open>http.ListenAndServe\<close> are parameters: they return an error, or never, or when they are
  stopped. Goroutines that a start leaves behind are listed; what they do is modelled in Holmes and Kafka. A
  handler runs in a goroutine of its own: a panic that nothing recovers ends the process.
\<close>

section \<open>Servers\<close>

datatype unary_interceptor = JaegerUnaryServer
datatype stream_interceptor = JaegerStreamServer

type_synonym ('ctx, 'w) service = "('ctx, 'w) service_desc \<times> ('ctx, 'w) any_server"

record ('ctx, 'w) grpc_server =
  gs_unary :: "unary_interceptor list"
  gs_stream :: "stream_interceptor option"
  gs_keepalive_seconds :: int
  gs_permit_without_stream :: bool
  gs_services :: "('ctx, 'w) service list"

text \<open>\<open>grpc.NewServer()\<close> without options; the keepalive time of the library's default is two hours.\<close>

definition plain_server :: "('ctx, 'w) grpc_server" where
  "plain_server = \<lparr>gs_unary = [], gs_stream = None, gs_keepalive_seconds = 2 * 60 * 60,
     gs_permit_without_stream = False, gs_services = []\<rparr>"

text \<open>Registering a service twice leaves the process, as the library documents.\<close>

definition RegisterService ::
    "('ctx, 'w) service_desc \<Rightarrow> ('ctx, 'w) any_server \<Rightarrow> ('ctx, 'w) grpc_server \<Rightarrow> ('ctx, 'w) grpc_server go" where
  "RegisterService desc srv server =
     (if ServiceName desc \<in> (\<lambda>(d, _). ServiceName d) ` set (gs_services server)
      then Exit (''grpc: Server.RegisterService found duplicate service registration for '' @
             [CHR 0x22] @ ServiceName desc @ [CHR 0x22])
      else Ret (server\<lparr>gs_services := gs_services server @ [(desc, srv)]\<rparr>))"

definition RegisterCommonServiceServer where
  "RegisterCommonServiceServer srv = RegisterService CommonService_ServiceDesc (CommonServer srv)"

definition RegisterPandaAccountServer where
  "RegisterPandaAccountServer srv = RegisterService PandaAccount_ServiceDesc (AccountServer srv)"

definition RegisterPandaAuthServer where
  "RegisterPandaAuthServer srv = RegisterService PandaAuth_ServiceDesc (AuthServer srv)"

definition RegisterPubSubServer1 where
  "RegisterPubSubServer1 srv = RegisterService PubSub1_ServiceDesc (PubSub1 srv)"

definition RegisterPubSubServer2 where
  "RegisterPubSubServer2 srv = RegisterService PubSub2_ServiceDesc (PubSub2 srv)"

datatype background = HolmesInit | PushMetric | CollectMetric | CloseOnSignal | GrpcServing

text \<open>\<open>common\<close> is the model of \<open>GrpcCommonServer\<close>.\<close>

definition NewServer :: "('ctx, 'w) CommonServiceServer \<Rightarrow> (('ctx, 'w) grpc_server \<times> background list) go" where
  "NewServer common =
     go_map (\<lambda>server. (server, [HolmesInit, PushMetric]))
       (RegisterCommonServiceServer common
          (plain_server\<lparr>gs_unary := [JaegerUnaryServer], gs_stream := Some JaegerStreamServer,
             gs_keepalive_seconds := 180, gs_permit_without_stream := True\<rparr>))"

section \<open>Running a handler\<close>

text \<open>
  What becomes of a call: the handler's own outcome on a server without interceptors, else the
  interceptor's around it. The span is dropped here.
\<close>

definition run_stream ::
    "('ctx, 'span) trace_env \<Rightarrow> err_api \<Rightarrow> string \<Rightarrow> 'ctx \<Rightarrow> string \<Rightarrow> (md \<Rightarrow> 'w \<Rightarrow> 'w) \<Rightarrow> (md \<Rightarrow> 'w \<Rightarrow> 'w) \<Rightarrow>
     ('ctx, 'v) grpc_server \<Rightarrow> 'w call \<Rightarrow> 'w call" where
  "run_stream E A stack ctx FullMethod SetHeader SetTrailer server handler w =
     (case gs_stream server of
        None \<Rightarrow> handler w
      | Some JaegerStreamServer \<Rightarrow>
          (case JaegerGrpcStreamServerInterceptor E A stack ctx FullMethod SetHeader SetTrailer handler w of
             (r, w) \<Rightarrow> (go_map fst r, w)))"

fun run_unary ::
    "('ctx, 'span) trace_env \<Rightarrow> err_api \<Rightarrow> string \<Rightarrow> string \<Rightarrow> string \<Rightarrow> unary_interceptor list \<Rightarrow>
     ('ctx \<Rightarrow> 'w \<Rightarrow> ('r option \<times> gerr option) go \<times> 'w) \<Rightarrow> 'ctx \<Rightarrow> 'w \<Rightarrow> ('r option \<times> gerr option) go \<times> 'w" where
  "run_unary E A stack FullMethod params [] handler ctx w = handler ctx w"
| "run_unary E A stack FullMethod params (JaegerUnaryServer # chain) handler ctx w =
     (case JaegerGrpcUnaryServerInterceptor E A stack ctx FullMethod params
             (run_unary E A stack FullMethod params chain handler) w of
        (r, w) \<Rightarrow> (go_map (\<lambda>(resp, err, items). (resp, err)) r, w))"

section \<open>The main functions\<close>

text \<open>\<open>listen_text\<close> is the first word of the message; the publish servers use the standard library's logger.\<close>

definition serve ::
    "(gerr \<Rightarrow> string) \<Rightarrow> string \<Rightarrow> (string \<Rightarrow> gerr + 'l) \<Rightarrow> (('ctx, 'w) grpc_server \<Rightarrow> 'l \<Rightarrow> gerr option) \<Rightarrow> ('ctx, 'w) grpc_server \<Rightarrow> unit go" where
  "serve fmt listen_text Listen Accept server =
     (case Listen '':50051'' of
        Inl err \<Rightarrow> Exit (listen_text @ fmt err)
      | Inr listener \<Rightarrow>
          (case Accept server listener of
             Some err \<Rightarrow> Exit (''Failed to serve: '' @ fmt err)
           | None \<Rightarrow> Ret ()))"

definition auth_server ::
    "('ctx, 'w) CommonServiceServer \<Rightarrow> ('ctx, 'w) PandaAuthServer \<Rightarrow> (('ctx, 'w) grpc_server \<times> background list) go" where
  "auth_server common auth =
     go_bind (NewServer common) (\<lambda>(server, bg). go_map (\<lambda>s. (s, bg)) (RegisterPandaAuthServer auth server))"

definition account_server ::
    "('ctx, 'w) CommonServiceServer \<Rightarrow> ('ctx, 'w) PandaAccountServer \<Rightarrow> (('ctx, 'w) grpc_server \<times> background list) go" where
  "account_server common account =
     go_bind (NewServer common) (\<lambda>(server, bg). go_map (\<lambda>s. (s, bg)) (RegisterPandaAccountServer account server))"

definition pubsub1_server :: "('ctx, 'w) PubSubServer1 \<Rightarrow> ('ctx, 'w) grpc_server go" where
  "pubsub1_server srv = RegisterPubSubServer1 srv plain_server"

definition pubsub2_server :: "('ctx, 'w) PubSubServer2 \<Rightarrow> ('ctx, 'w) grpc_server go" where
  "pubsub2_server srv = RegisterPubSubServer2 srv plain_server"

type_synonym ('ctx, 'w, 'l) accept = "('ctx, 'w) grpc_server \<Rightarrow> 'l \<Rightarrow> gerr option"

definition auth_main ::
    "('ctx, 'w) CommonServiceServer \<Rightarrow> ('ctx, 'w) PandaAuthServer \<Rightarrow> (gerr \<Rightarrow> string) \<Rightarrow> (string \<Rightarrow> gerr + 'l) \<Rightarrow>
     ('ctx, 'w, 'l) accept \<Rightarrow> unit go" where
  "auth_main common auth fmt Listen Accept =
     go_bind (auth_server common auth) (\<lambda>(server, bg). serve fmt ''failed to listen: '' Listen Accept server)"

text \<open>The gRPC server of \<open>panda-account\<close> runs in a goroutine beside gin: the first to fail ends the process.\<close>

definition account_grpc ::
    "('ctx, 'w) CommonServiceServer \<Rightarrow> ('ctx, 'w) PandaAccountServer \<Rightarrow> (gerr \<Rightarrow> string) \<Rightarrow> (string \<Rightarrow> gerr + 'l) \<Rightarrow>
     ('ctx, 'w, 'l) accept \<Rightarrow> unit go" where
  "account_grpc common account fmt Listen Accept =
     go_bind (account_server common account) (\<lambda>(server, bg). serve fmt ''failed to listen: '' Listen Accept server)"

definition account_routes :: "(string \<times> string) list" where
  "account_routes = [(''GET'', ''/test''), (''POST'', ''/test'')]"

definition run_or_panic :: "(gerr \<Rightarrow> string) \<Rightarrow> gerr option \<Rightarrow> unit go" where
  "run_or_panic fmt err = (case err of Some e \<Rightarrow> Panic (UserPanic (fmt e)) | None \<Rightarrow> Ret ())"

definition account_main :: "(gerr \<Rightarrow> string) \<Rightarrow> (string \<Rightarrow> gerr option) \<Rightarrow> unit go" where
  "account_main fmt Run = run_or_panic fmt (Run '':8080'')"

text \<open>
  \<open>panda-export\<close>: its gRPC server in a goroutine, then the collector's gauge (\<open>MustRegister\<close> panics when its name
  is taken), the collecting goroutine and the metrics page. The error of \<open>ListenAndServe\<close> is dropped.
\<close>

definition export_grpc ::
    "('ctx, 'w) CommonServiceServer \<Rightarrow> (gerr \<Rightarrow> string) \<Rightarrow> (string \<Rightarrow> gerr + 'l) \<Rightarrow> ('ctx, 'w, 'l) accept \<Rightarrow> unit go" where
  "export_grpc common fmt Listen Accept =
     go_bind (NewServer common) (\<lambda>(server, bg). serve fmt ''failed to listen: '' Listen Accept server)"

definition InitCollectPrometheus :: "string list \<Rightarrow> (string list \<times> background list) go" where
  "InitCollectPrometheus registered =
     (if ''panda_goroutine_count'' \<in> set registered
      then Panic (UserPanic ''duplicate metrics collector registration attempted'')
      else Ret (registered @ [''panda_goroutine_count''], [CollectMetric]))"

definition export_main :: "string list \<Rightarrow> string serve_mux \<Rightarrow> (string \<Rightarrow> gerr option) \<Rightarrow> (string serve_mux \<times> background list) go" where
  "export_main registered mux ListenAndServe =
     go_bind (InitCollectPrometheus registered) (\<lambda>(registered, bg).
     go_map (\<lambda>mux. let _ = ListenAndServe '':8080'' in (mux, GrpcServing # bg))
       (mux_Handle ''/metrics'' ''promhttp'' mux))"

text \<open>
  The publish servers. That of version 2 also starts the broadcast of another server, which is not registered,
  once it listens.
\<close>

definition publish1_main ::
    "('ctx, 'w) PubSubServer1 \<Rightarrow> (gerr \<Rightarrow> string) \<Rightarrow> (string \<Rightarrow> gerr + 'l) \<Rightarrow> ('ctx, 'w, 'l) accept \<Rightarrow> unit go" where
  "publish1_main srv fmt Listen Accept =
     go_bind (pubsub1_server srv) (serve fmt ''Failed to listen: '' Listen Accept)"

definition publish_main ::
    "('ctx, 'w) PubSubServer2 \<Rightarrow> (gerr \<Rightarrow> string) \<Rightarrow> (string \<Rightarrow> gerr + 'l) \<Rightarrow> ('ctx, 'w, 'l) accept \<Rightarrow> unit go" where
  "publish_main srv fmt Listen Accept =
     go_bind (pubsub2_server srv) (serve fmt ''Failed to listen: '' Listen Accept)"

text \<open>The gateway: its routes, the mux behind the engine, and gin's \<open>Run\<close>.\<close>

definition gateway_main ::
    "(gerr \<Rightarrow> string) \<Rightarrow> ('w, 'conn, 'cfg, 'cl) rpc_env \<Rightarrow> (string \<Rightarrow> gerr option) \<Rightarrow> ('w, 'conn, 'cfg, 'cl) rpc_state \<Rightarrow>
     ('conn gw_route list \<times> gw_handler serve_mux) go" where
  "gateway_main fmt X Run s =
     go_bind (register_gateway X s) (\<lambda>(routes, s).
     go_bind gateway_mux (\<lambda>mux.
     go_map (\<lambda>_. (routes, mux)) (run_or_panic fmt (Run '':8080''))))"

section \<open>The tracer\<close>

record jaeger_cfg = jc_ServiceName :: string

text \<open>
  The package's \<open>init\<close>: \<open>FromEnv\<close> and \<open>NewTracer\<close> are Jaeger's. The error of the former is only logged, and the
  configuration it comes with is used.
\<close>

definition init_tracer ::
    "(gerr \<Rightarrow> string) \<Rightarrow> jaeger_cfg option \<times> gerr option \<Rightarrow> (jaeger_cfg \<Rightarrow> gerr + 'tracer \<times> 'closer) \<Rightarrow>
     ('tracer \<times> 'closer \<times> background list) go" where
  "init_tracer fmt from_env NewTracer =
     (case fst from_env of
        None \<Rightarrow> Panic NilDeref
      | Some cfg \<Rightarrow>
          let cfg = (if jc_ServiceName cfg = [] then cfg\<lparr>jc_ServiceName := ''panda-default''\<rparr> else cfg) in
          case NewTracer cfg of
            Inl err \<Rightarrow> Exit (fmt err)
          | Inr (tracer, closer) \<Rightarrow> Ret (tracer, closer, [CloseOnSignal]))"

section \<open>Which server survives its handlers\<close>

lemmas register_defs = RegisterService_def RegisterCommonServiceServer_def RegisterPandaAccountServer_def
  RegisterPandaAuthServer_def RegisterPubSubServer1_def RegisterPubSubServer2_def plain_server_def

lemma NewServer_eq:
  "NewServer common = Ret (\<lparr>gs_unary = [JaegerUnaryServer], gs_stream = Some JaegerStreamServer, gs_keepalive_seconds = 180,
     gs_permit_without_stream = True, gs_services = [(CommonService_ServiceDesc, CommonServer common)]\<rparr>,
     [HolmesInit, PushMetric])"
  by (simp add: NewServer_def register_defs)

text \<open>The servers of the system: those that start from \<open>NewServer\<close>.\<close>

definition system_server :: "('ctx, 'w) grpc_server \<Rightarrow> bool" where
  "system_server server \<longleftrightarrow> (\<exists>common auth account bg. NewServer common = Ret (server, bg) \<or>
     auth_server common auth = Ret (server, bg) \<or> account_server common account = Ret (server, bg))"

lemma system_server_interceptors:
  "system_server server \<Longrightarrow> gs_unary server = [JaegerUnaryServer] \<and> gs_stream server = Some JaegerStreamServer"
  by (auto simp: system_server_def auth_server_def account_server_def NewServer_eq register_defs go_map_Ret_iff split: if_splits)

lemma pubsub_server_eq: "pubsub2_server srv = Ret (plain_server\<lparr>gs_services := [(PubSub2_ServiceDesc, PubSub2 srv)]\<rparr>)"
  by (simp add: pubsub2_server_def register_defs)

lemma run_stream_system:
  assumes "system_server server" and "\<And>w. handler w = (r, f w)" and "\<And>m. r \<noteq> Exit m"
  shows "\<exists>w'. run_stream E A stack ctx FullMethod SetHeader SetTrailer server handler w = (Ret (visible_error A r), w')"
proof -
  obtain items w' where
    "JaegerGrpcStreamServerInterceptor E A stack ctx FullMethod SetHeader SetTrailer handler w =
      (Ret (visible_error A r, items @ [Finish]), w')"
    using stream_interceptor_result[where shandler = handler and w = w and SetHeader = SetHeader and SetTrailer = SetTrailer and
        E = E and ctx = ctx and FullMethod = FullMethod, OF refl assms(2,3)] by blast
  then show ?thesis using system_server_interceptors[OF assms(1)] by (simp add: run_stream_def)
qed

lemma run_unary_system:
  assumes "system_server server" and "handler (ContextWithSpan (te_tracer E) ctx (server_span E ctx FullMethod)) w = (r, w')"
    and "\<And>m. r \<noteq> Exit m"
  shows "run_unary E A stack FullMethod params (gs_unary server) handler ctx w =
    (Ret (case r of Ret (resp, _) \<Rightarrow> resp | _ \<Rightarrow> None, visible_error A (go_map snd r)), w')"
  using unary_interceptor_result[where handler = "run_unary E A stack FullMethod params [] handler" and params = params and
      A = A and stack = stack and E = E and ctx = ctx and FullMethod = FullMethod and w = w and r = r and w' = w'] assms(2,3)
    system_server_interceptors[OF assms(1)]
  by auto

lemma run_stream_system_at:
  assumes "system_server server"
    and "m = SetMdWithB3 (te_md E) (case FromIncomingContext (te_md E) ctx of None \<Rightarrow> [] | Some m \<Rightarrow> m)
               (Some (Context_of (te_tracer E) (server_span E ctx FullMethod)))"
    and "handler (SetTrailer m (SetHeader m w)) = (r, w')" and "\<And>m. r \<noteq> Exit m"
  shows "run_stream E A stack ctx FullMethod SetHeader SetTrailer server handler w = (Ret (visible_error A r), w')"
proof -
  obtain items where
    "JaegerGrpcStreamServerInterceptor E A stack ctx FullMethod SetHeader SetTrailer handler w =
      (Ret (visible_error A r, items @ [Finish]), w')"
    using stream_interceptor_result[where shandler = handler and w = w and SetHeader = SetHeader and SetTrailer = SetTrailer and
        E = E and ctx = ctx and FullMethod = FullMethod, OF assms(2,3,4)] by blast
  then show ?thesis using system_server_interceptors[OF assms(1)] by (simp add: run_stream_def)
qed

text \<open>The servers of the two publish programs.\<close>

definition publish_server :: "('ctx, 'w) grpc_server \<Rightarrow> bool" where
  "publish_server server \<longleftrightarrow> (\<exists>srv. pubsub1_server srv = Ret server) \<or> (\<exists>srv. pubsub2_server srv = Ret server)"

lemma publish_server_interceptors: "publish_server server \<Longrightarrow> gs_unary server = [] \<and> gs_stream server = None"
  by (auto simp: publish_server_def pubsub1_server_def pubsub2_server_def register_defs)

text \<open>
  C31: On the servers that start from \<open>NewServer\<close>, whatever a unary or a stream handler does short of leaving the
  process, the call returns, in the state the handler left: with the handler's own error, or with the status 590 for a
  panic and for an error text of 201 to 799 bytes. A stream handler finds the header and the trailer of the span set.
  On both publish servers a unary or a stream handler runs bare, and a panic of it is the call's. In every
  state that version 2 can reach, the end of any call of \<open>Subscribe\<close> (the client went away, or sending to it
  failed) is such a panic, because the channel is closed twice.
\<close>

theorem panics_and_servers:
  assumes "system_server server" and "publish_server publish"
    and "handler (ContextWithSpan (te_tracer E) ctx (server_span E ctx FullMethod)) w = (r, w')" and "\<And>m. r \<noteq> Exit m"
    and "m = SetMdWithB3 (te_md E) (case FromIncomingContext (te_md E) ctx of None \<Rightarrow> [] | Some m \<Rightarrow> m)
               (Some (Context_of (te_tracer E) (server_span E ctx FullMethod)))"
    and "shandler (SetTrailer m (SetHeader m v)) = (sr, v')" and "\<And>m. sr \<noteq> Exit m"
    and "v2_run evs s" and "v2_step s (EExit ch) exit"
  shows "run_unary E A stack FullMethod params (gs_unary server) handler ctx w =
      (Ret (case r of Ret (resp, _) \<Rightarrow> resp | _ \<Rightarrow> None, visible_error A (go_map snd r)), w') \<and>
    run_stream E A stack ctx FullMethod SetHeader SetTrailer server shandler v = (Ret (visible_error A sr), v') \<and>
    visible_error A (Panic p) = Some (StatusErr 590 ''server inner error'') \<and>
    run_unary E A stack FullMethod params (gs_unary publish) handler ctx w = handler ctx w \<and>
    run_stream E A stack ctx FullMethod SetHeader SetTrailer publish shandler v = shandler v \<and>
    exit = Panic CloseOfClosed"
proof -
  have "exit = Panic CloseOfClosed"
    using assms(9) exit_of_running[OF v2_run_inv[OF assms(8)]] by (cases rule: v2_stepE) auto
  then show ?thesis
    using run_unary_system[where handler = handler, OF assms(1,3,4)] publish_server_interceptors[OF assms(2)]
      run_stream_system_at[where handler = shandler and SetHeader = SetHeader and SetTrailer = SetTrailer,
        OF assms(1,5,6,7)]
    by (simp add: run_stream_def visible_error_def panic_error_def PANIC_ERR_CODE_def)
qed

text \<open>
  A profile download through the gateway, from the HTTP request to the handler and back: when the body asks for
  no profile, or for a number outside 0 to 5, the handler panics, the server's interceptor turns that into the
  status 590, and the gateway's route, to which the stream brings that error, answers with the gateway's error page
  for it and does not panic.
\<close>

lemma default_profile_request:
  assumes "system_server server"
    and "\<And>n z. \<exists>z'. zip_Create P n z = Inr z'" and "set keys = PprofType_value_keys"
    and "ts = [] \<or> \<not> set ts \<subseteq> {0..5}"
    and "run_stream E A stack ctx M SetHeader SetTrailer server (DownloadPprofFile P OS S keys (Some ts)) w = (Ret answer, w')"
    and "gr_AnnotateContext R = None" and "request_DownloadPprofFile A C = (Some stream, header, None)"
    and "\<And>e. answer = Some e \<Longrightarrow> pc_RecvMsg C stream = Inl e"
  shows "answer = Some panic_error \<and>
    download_pprof_route R A C write_err hw = (Ret (), gr_HTTPError R panic_error hw)"
proof -
  have "\<exists>v. run_stream E A stack ctx M SetHeader SetTrailer server (DownloadPprofFile P OS S keys (Some ts)) w =
      (Ret (visible_error A (Panic NilDeref)), v)"
    by (rule run_stream_system[where f = "\<lambda>w. w", OF assms(1)])
      (simp_all add: DownloadPprofFile_panics[OF assms(2,3,4)])
  then have "answer = Some panic_error" using assms(5) by (auto simp: visible_error_def)
  then show ?thesis using assms(6,7,8) by (simp add: download_pprof_route_def)
qed

section \<open>How the processes end\<close>

text \<open>
  A server that cannot listen or serve leaves the process with a message; so does gin, by a panic. The exporter's
  main function returns as if all were well when its HTTP server cannot listen.
\<close>

lemma serve_ends:
  "serve fmt t Listen Accept server = Ret () \<longleftrightarrow>
     (\<exists>l. Listen '':50051'' = Inr l \<and> Accept server l = None)"
  by (auto simp: serve_def split: sum.split option.split)

lemma export_main_ignores_error:
  "go_returns (export_main registered mux (\<lambda>_. Some e)) \<longleftrightarrow> go_returns (export_main registered mux (\<lambda>_. None))"
  by (simp add: export_main_def)

lemma init_tracer_default_name:
  assumes "init_tracer fmt (Some cfg, err) NewTracer = Ret (t, c, bg)"
  shows "\<exists>cfg'. NewTracer cfg' = Inr (t, c) \<and>
    jc_ServiceName cfg' = (if jc_ServiceName cfg = [] then ''panda-default'' else jc_ServiceName cfg) \<and> bg = [CloseOnSignal]"
  using assms by (auto simp: init_tracer_def Let_def split: sum.splits if_splits)

text \<open>Jaeger returns no configuration with an error; then the package cannot be initialised.\<close>

lemma init_tracer_bad_environment: "init_tracer fmt (None, Some err) NewTracer = Panic NilDeref"
  by (simp add: init_tracer_def)

section \<open>Examples\<close>

definition example_account_server :: "('ctx, 'w) grpc_server" where
  "example_account_server = fst (case account_server UnimplementedCommonServiceServer UnimplementedPandaAccountServer of Ret x \<Rightarrow> x)"

lemma example_system_server: "system_server example_account_server"
proof -
  have "account_server UnimplementedCommonServiceServer UnimplementedPandaAccountServer =
      Ret (example_account_server, [HolmesInit, PushMetric])"
    by (simp add: example_account_server_def account_server_def NewServer_eq register_defs CommonService_ServiceDesc_def
        PandaAccount_ServiceDesc_def)
  then show ?thesis unfolding system_server_def by blast
qed

lemma panics_and_servers_witness:
  "run_stream example_trace_env example_err_api ''stack'' (None, None) ''m'' (\<lambda>m w. w) (\<lambda>m w. w)
     (plain_server\<lparr>gs_services := [(PubSub2_ServiceDesc, PubSub2 (UnimplementedPubSubServer2 :: (md option \<times> md option, unit) PubSubServer2))]\<rparr>)
     (\<lambda>w. (Panic NilDeref, Suc w)) 0 = (Panic NilDeref, 1) \<and>
   run_stream example_trace_env example_err_api ''stack'' (None, None) ''m'' (\<lambda>m w. w) (\<lambda>m w. w)
     (example_account_server :: (md option \<times> md option, unit) grpc_server)
     (\<lambda>w. (Panic NilDeref, Suc w)) 0 = (Ret (Some (StatusErr 590 ''server inner error'')), 1)"
proof -
  have "vs_running one_subscriber 0 = Some (''c1'', ''news'')"
    by (simp add: one_subscriber_def subscribe_begin_def NewPubSubServer_def Let_def)
  then have step: "v2_step one_subscriber (EExit 0) (subscribe_exit 0 ''c1'' ''news'' one_subscriber)"
    by (rule step_done)
  have pub: "publish_server (plain_server\<lparr>gs_services :=
      [(PubSub2_ServiceDesc, PubSub2 (UnimplementedPubSubServer2 :: (md option \<times> md option, unit) PubSubServer2))]\<rparr>)"
    using pubsub_server_eq unfolding publish_server_def by blast
  show ?thesis
    using panics_and_servers[where handler = "\<lambda>ctx w. (Ret (Some (1::nat), None), w)" and w = "0::nat" and w' = 0 and
        r = "Ret (Some 1, None)" and E = example_trace_env and ctx = "(None, None)" and FullMethod = "''m''" and
        A = example_err_api and stack = "''stack''" and SetHeader = "\<lambda>m w. w" and shandler = "\<lambda>w. (Panic NilDeref, Suc w)" and
        sr = "Panic NilDeref" and v' = 1 and SetTrailer = "\<lambda>m w. w" and v = "0::nat" and params = "[]" and p = NilDeref,
        OF example_system_server[where 'a = "md option \<times> md option" and 'b = unit] pub refl _ refl _ _ one_subscriber_run step]
    by (simp add: visible_error_def panic_error_def PANIC_ERR_CODE_def)
qed

lemma default_profile_request_witness:
  "\<exists>hw. download_pprof_route \<lparr>gr_AnnotateContext = None, gr_HTTPError = (\<lambda>e w. w\<lparr>hw_status := Some (590, [])\<rparr>)\<rparr> example_err_api
     \<lparr>pc_read_body = None, pc_decode = None, pc_decode_EOF = True, pc_DownloadPprofFile = Inr (0::nat),
      pc_Header = (\<lambda>_. Inr []), pc_RecvMsg = (\<lambda>_. Inl panic_error)\<rparr> None
     \<lparr>hw_headers = [], hw_status = None, hw_body = []\<rparr> = (Ret (), hw) \<and> hw_status hw = Some (590, [])"
proof -
  let ?w = "\<lparr>dk_files = (\<lambda>_. []), dk_unread = [], dk_sent = []\<rparr>"
  let ?keys = "[''goroutine'', ''heap'', ''threadcreate'', ''allocs'', ''block'', ''mutex'', ''profile'']"
  let ?server = example_account_server
  have c: "\<exists>z'. zip_Create list_zip n z = Inr z'" for n z by (simp add: list_zip_def)
  have k: "set ?keys = PprofType_value_keys" by (simp add: PprofType_value_keys_def)
  have "\<exists>v. run_stream example_trace_env example_err_api ''stack'' (None, None) ''m'' (\<lambda>m w. w) (\<lambda>m w. w) ?server
      (DownloadPprofFile list_zip disk_os disk_stream ?keys (Some [])) ?w =
      (Ret (visible_error example_err_api (Panic NilDeref)), v)"
    by (rule run_stream_system[where f = "\<lambda>w. w", OF example_system_server])
      (simp_all add: DownloadPprofFile_panics[OF c k])
  then obtain v where v: "run_stream example_trace_env example_err_api ''stack'' (None, None) ''m'' (\<lambda>m w. w) (\<lambda>m w. w) ?server
      (DownloadPprofFile list_zip disk_os disk_stream ?keys (Some [])) ?w = (Ret (Some panic_error), v)"
    by (auto simp: visible_error_def)
  show ?thesis
    using default_profile_request[OF example_system_server c k _ v, where
        R = "\<lparr>gr_AnnotateContext = None, gr_HTTPError = (\<lambda>e w. w\<lparr>hw_status := Some (590, [])\<rparr>)\<rparr>" and stream = "0::nat" and
        header = "[]" and write_err = None and hw = "\<lparr>hw_headers = [], hw_status = None, hw_body = []\<rparr>" and
        C = "\<lparr>pc_read_body = None, pc_decode = None, pc_decode_EOF = True, pc_DownloadPprofFile = Inr (0::nat),
          pc_Header = (\<lambda>_. Inr []), pc_RecvMsg = (\<lambda>_. Inl panic_error)\<rparr>"]
    by (simp add: request_DownloadPprofFile_def)
qed

end
