(* ===== verification/JsonWrapper.thy ===== *)
theory JsonWrapper
  imports GoPrelude
begin

text \<open>
  \<open>common/utils/json-wrapper/json-wrapper.go\<close>: the wrappers of json-iterator that the rest of the code encodes and
  decodes with. The library is the record \<open>json_api\<close>: for a type of values \<open>'v\<close>, its encoders with their errors,
  its decoder (the value it leaves, and its error) and its validity test. The encoders without an error
  return what the library returned beside the error.
\<close>

record 'v json_api =
  js_Marshal :: "'v \<Rightarrow> string \<times> gerr option"
  js_MarshalToString :: "'v \<Rightarrow> string \<times> gerr option"
  js_MarshalIndent :: "'v \<Rightarrow> string \<Rightarrow> string \<Rightarrow> string \<times> gerr option"
  js_Valid :: "string \<Rightarrow> bool"
  js_Unmarshal :: "string \<Rightarrow> 'v \<Rightarrow> 'v \<times> gerr option"

definition Marshal :: "'v json_api \<Rightarrow> 'v \<Rightarrow> string \<times> gerr option" where
  "Marshal J v = js_Marshal J v"

definition MarshalToString :: "'v json_api \<Rightarrow> 'v \<Rightarrow> string \<times> gerr option" where
  "MarshalToString J v = js_MarshalToString J v"

definition MarshalToStringWithoutErr :: "'v json_api \<Rightarrow> 'v \<Rightarrow> string" where
  "MarshalToStringWithoutErr J v = (let (result, _) = js_MarshalToString J v in result)"

text \<open>The pointer returned is never nil.\<close>

definition MarshalToStringPointWithoutErr :: "'v json_api \<Rightarrow> 'v \<Rightarrow> string option" where
  "MarshalToStringPointWithoutErr J v = (let (result, _) = js_MarshalToString J v in Some result)"

definition MarshalIndentStringWithoutError :: "'v json_api \<Rightarrow> 'v \<Rightarrow> string \<Rightarrow> string \<Rightarrow> string" where
  "MarshalIndentStringWithoutError J v pre indent = (let (bs, _) = js_MarshalIndent J v pre indent in bs)"

definition Valid :: "'v json_api \<Rightarrow> string \<Rightarrow> bool" where
  "Valid J data = js_Valid J data"

definition UnmarshalFromString :: "'v json_api \<Rightarrow> string \<Rightarrow> 'v \<Rightarrow> 'v \<times> gerr option" where
  "UnmarshalFromString J data v = js_Unmarshal J data v"

definition Unmarshal :: "'v json_api \<Rightarrow> string \<Rightarrow> 'v \<Rightarrow> 'v \<times> gerr option" where
  "Unmarshal J data v = js_Unmarshal J data v"

definition RawMessage :: "string \<Rightarrow> string" where
  "RawMessage data = data"

section \<open>Round trips\<close>

text \<open>What the library documents for values without loss: an encoding without error decodes to the value.\<close>

definition json_law :: "'v json_api \<Rightarrow> 'v \<Rightarrow> bool" where
  "json_law J zero \<longleftrightarrow>
     (\<forall>v s. js_MarshalToString J v = (s, None) \<longrightarrow> js_Unmarshal J s zero = (v, None))"

lemma wrapper_roundtrip:
  assumes "json_law J zero" and "snd (MarshalToString J v) = None"
  shows "UnmarshalFromString J (MarshalToStringWithoutErr J v) zero = (v, None)"
proof -
  obtain s where "js_MarshalToString J v = (s, None)"
    using assms(2) by (cases "js_MarshalToString J v") (simp add: MarshalToString_def)
  with assms(1) show ?thesis by (simp add: json_law_def MarshalToStringWithoutErr_def UnmarshalFromString_def)
qed

text \<open>Values that encode without an error are told apart by their texts.\<close>

lemma wrapper_injective:
  assumes "json_law J zero" and "snd (MarshalToString J v) = None" and "snd (MarshalToString J v') = None"
    and "MarshalToStringWithoutErr J v = MarshalToStringWithoutErr J v'"
  shows "v = v'"
proof -
  have "(v, None) = UnmarshalFromString J (MarshalToStringWithoutErr J v) zero"
    using wrapper_roundtrip[OF assms(1,2)] by (rule sym)
  also have "\<dots> = (v', None)" unfolding assms(4) by (rule wrapper_roundtrip[OF assms(1,3)])
  finally show ?thesis by simp
qed

end
