(* ===== verification/Experiments.thy ===== *)
theory Experiments
  imports Reflect Buckets
begin

text \<open>
  The functions of the scratch program \<open>base/main.go\<close> that stand for themselves: setting string fields and
  copying by reflection, the index function of pods, the lock taken twice, and the loop that tries
  out the token bucket. The rest of the program calls libraries (gorm, redis, gin, regular expressions).
\<close>

section \<open>Structures\<close>

record MyStruct1 =
  ms_name :: string
  ms_age :: int

text \<open>A pointer to an array of three; assigning through nil panics.\<close>

definition changeTuples :: "MyStruct1 list option \<Rightarrow> MyStruct1 list option go" where
  "changeTuples arr =
     (case arr of
        None \<Rightarrow> Panic NilDeref
      | Some a \<Rightarrow> Ret (Some (a[0 := \<lparr>ms_name = ''99999999'', ms_age = 0\<rparr>])))"

definition set_string_field :: "gfield \<Rightarrow> gfield" where
  "set_string_field f =
     (case f of Field n e tg t v \<Rightarrow>
        if e \<and> t = TString then Field n e tg t (VStr ''hahahaha'') else Field n e tg t v)"

text \<open>
  \<open>reflect.ValueOf(a).Elem()\<close> takes a pointer; the element of a nil one has no type, and only a struct has
  fields. The assignments go through the pointer.
\<close>

definition func1 :: "gval \<Rightarrow> gval go" where
  "func1 a =
     (case a of
        VPtr t (Some (addr, VStruct T fs)) \<Rightarrow>
          (if t = TIface then Panic ReflectFault else Ret (VPtr t (Some (addr, VStruct T (map set_string_field fs)))))
      | _ \<Rightarrow> Panic ReflectFault)"

definition testDeepCopy :: "gval \<Rightarrow> gval go" where
  "testDeepCopy v = DeepCopyV2 v"

text \<open>The name of a package is a string, which has no fields.\<close>

definition GetStructsInPackage :: "string \<Rightarrow> gtype list go" where
  "GetStructsInPackage pkgName = (let pkg = VStr pkgName in
     case pkg of VStruct T fs \<Rightarrow> Ret [] | _ \<Rightarrow> Panic ReflectFault)"

lemma set_string_field_shape:
  "f_name (set_string_field f) = f_name f \<and> f_exported (set_string_field f) = f_exported f \<and>
   f_type (set_string_field f) = f_type f"
  by (cases f) (simp add: set_string_field_def)

text \<open>Exactly the exported fields declared as strings are overwritten, and a second call changes nothing.\<close>

lemma func1_effect:
  assumes "func1 a = Ret b"
  shows "func1 b = Ret b \<and> (\<exists>t addr T fs fs'. a = VPtr t (Some (addr, VStruct T fs)) \<and> b = VPtr t (Some (addr, VStruct T fs')) \<and>
    list_all2 (\<lambda>f f'. f_val f' = (if f_exported f \<and> f_type f = TString then VStr ''hahahaha'' else f_val f)) fs fs')"
proof -
  obtain t addr T fs where a: "a = VPtr t (Some (addr, VStruct T fs))" and t: "t \<noteq> TIface"
    and b: "b = VPtr t (Some (addr, VStruct T (map set_string_field fs)))"
    using assms by (auto simp: func1_def split: gval.splits option.splits if_splits)
  have "set_string_field (set_string_field f) = set_string_field f" for f
    by (cases f) (simp add: set_string_field_def)
  then have "func1 b = Ret b" using t by (simp add: b func1_def)
  moreover have "list_all2 (\<lambda>f f'. f_val f' = (if f_exported f \<and> f_type f = TString then VStr ''hahahaha'' else f_val f))
      fs (map set_string_field fs)"
    by (auto simp: list_all2_conv_all_nth set_string_field_def split: gfield.split)
  ultimately show ?thesis using a b by blast
qed

section \<open>The index of pods by user\<close>

text \<open>An object of the indexer: a pod with its annotations, or something else. A missing annotation reads as empty.\<close>

datatype indexed_obj = Pod string "string \<rightharpoonup> string" | OtherObj

definition testUsersIndexFunc :: "indexed_obj \<Rightarrow> (string list \<times> gerr option) go" where
  "testUsersIndexFunc obj =
     (case obj of
        Pod name annotations \<Rightarrow>
          let usersString = (case annotations ''users'' of None \<Rightarrow> [] | Some u \<Rightarrow> u)
          in Ret (split_byte (CHR '','') usersString, None)
      | OtherObj \<Rightarrow> Panic TypeAssertFault)"

text \<open>A pod without users is indexed under the empty name, so every pod is under at least one.\<close>

lemma users_nonempty: "testUsersIndexFunc obj = Ret (users, err) \<Longrightarrow> users \<noteq> [] \<and> err = None"
  by (auto simp: testUsersIndexFunc_def split: indexed_obj.splits)

lemma users_example:
  "testUsersIndexFunc (Pod ''one'' [''users'' \<mapsto> ''ernie,bert'']) = Ret ([''ernie'', ''bert''], None)"
  "testUsersIndexFunc (Pod ''none'' Map.empty) = Ret ([[]], None)"
  by (simp_all add: testUsersIndexFunc_def)

section \<open>The lock taken twice\<close>

text \<open>
  \<open>Run\<close> and the goroutine it starts, which unlocks after a second. \<open>pc\<close> is the statement of \<open>Run\<close> that comes
  next, \<open>waker\<close> what the goroutine has done.
\<close>

datatype run_pc = FirstLock | GoWaker | SecondLock | Returned

datatype waker_pc = NotStarted | Sleeping | Unlocking | Finished

record mutex_run =
  pc :: run_pc
  waker :: waker_pc
  locked :: bool

definition mutex_start :: mutex_run where
  "mutex_start = \<lparr>pc = FirstLock, waker = NotStarted, locked = False\<rparr>"

inductive mutex_step :: "mutex_run \<Rightarrow> mutex_run \<Rightarrow> bool" where
  first_lock: "pc s = FirstLock \<Longrightarrow> \<not> locked s \<Longrightarrow> mutex_step s (s\<lparr>pc := GoWaker, locked := True\<rparr>)"
| start_waker: "pc s = GoWaker \<Longrightarrow> mutex_step s (s\<lparr>pc := SecondLock, waker := Sleeping\<rparr>)"
| wake_up: "waker s = Sleeping \<Longrightarrow> mutex_step s (s\<lparr>waker := Unlocking\<rparr>)"
| unlock: "waker s = Unlocking \<Longrightarrow> locked s \<Longrightarrow> mutex_step s (s\<lparr>waker := Finished, locked := False\<rparr>)"
| second_lock: "pc s = SecondLock \<Longrightarrow> \<not> locked s \<Longrightarrow> mutex_step s (s\<lparr>pc := Returned, locked := True\<rparr>)"

definition mutex_ok :: "mutex_run \<Rightarrow> bool" where
  "mutex_ok s \<longleftrightarrow>
     pc s = FirstLock \<and> waker s = NotStarted \<and> \<not> locked s \<or>
     pc s = GoWaker \<and> waker s = NotStarted \<and> locked s \<or>
     pc s = SecondLock \<and> (waker s = Sleeping \<or> waker s = Unlocking) \<and> locked s \<or>
     pc s = SecondLock \<and> waker s = Finished \<and> \<not> locked s \<or>
     pc s = Returned \<and> waker s = Finished \<and> locked s"

lemma mutex_reachable_ok: "mutex_step\<^sup>*\<^sup>* mutex_start s \<Longrightarrow> mutex_ok s"
proof (induction rule: rtranclp_induct)
  case (step s s')
  from step(2,3) show ?case by (cases rule: mutex_step.cases) (auto simp: mutex_ok_def)
qed (simp add: mutex_ok_def mutex_start_def)

text \<open>
  The comment of \<open>Run\<close> announces a deadlock; there is none. In every state it can reach, \<open>Run\<close> has returned or
  some step is possible, and no run has more than five steps.
\<close>

definition mutex_left :: "mutex_run \<Rightarrow> nat" where
  "mutex_left s = (case pc s of FirstLock \<Rightarrow> 3 | GoWaker \<Rightarrow> 2 | SecondLock \<Rightarrow> 1 | Returned \<Rightarrow> 0) + (case waker s of NotStarted \<Rightarrow> 2 | Sleeping \<Rightarrow> 2 | Unlocking \<Rightarrow> 1 | Finished \<Rightarrow> 0)"

lemma mutex_run_returns:
  assumes "mutex_step\<^sup>*\<^sup>* mutex_start s"
  shows "pc s = Returned \<or> (\<exists>s'. mutex_step s s')"
  using mutex_reachable_ok[OF assms] unfolding mutex_ok_def by (elim disjE) (blast intro: mutex_step.intros)+

lemma mutex_step_left: "mutex_ok s \<Longrightarrow> mutex_step s s' \<Longrightarrow> mutex_left s' < mutex_left s"
  by (erule mutex_step.cases) (auto simp: mutex_ok_def mutex_left_def)

section \<open>Trying out the token bucket\<close>

text \<open>
  The loop of \<open>main\<close>: thirty requests for amounts drawn from a table, of which \<open>rand.Intn(7)\<close> never takes the last.
  \<open>draws\<close> are the drawn indices and the readings of the clock.
\<close>

definition needTokens :: "real list" where
  "needTokens = [10, 20, 30, 10, 40, 5, 2, 1]"

fun simulate :: "(real \<Rightarrow> real) \<Rightarrow> (nat \<times> int) list \<Rightarrow> TokenBucket \<Rightarrow> (bool \<times> real) list \<times> TokenBucket" where
  "simulate rnd [] tb = ([], tb)"
| "simulate rnd ((i, now) # draws) tb =
     (let tokens = needTokens ! i;
          (ok, tb) = tb_Allow rnd (tokens, now) tb;
          (rest, tb) = simulate rnd draws tb
      in ((ok, tokens) # rest, tb))"

lemma simulate_granted:
  "map snd (filter fst (fst (simulate rnd draws tb))) =
     map fst (granted (tb_Allow rnd) (map (\<lambda>(i, now). (needTokens ! i, now)) draws) tb)"
  by (induction rnd draws tb rule: simulate.induct) (auto simp: Let_def split: prod.split)

end
