(* ===== verification/Tracing.thy ===== *)
theory Tracing
  imports Gateway
begin

text \<open>
  A trace across services: from the HTTP interceptor of the first one, through unary calls with the client's
  interceptor and the server's, and through the spans that handlers open with \<open>StartSpanWrapper\<close>. gRPC's
  transport is the parameter \<open>deliver\<close>, which makes the context of the callee from that of the caller.
\<close>

section \<open>What is documented of the tracer and the transport\<close>

text \<open>Identifiers are printed as hexadecimal numbers.\<close>

definition jaeger_ok :: "jaeger_ctx \<Rightarrow> bool" where
  "jaeger_ok sc \<longleftrightarrow> sc_TraceID sc \<noteq> [] \<and> CHR '':'' \<notin> set (sc_TraceID sc) \<and> sc_SpanID sc \<noteq> [] \<and> sc_ParentID sc \<noteq> []"

text \<open>
  Opentracing keeps the span in the context beside the metadata. Jaeger continues the trace of the
  span that a new one refers to, and finds the trace's identifier in the text of a span.
\<close>

definition tracer_law :: "('ctx, 'span) trace_env \<Rightarrow> bool" where
  "tracer_law E \<longleftrightarrow>
     (\<forall>c s. SpanFromContext (te_tracer E) (ContextWithSpan (te_tracer E) c s) = Some s \<and>
        FromIncomingContext (te_md E) (ContextWithSpan (te_tracer E) c s) = FromIncomingContext (te_md E) c \<and>
        FromOutgoingContext (te_md E) (ContextWithSpan (te_tracer E) c s) = FromOutgoingContext (te_md E) c) \<and>
     (\<forall>c m. SpanFromContext (te_tracer E) (NewIncomingContext (te_md E) c m) = SpanFromContext (te_tracer E) c \<and>
        SpanFromContext (te_tracer E) (NewOutgoingContext (te_md E) c m) = SpanFromContext (te_tracer E) c) \<and>
     (\<forall>s. jaeger_ok (Context_of (te_tracer E) s)) \<and>
     (\<forall>s name sc. jaeger_ok sc \<longrightarrow>
        sc_TraceID (Context_of (te_tracer E) (StartSpanOf (te_tracer E) s name (ChildOf sc))) = sc_TraceID sc) \<and>
     (\<forall>name sc. jaeger_ok sc \<longrightarrow>
        sc_TraceID (Context_of (te_tracer E) (StartSpan (te_tracer E) name (RPCServerOption (Some sc)))) = sc_TraceID sc) \<and>
     (\<forall>sc. jaeger_ok sc \<longrightarrow>
        jaeger_ok (fst (te_parse E (span_text sc))) \<and> sc_TraceID (fst (te_parse E (span_text sc))) = sc_TraceID sc)"

text \<open>The callee's incoming B3 keys are the caller's outgoing ones; it has no span yet, and no outgoing metadata.\<close>

definition b3_keys :: "string list" where
  "b3_keys = [''x-b3-traceid'', ''x-b3-spanid'', ''x-b3-sampled'', ''x-b3-parentspanid'']"

definition transport_law :: "('ctx, 'span) trace_env \<Rightarrow> ('ctx \<Rightarrow> 'ctx) \<Rightarrow> bool" where
  "transport_law E deliver \<longleftrightarrow>
     (\<forall>c. (\<forall>k \<in> set b3_keys. in_view (te_md E) (deliver c) k = out_view (te_md E) c k) \<and>
        SpanFromContext (te_tracer E) (deliver c) = None \<and> FromOutgoingContext (te_md E) (deliver c) = None)"

section \<open>Hops\<close>

text \<open>The context that the server interceptors give to a handler.\<close>

definition handler_context :: "('ctx, 'span) trace_env \<Rightarrow> 'ctx \<Rightarrow> string \<Rightarrow> 'ctx" where
  "handler_context E ctx FullMethod =
     ContextWithSpan (te_tracer E) ctx (server_span E ctx FullMethod)"

definition open_span :: "('ctx, 'span) trace_env \<Rightarrow> string \<Rightarrow> 'ctx \<Rightarrow> 'ctx" where
  "open_span E name ctx = fst (StartSpanWrapper (te_md E) (te_U E) (te_tracer E) ctx name)"

text \<open>A hop: the spans the handler opens, one inside the other, and the unary call it makes with its target.\<close>

record hop =
  hop_spans :: "string list"
  hop_target :: string
  hop_method :: string

definition take_hop :: "('ctx, 'span) trace_env \<Rightarrow> ('ctx \<Rightarrow> 'ctx) \<Rightarrow> hop \<Rightarrow> 'ctx \<Rightarrow> 'ctx" where
  "take_hop E deliver h ctx =
     (let ctx = fold (open_span E) (hop_spans h) ctx;
          ctx = client_context E ctx (hop_target h @ hop_method h)
      in handler_context E (deliver ctx) (hop_method h))"

definition take_hops :: "('ctx, 'span) trace_env \<Rightarrow> ('ctx \<Rightarrow> 'ctx) \<Rightarrow> hop list \<Rightarrow> 'ctx \<Rightarrow> 'ctx" where
  "take_hops E deliver = fold (take_hop E deliver)"

definition in_trace :: "('ctx, 'span) trace_env \<Rightarrow> string \<Rightarrow> 'ctx \<Rightarrow> bool" where
  "in_trace E t ctx \<longleftrightarrow>
     (case SpanFromContext (te_tracer E) ctx of None \<Rightarrow> False | Some s \<Rightarrow> sc_TraceID (Context_of (te_tracer E) s) = t)"

section \<open>Each step stays in the trace\<close>

lemma SetKV_span:
  assumes "tracer_law E"
  shows "SpanFromContext (te_tracer E) (InAndOutContextSetKV (te_md E) c k v) = SpanFromContext (te_tracer E) c"
  using assms by (simp add: InAndOutContextSetKV_def tracer_law_def Let_def)

lemma SetB3_span:
  assumes "tracer_law E"
  shows "SpanFromContext (te_tracer E) (SetContextWithB3 (te_md E) c sp) = SpanFromContext (te_tracer E) c"
  by (simp add: SetContextWithB3_def SetKV_span[OF assms] Let_def)

lemma StartSpanWrapper_in_trace:
  assumes "tracer_law E" and "in_trace E t c" and "StartSpanWrapper (te_md E) (te_U E) (te_tracer E) c name = (c', s)"
  shows "SpanFromContext (te_tracer E) c' = Some s \<and> sc_TraceID (Context_of (te_tracer E) s) = t"
proof -
  obtain p where "SpanFromContext (te_tracer E) c = Some p" "sc_TraceID (Context_of (te_tracer E) p) = t"
    using assms(2) by (auto simp: in_trace_def split: option.splits)
  with assms(1,3) show ?thesis by (auto simp: StartSpanWrapper_def tracer_law_def Let_def)
qed

lemma open_span_in_trace: "tracer_law E \<Longrightarrow> in_trace E t c \<Longrightarrow> in_trace E t (open_span E name c)"
  using StartSpanWrapper_in_trace[of E t c name]
  by (cases "StartSpanWrapper (te_md E) (te_U E) (te_tracer E) c name") (simp add: open_span_def in_trace_def)

lemma open_spans_in_trace: "tracer_law E \<Longrightarrow> in_trace E t c \<Longrightarrow> in_trace E t (fold (open_span E) names c)"
  by (induction names arbitrary: c) (simp_all add: open_span_in_trace)

text \<open>What a unary call sends names the trace, so that the server's span continues it.\<close>

lemma client_context_sends:
  assumes "md_laws (te_md E)" and "tracer_law E" and "in_trace E t c"
  obtains s where "sc_TraceID (Context_of (te_tracer E) s) = t"
    and "\<And>m. \<forall>k \<in> set b3_keys. m k = out_view (te_md E) (client_context E c name) k \<Longrightarrow>
      combined_id m = span_text (Context_of (te_tracer E) s)"
proof -
  obtain c' s where w: "StartSpanWrapper (te_md E) (te_U E) (te_tracer E) c name = (c', s)" by fastforce
  let ?sp = "Context_of (te_tracer E) s"
  have t: "sc_TraceID ?sp = t" using StartSpanWrapper_in_trace[OF assms(2,3) w] by simp
  have ids: "sc_TraceID ?sp \<noteq> []" "sc_SpanID ?sp \<noteq> []" "sc_ParentID ?sp \<noteq> []"
    using assms(2) by (auto simp: tracer_law_def jaeger_ok_def)
  have out: "out_view (te_md E) (client_context E c name) = (out_view (te_md E) c')(''x-b3-traceid'' \<mapsto> [sc_TraceID ?sp],
      ''x-b3-spanid'' \<mapsto> [sc_SpanID ?sp], ''x-b3-sampled'' \<mapsto> [flag_text ?sp], ''x-b3-parentspanid'' \<mapsto> [sc_ParentID ?sp])"
    using SetContextWithB3_view(2)[OF assms(1) ids(1), of c'] by (simp add: client_context_def w)
  have "combined_id m = span_text ?sp" if "\<forall>k \<in> set b3_keys. m k = out_view (te_md E) (client_context E c name) k" for m
    using that ids by (simp add: out b3_keys_def combined_id_def first_value_def B3TraceIdToUberTraceId_def span_text_def
        flag_text_def)
  with t that show thesis by blast
qed

lemma take_hop_in_trace:
  assumes "md_laws (te_md E)" and "tracer_law E" and "transport_law E deliver" and "in_trace E t c"
  shows "in_trace E t (take_hop E deliver h c)"
proof -
  define c1 where "c1 = fold (open_span E) (hop_spans h) c"
  define c2 where "c2 = client_context E c1 (hop_target h @ hop_method h)"
  have "in_trace E t c1" unfolding c1_def by (rule open_spans_in_trace[OF assms(2,4)])
  then obtain s where s: "sc_TraceID (Context_of (te_tracer E) s) = t"
    and "\<And>m. \<forall>k \<in> set b3_keys. m k = out_view (te_md E) c2 k \<Longrightarrow> combined_id m = span_text (Context_of (te_tracer E) s)"
    unfolding c2_def by (rule client_context_sends[OF assms(1,2)]) blast
  then have "combined_id (in_view (te_md E) (deliver c2)) = span_text (Context_of (te_tracer E) s)"
    using assms(3) by (simp add: transport_law_def)
  moreover have "span_text (Context_of (te_tracer E) s) \<noteq> []" by (simp add: span_text_def)
  ultimately have "server_span E (deliver c2) (hop_method h) = StartSpan (te_tracer E) (hop_method h)
      (RPCServerOption (Some (fst (te_parse E (span_text (Context_of (te_tracer E) s))))))"
    by (simp add: server_span_def GetSpanCtx_view[OF assms(1)])
  then have "sc_TraceID (Context_of (te_tracer E) (server_span E (deliver c2) (hop_method h))) = t"
    using assms(2) s by (simp add: tracer_law_def)
  then show ?thesis using assms(2)
    by (simp add: take_hop_def c1_def[symmetric] c2_def[symmetric] handler_context_def in_trace_def tracer_law_def Let_def)
qed

lemma http_context_in_trace:
  assumes "tracer_law E"
  shows "in_trace E (sc_TraceID (Context_of (te_tracer E)
      (server_span E (UserHeaderToSetContextWithB3 (te_md E) ctx (hr_Header req)) (hr_URI req)))) (http_context E ctx req)"
  using assms by (simp add: in_trace_def http_context_def SetB3_span tracer_law_def Let_def)

lemma take_hops_in_trace:
  assumes "md_laws (te_md E)" and "tracer_law E" and "transport_law E deliver"
  shows "in_trace E t c \<Longrightarrow> in_trace E t (take_hops E deliver hs c)"
  unfolding take_hops_def
  by (induction hs arbitrary: c) (simp_all add: take_hop_in_trace[OF assms])

text \<open>
  C16: One trace per request: the trace that the HTTP interceptor starts or continues for a request is the one that every
  handler downstream finds in its context and logs, however many services are between and whatever spans their
  handlers open, as long as the calls are unary.
\<close>

theorem one_trace_per_request:
  assumes "md_laws (te_md E)" and "tracer_law E" and "transport_law E deliver"
    and "\<And>c. span_trace c = map_option (\<lambda>s. sc_TraceID (Context_of (te_tracer E) s)) (SpanFromContext (te_tracer E) c)"
    and "t = sc_TraceID (Context_of (te_tracer E)
      (server_span E (UserHeaderToSetContextWithB3 (te_md E) ctx (hr_Header req)) (hr_URI req)))"
  shows "GetTraceIdFromCtx (te_md E) U span_trace (take_hops E deliver hs (http_context E ctx req)) = t"
proof -
  have "in_trace E t (take_hops E deliver hs (http_context E ctx req))"
    unfolding assms(5) by (intro take_hops_in_trace[OF assms(1-3)] http_context_in_trace[OF assms(2)])
  then show ?thesis
    by (auto simp: GetTraceIdFromCtx_def assms(4) in_trace_def split: option.splits)
qed

text \<open>
  Streaming calls lose the trace: the interceptor for streams passes the handler's context on as it is, and the
  server's interceptor gives a handler no outgoing metadata. So a stream that a gRPC handler opens, whatever spans
  it opened before, starts a new trace at the callee, which is not told of any span.
\<close>

lemma stream_calls_start_anew:
  assumes "md_laws (te_md E)" and "tracer_law E" and "transport_law E deliver"
    and "ctx = fold (open_span E) names (handler_context E (deliver c) FullMethod)"
  shows "server_span E (deliver ctx) callee = StartSpan (te_tracer E) callee (RPCServerOption None)"
proof -
  have one: "FromOutgoingContext (te_md E) (open_span E name d) = FromOutgoingContext (te_md E) d" for name d
    using assms(2) by (simp add: open_span_def StartSpanWrapper_def tracer_law_def Let_def)
  have "FromOutgoingContext (te_md E) (fold (open_span E) names d) = FromOutgoingContext (te_md E) d" for d
    by (induction names arbitrary: d) (simp_all add: one)
  then have "FromOutgoingContext (te_md E) ctx = None"
    using assms(2,3) by (simp add: assms(4) handler_context_def tracer_law_def transport_law_def)
  then have "\<forall>k\<in>set b3_keys. in_view (te_md E) (deliver ctx) k = None"
    using assms(3) by (simp add: transport_law_def out_view_def)
  then have "combined_id (in_view (te_md E) (deliver ctx)) = []"
    by (simp add: b3_keys_def combined_id_def first_value_def B3TraceIdToUberTraceId_def)
  then show ?thesis by (simp add: server_span_def GetSpanCtx_view[OF assms(1)])
qed

section \<open>The handlers of the system\<close>

text \<open>
  \<open>handleTest\<close> and \<open>SayHello\<close> call in the context of the span they open: they are hops of the sort above.
\<close>

lemma demo_span_context: "fst (demo_span E ctx name event) = open_span E name ctx"
  by (simp add: demo_span_def open_span_def split: prod.split)

definition system_hops :: "string \<Rightarrow> string \<Rightarrow> hop list" where
  "system_hops auth_target account_target =
     [\<lparr>hop_spans = [''handleGetTest''], hop_target = auth_target, hop_method = ''/pb.PandaAuth/SayHello''\<rparr>,
      \<lparr>hop_spans = [''ToServerCallSayHello''], hop_target = account_target, hop_method = ''/pb.PandaAccount/SayHello2DemoClient''\<rparr>]"

section \<open>An instance\<close>

text \<open>A context is its two metadata maps and its span; a span is its Jaeger context.\<close>

type_synonym ctx3 = "(md option \<times> md option) \<times> jaeger_ctx option"

definition ctx3_md :: "ctx3 md_api" where
  "ctx3_md = \<lparr>FromIncomingContext = (\<lambda>c. FromIncomingContext example_md_api (fst c)),
     FromOutgoingContext = (\<lambda>c. FromOutgoingContext example_md_api (fst c)),
     NewIncomingContext = (\<lambda>c m. (NewIncomingContext example_md_api (fst c) m, snd c)),
     NewOutgoingContext = (\<lambda>c m. (NewOutgoingContext example_md_api (fst c) m, snd c)),
     AppendToOutgoingContext = (\<lambda>c k v. (AppendToOutgoingContext example_md_api (fst c) k v, snd c)),
     md_Join = md_Join example_md_api, md_Pairs = md_Pairs example_md_api, md_Set = md_Set example_md_api,
     md_Get = md_Get example_md_api, md_Append = md_Append example_md_api\<rparr>"

lemma ctx3_md_laws: "md_laws ctx3_md"
  using example_md_laws unfolding md_laws_def by (simp add: ctx3_md_def)

definition known_span :: "jaeger_ctx \<Rightarrow> jaeger_ctx" where
  "known_span sc = (if jaeger_ok sc then sc else example_span)"

definition ctx3_env :: "(ctx3, jaeger_ctx) trace_env" where
  "ctx3_env = \<lparr>te_md = ctx3_md, te_U = ascii_tables,
     te_tracer = \<lparr>SpanFromContext = snd, ContextWithSpan = (\<lambda>c s. (fst c, Some s)), Context_of = known_span,
       StartSpanOf = (\<lambda>s n r. case r of ChildOf sc \<Rightarrow> sc | RPCServerOption None \<Rightarrow> example_span | RPCServerOption (Some sc) \<Rightarrow> sc),
       StartSpan = (\<lambda>n r. case r of ChildOf sc \<Rightarrow> sc | RPCServerOption None \<Rightarrow> example_span | RPCServerOption (Some sc) \<Rightarrow> sc),
       Extract = (\<lambda>m. None)\<rparr>,
     te_parse = (\<lambda>t. (\<lparr>sc_TraceID = hd (split_byte (CHR '':'') t), sc_SpanID = ''1'', sc_ParentID = ''1'', sc_Flags = 1\<rparr>, None))\<rparr>"

lemma known_span_ok: "jaeger_ok (known_span sc)"
  by (simp add: known_span_def jaeger_ok_def example_span_def)

lemma span_text_trace: "jaeger_ok sc \<Longrightarrow> hd (split_byte (CHR '':'') (span_text sc)) = sc_TraceID sc"
  by (simp add: span_text_def jaeger_ok_def split_byte_append)

lemma parsed_ok:
  "jaeger_ok sc \<Longrightarrow> jaeger_ok \<lparr>sc_TraceID = sc_TraceID sc, sc_SpanID = ''1'', sc_ParentID = ''1'', sc_Flags = 1\<rparr>"
  by (simp add: jaeger_ok_def)

lemma known_span_id: "jaeger_ok sc \<Longrightarrow> known_span sc = sc"
  by (simp add: known_span_def)

lemma ctx3_tracer_law: "tracer_law ctx3_env"
  by (auto simp: tracer_law_def ctx3_env_def known_span_ok known_span_id span_text_trace parsed_ok ctx3_md_def
      example_md_api_def)

lemma ctx3_fields:
  "te_md ctx3_env = ctx3_md" "SpanFromContext (te_tracer ctx3_env) = snd" "Context_of (te_tracer ctx3_env) = known_span"
  by (simp_all add: ctx3_env_def)

definition ctx3_deliver :: "ctx3 \<Rightarrow> ctx3" where
  "ctx3_deliver c = ((snd (fst c), None), None)"

lemma ctx3_transport_law: "transport_law ctx3_env ctx3_deliver"
  by (simp add: transport_law_def ctx3_env_def ctx3_deliver_def ctx3_md_def in_view_def out_view_def example_md_api_def
      checked_md_def)

lemma one_trace_per_request_witness:
  "GetTraceIdFromCtx ctx3_md ascii_tables (\<lambda>c. map_option (\<lambda>s. sc_TraceID (known_span s)) (snd c))
     (take_hops ctx3_env ctx3_deliver (system_hops ''auth'' ''account'')
        (http_context ctx3_env ((None, None), None) example_request)) = ''4bf9''"
proof -
  have "server_span ctx3_env ((None, None), None) n = example_span" for n
    by (simp add: server_span_def GetSpanCtxFromCtxB3KV_def ctx3_env_def ctx3_md_def example_md_api_def checked_md_def
        GetB3CombineTraceIdAndUberTraceId_def)
  moreover have "UserHeaderToSetContextWithB3 ctx3_md ((None, None), None) (hr_Header example_request) = ((None, None), None)"
    by (simp add: UserHeaderToSetContextWithB3_def example_request_def ctx3_md_def example_md_api_def)
  moreover have "sc_TraceID (known_span example_span) = ''4bf9''"
    by (simp add: known_span_def jaeger_ok_def example_span_def)
  moreover have "md_laws (te_md ctx3_env)" by (simp add: ctx3_fields ctx3_md_laws)
  ultimately show ?thesis
    using one_trace_per_request[where E = ctx3_env and U = ascii_tables and ctx = "((None, None), None)" and
        req = example_request and hs = "system_hops ''auth'' ''account''" and
        span_trace = "\<lambda>c. map_option (\<lambda>s. sc_TraceID (known_span s)) (snd c)",
        OF _ ctx3_tracer_law ctx3_transport_law _ refl]
    by (simp add: ctx3_fields)
qed

lemma stream_calls_start_anew_witness:
  "server_span ctx3_env (ctx3_deliver (fold (open_span ctx3_env) [''work'']
     (handler_context ctx3_env (ctx3_deliver ((None, None), None)) ''m''))) ''callee'' = example_span"
  using stream_calls_start_anew[OF _ ctx3_tracer_law ctx3_transport_law refl, of "[''work'']" "((None, None), None)" "''m''"
      "''callee''"] ctx3_md_laws
  by (simp add: ctx3_env_def)

end
