(* ===== verification/GrpcPath.thy ===== *)
theory GrpcPath
  imports Startup EndToEnd Tracing
begin

text \<open>
  Calls from a client stub to a method of a server and back: the generated code of \<open>Stubs\<close> on both sides, the
  server's interceptor of \<open>Startup\<close>, the implementations of \<open>Server\<close>, and the gateway's handlers of \<open>GatewayRpc\<close>
  over the client stubs. Between the two sides is the gRPC library, of which \<open>invoke_law\<close> states what a call over a
  connection does.
\<close>

section \<open>Names\<close>

text \<open>The full names that a descriptor registers, with the flags of the streams.\<close>

definition full_name :: "('ctx, 'w) service_desc \<Rightarrow> string \<Rightarrow> string" where
  "full_name desc name = ''/'' @ ServiceName desc @ ''/'' @ name"

definition unary_names :: "('ctx, 'w) service_desc \<Rightarrow> string list" where
  "unary_names desc = map (full_name desc \<circ> MethodName) (Methods desc)"

definition stream_names :: "('ctx, 'w) service_desc \<Rightarrow> (string \<times> bool \<times> bool) list" where
  "stream_names desc = map (\<lambda>d. (full_name desc (StreamName d), ClientStreams d, ServerStreams d)) (Streams desc)"

lemmas service_descs = CommonService_ServiceDesc_def PandaAccount_ServiceDesc_def PandaAuth_ServiceDesc_def
  PubSub1_ServiceDesc_def PubSub2_ServiceDesc_def

lemma registered_names:
  "unary_names CommonService_ServiceDesc = [''/pb.CommonService/setLogLevel'']"
  "unary_names PandaAccount_ServiceDesc = [''/pb.PandaAccount/SayHello2DemoClient'']"
  "unary_names PandaAuth_ServiceDesc = [''/pb.PandaAuth/SayHello'']"
  "unary_names PubSub1_ServiceDesc = [''/pubsub.PubSub/Publish'']"
  "unary_names PubSub2_ServiceDesc = [''/pubsub.PubSub/Publish'']"
  "stream_names CommonService_ServiceDesc = [(''/pb.CommonService/DownloadPprofFile'', False, True)]"
  "stream_names PandaAccount_ServiceDesc =
     [(''/pb.PandaAccount/UploadFile'', True, False), (''/pb.PandaAccount/DownloadFile'', False, True)]"
  "stream_names PandaAuth_ServiceDesc = []"
  "stream_names PubSub1_ServiceDesc = [(''/pubsub.PubSub/Subscribe'', False, True)]"
  "stream_names PubSub2_ServiceDesc = [(''/pubsub.PubSub/Subscribe'', False, True)]"
  by (simp_all add: unary_names_def stream_names_def full_name_def service_descs)

section \<open>The library between stub and handler\<close>

text \<open>
  An error of a handler as the client sees it: a status is transmitted, any other error is \<open>Unknown\<close> (2) with its
  text.
\<close>

fun wire_error :: "gerr \<Rightarrow> gerr" where
  "wire_error (StatusErr c d) = StatusErr c d"
| "wire_error (PlainErr m) = StatusErr 2 m"

text \<open>
  A call by the full name of a registered unary method runs that method's handler with the registered
  implementation and the server's interceptor, in the context that \<open>deliver\<close> makes of the caller's, and the request
  decodes to what was sent. With an error the response is not transmitted, otherwise it is received into \<open>out\<close>. A
  handler that does not return and a nil response without an error are left open.
\<close>

definition invoke_law ::
    "('ctx, 'st, 'w) client_conn \<Rightarrow> ('ctx \<Rightarrow> 'ctx) \<Rightarrow> ('ctx, 'w) interceptor option \<Rightarrow> ('ctx, 'w) service list \<Rightarrow> bool" where
  "invoke_law cc deliver ic services \<longleftrightarrow>
     (\<forall>desc srv m ctx req out w resp err w'.
        (desc, srv) \<in> set services \<longrightarrow> m \<in> set (Methods desc) \<longrightarrow>
        Handler m srv (deliver ctx) (\<lambda>_. Inr req) ic w = (Ret (resp, err), w') \<longrightarrow>
        (\<exists>md out'. cn_Invoke cc ctx (full_name desc (MethodName m)) req out w =
            (((map_option wire_error err, out'), md), w') \<and>
          (err = None \<longrightarrow> (\<forall>r. resp = Some r \<longrightarrow> out' = r))))"

text \<open>The interceptor of a server as the library calls it; \<open>json\<close> gives the text of a request for the span.\<close>

definition server_interceptor ::
    "('ctx, 'span) trace_env \<Rightarrow> err_api \<Rightarrow> string \<Rightarrow> (pb_message \<Rightarrow> string) \<Rightarrow> ('ctx, 'w) grpc_server \<Rightarrow>
     ('ctx, 'w) interceptor option" where
  "server_interceptor E A stack json server =
     (if gs_unary server = [] then None
      else Some (\<lambda>ctx req FullMethod handler w.
             run_unary E A stack FullMethod (json req) (gs_unary server) (\<lambda>ctx. handler ctx req) ctx w))"

section \<open>Unary calls\<close>

text \<open>What a caller gets from a server of the system whose method ends with \<open>r\<close>.\<close>

definition call_result :: "err_api \<Rightarrow> ('r option \<times> gerr option) go \<Rightarrow> 'r option \<times> gerr option" where
  "call_result A r =
     (case visible_error A (go_map snd r) of
        Some e \<Rightarrow> (None, Some (wire_error e))
      | None \<Rightarrow> (case r of Ret (resp, _) \<Rightarrow> (resp, None) | _ \<Rightarrow> (None, None)))"

lemma call_result_simps [simp]:
  "call_result A (Ret (resp, None)) = (resp, None)"
  "call_result A (Ret (resp, Some (StatusErr c d))) =
     (None, Some (if length (ea_fmt_status A c d) \<in> {201..<800} then panic_error else StatusErr c d))"
  "call_result A (Ret (resp, Some (PlainErr m))) =
     (None, Some (if length m \<in> {201..<800} then panic_error else StatusErr 2 m))"
  "call_result A (Panic p) = (None, Some panic_error)"
  by (auto simp: call_result_def visible_error_def Let_def panic_error_def)

text \<open>The handler of a method that is implemented, on a server of the system.\<close>

lemma unary_handler_system:
  assumes server: "system_server server" and req: "assert_req req = Ret q"
    and run: "f (ContextWithSpan (te_tracer E) ctx (server_span E ctx FullMethod)) q w = (r, w')"
    and exit: "\<And>m. r \<noteq> Exit m"
  shows "unary_handler new_in assert_req result FullMethod (Some f) ctx (\<lambda>_. Inr req)
      (server_interceptor E A stack json server) w =
    (Ret (case r of Ret (resp, _) \<Rightarrow> map_option result resp | _ \<Rightarrow> None, visible_error A (go_map snd r)), w')"
proof -
  let ?h = "\<lambda>ctx w. case f ctx q w of (r, w) \<Rightarrow> (go_map (\<lambda>(resp, err). (map_option result resp, err)) r, w)"
  have h: "?h (ContextWithSpan (te_tracer E) ctx (server_span E ctx FullMethod)) w =
      (go_map (\<lambda>(resp, err). (map_option result resp, err)) r, w')"
    by (simp add: run)
  have "run_unary E A stack FullMethod (json req) (gs_unary server) ?h ctx w =
      (Ret (case go_map (\<lambda>(resp, err). (map_option result resp, err)) r of Ret (resp, _) \<Rightarrow> resp | _ \<Rightarrow> None,
        visible_error A (go_map snd (go_map (\<lambda>(resp, err). (map_option result resp, err)) r))), w')"
    by (rule run_unary_system[where handler = ?h, OF server h]) (use exit in \<open>cases r, auto\<close>)
  moreover have "go_map snd (go_map (\<lambda>(resp, err). (map_option result resp, err)) r) = go_map snd r"
    by (cases r) auto
  moreover have "(case go_map (\<lambda>(resp, err). (map_option result resp, err)) r of Ret (resp, _) \<Rightarrow> resp | _ \<Rightarrow> None) =
      (case r of Ret (resp, _) \<Rightarrow> map_option result resp | _ \<Rightarrow> None)"
    by (cases r) auto
  ultimately show ?thesis
    using system_server_interceptors[OF server] by (simp add: unary_handler_def server_interceptor_def req)
qed

text \<open>From \<open>Invoke\<close> through the library to the method and back; then from the stub.\<close>

lemma invoke_path:
  assumes law: "invoke_law cc deliver (server_interceptor E A stack json server) (gs_services server)"
    and server: "system_server server"
    and reg: "(desc, srv) \<in> set (gs_services server)" "m \<in> set (Methods desc)"
    and handler: "Handler m srv = unary_handler new_in assert_req result (full_name desc (MethodName m)) (Some f)"
    and req: "assert_req req = Ret q"
    and run: "f (handler_context E (deliver ctx) (full_name desc (MethodName m))) q w = (r, w')"
    and exit: "\<And>m. r \<noteq> Exit m"
  shows "\<exists>md out'. cn_Invoke cc ctx (full_name desc (MethodName m)) req out w =
      (((map_option wire_error (visible_error A (go_map snd r)), out'), md), w') \<and>
    (visible_error A (go_map snd r) = None \<longrightarrow>
      (\<forall>x. (case r of Ret (resp, _) \<Rightarrow> map_option result resp | _ \<Rightarrow> None) = Some x \<longrightarrow> out' = x))"
proof -
  have "Handler m srv (deliver ctx) (\<lambda>_. Inr req) (server_interceptor E A stack json server) w =
      (Ret (case r of Ret (resp, _) \<Rightarrow> map_option result resp | _ \<Rightarrow> None, visible_error A (go_map snd r)), w')"
    unfolding handler
    using server req run exit by (intro unary_handler_system) (simp_all add: handler_context_def)
  from law[unfolded invoke_law_def, rule_format, OF reg this, of out] show ?thesis .
qed

lemma unary_path:
  assumes law: "invoke_law cc deliver (server_interceptor E A stack json server) (gs_services server)"
    and server: "system_server server"
    and reg: "(desc, srv) \<in> set (gs_services server)" "m \<in> set (Methods desc)"
    and handler: "Handler m srv = unary_handler new_in assert_req result (full_name desc (MethodName m)) (Some f)"
    and req: "assert_req req = Ret q"
    and run: "f (handler_context E (deliver ctx) (full_name desc (MethodName m))) q w = (r, w')"
    and exit: "\<And>m. r \<noteq> Exit m"
    and into: "\<And>x. into (result x) = x" and nil: "r \<noteq> Ret (None, None)"
  shows "\<exists>md. invoke_unary cc (full_name desc (MethodName m)) out into ctx req w = ((call_result A r, md), w')"
proof -
  from invoke_path[where desc = desc and out = out, OF law server reg handler req run exit]
  obtain md out' where i: "cn_Invoke cc ctx (full_name desc (MethodName m)) req out w =
      (((map_option wire_error (visible_error A (go_map snd r)), out'), md), w')"
    and out: "visible_error A (go_map snd r) = None \<longrightarrow>
      (\<forall>x. (case r of Ret (resp, _) \<Rightarrow> map_option result resp | _ \<Rightarrow> None) = Some x \<longrightarrow> out' = x)"
    by (elim exE conjE)
  have "into out' = x \<and> call_result A r = (Some x, None)"
    if v: "visible_error A (go_map snd r) = None" and x: "r = Ret (Some x, err)" for x err
    using out v x into by (simp add: call_result_def)
  moreover have "\<exists>x err. r = Ret (Some x, err)" if "visible_error A (go_map snd r) = None"
    using that nil by (cases r; cases "case r of Ret (resp, _) \<Rightarrow> resp"; cases "case r of Ret (_, err) \<Rightarrow> err")
      (auto simp: visible_error_def Let_def split: if_splits)
  ultimately show ?thesis
    by (cases "visible_error A (go_map snd r)") (fastforce simp: invoke_unary_def i call_result_def)+
qed

lemmas stub_defs = pandaAccountClient_SayHello2DemoClient_def pandaAuthClient_SayHello_def commonServiceClient_SetLogLevel_def

lemma account_call:
  assumes "invoke_law cc deliver (server_interceptor E A stack json server) (gs_services server)" and "system_server server"
    and "(PandaAccount_ServiceDesc, AccountServer srv) \<in> set (gs_services server)"
    and "pa_SayHello2DemoClient srv (handler_context E (deliver ctx) ''/pb.PandaAccount/SayHello2DemoClient'') inp w = (r, w')"
    and "\<And>m. r \<noteq> Exit m" and "r \<noteq> Ret (None, None)"
  shows "\<exists>md. pandaAccountClient_SayHello2DemoClient cc ctx inp w = ((call_result A r, md), w')"
  using unary_path[where m = "hd (Methods PandaAccount_ServiceDesc)" and f = "pa_SayHello2DemoClient srv" and
      into = into_HelloResponse and q = inp and req = "MHelloRequest inp" and out = "MHelloResponse \<lparr>hr_Reply = []\<rparr>",
      OF assms(1-3)] assms(4-)
  by (simp add: stub_defs service_descs full_name_def PandaAccount_SayHello2DemoClient_Handler_def)

lemma auth_call:
  assumes "invoke_law cc deliver (server_interceptor E A stack json server) (gs_services server)" and "system_server server"
    and "(PandaAuth_ServiceDesc, AuthServer srv) \<in> set (gs_services server)"
    and "pu_SayHello srv (handler_context E (deliver ctx) ''/pb.PandaAuth/SayHello'') inp w = (r, w')"
    and "\<And>m. r \<noteq> Exit m" and "r \<noteq> Ret (None, None)"
  shows "\<exists>md. pandaAuthClient_SayHello cc ctx inp w = ((call_result A r, md), w')"
  using unary_path[where m = "hd (Methods PandaAuth_ServiceDesc)" and f = "pu_SayHello srv" and
      into = into_HelloResponse and q = inp and req = "MHelloRequest inp" and out = "MHelloResponse \<lparr>hr_Reply = []\<rparr>",
      OF assms(1-3)] assms(4-)
  by (simp add: stub_defs service_descs full_name_def PandaAuth_SayHello_Handler_def)

lemma common_call:
  assumes "invoke_law cc deliver (server_interceptor E A stack json server) (gs_services server)" and "system_server server"
    and "(CommonService_ServiceDesc, CommonServer srv) \<in> set (gs_services server)"
    and "pc_SetLogLevel srv (handler_context E (deliver ctx) ''/pb.CommonService/setLogLevel'') inp w = (r, w')"
    and "\<And>m. r \<noteq> Exit m" and "r \<noteq> Ret (None, None)"
  shows "\<exists>md. commonServiceClient_SetLogLevel cc ctx inp w = ((call_result A r, md), w')"
  using unary_path[where m = "hd (Methods CommonService_ServiceDesc)" and f = "pc_SetLogLevel srv" and
      into = into_SetLogLevelResponse and q = inp and req = "MSetLogLevelRequest inp" and
      out = "MSetLogLevelResponse \<lparr>rsp_Code = 0, rsp_ErrMsg = []\<rparr>", OF assms(1-3)] assms(4-)
  by (simp add: stub_defs service_descs full_name_def CommonService_SetLogLevel_Handler_def)

section \<open>The implementations\<close>

text \<open>
  The methods of \<open>Server\<close> behind the generated interfaces. What they send goes through the typed stream. The
  logger of the process is a part of the world, read by \<open>get\<close> and written by \<open>put\<close>.
\<close>

definition chunk_stream :: "'w server_stream \<Rightarrow> 'w stream_api" where
  "chunk_stream x = \<lparr>ss_SetHeader = sv_SetHeader x, ss_Send = (\<lambda>data. fileServer_Send x \<lparr>fc_Data = data\<rparr>)\<rparr>"

definition panda_account_server :: "('w, 'h) os_api \<Rightarrow> ('ctx, 'w) PandaAccountServer" where
  "panda_account_server OS =
     \<lparr>pa_SayHello2DemoClient = (\<lambda>ctx q w. (Ret (Some \<lparr>hr_Reply = fst SayHello2DemoClient\<rparr>, snd SayHello2DemoClient), w)),
      pa_UploadFile = (\<lambda>stream w. Some (Ret UploadFile, w)),
      pa_DownloadFile = (\<lambda>q stream w. map_option (\<lambda>(err, w). (Ret err, w)) (DownloadFile OS (chunk_stream stream) w))\<rparr>"

definition common_server ::
    "'z zip_api \<Rightarrow> ('w, 'h) os_api \<Rightarrow> string list \<Rightarrow> zap_logger \<Rightarrow> (log_level \<Rightarrow> zap_field) \<Rightarrow> err_api \<Rightarrow>
     ('w \<Rightarrow> logger_state) \<Rightarrow> (logger_state \<Rightarrow> 'w \<Rightarrow> 'w) \<Rightarrow> ('ctx, 'w) CommonServiceServer" where
  "common_server P OS keys Z code_field A get put =
     \<lparr>pc_SetLogLevel = (\<lambda>ctx q w. case SetLogLevel Z code_field A (lq_Level q) (get w) of
          Ret ((resp, err), s) \<Rightarrow> (Ret (Some resp, err), put s w)
        | Panic p \<Rightarrow> (Panic p, w)
        | Exit m \<Rightarrow> (Exit m, w)),
      pc_DownloadPprof = (\<lambda>q stream w. Some (DownloadPprofFile P OS (chunk_stream stream) keys (Some (pq_PprofTypes q)) w))\<rparr>"

text \<open>What the method for the log level answers, and the level it leaves.\<close>

definition level_reply :: "string \<Rightarrow> SetLogLevelResponse \<times> gerr option" where
  "level_reply name =
     (case lowercaseStr2LevelMap name of
        Some l \<Rightarrow> (\<lparr>rsp_Code = 200, rsp_ErrMsg = []\<rparr>, None)
      | None \<Rightarrow> (\<lparr>rsp_Code = 400, rsp_ErrMsg = ''[logger] change level fail''\<rparr>, Some (PlainErr ''[logger] change level fail'')))"

definition level_set :: "string \<Rightarrow> log_level" where
  "level_set name = (case lowercaseStr2LevelMap name of Some l \<Rightarrow> l | None \<Rightarrow> InfoLevel)"

lemma common_server_SetLogLevel:
  assumes "zap_law Z"
  obtains s where "lg_level s = level_set name"
    and "pc_SetLogLevel (common_server P OS keys Z code_field A get put) c \<lparr>lq_Level = name\<rparr> w =
      (Ret (Some (fst (level_reply name)), snd (level_reply name)), put s w)"
proof -
  obtain s where "SetLogLevel Z code_field A name (get w) = Ret (level_reply name, s)" and "lg_level s = level_set name"
    using assms by (cases "lowercaseStr2LevelMap name")
      (auto simp: SetLogLevel_def SetLevel_def zap_law_def zap_write_def level_reply_def level_set_def)
  then show thesis by (intro that[of s]) (simp_all add: common_server_def split: prod.split)
qed

section \<open>The gateway over the stubs\<close>

text \<open>
  The clients that the gateway's handlers use, made over a connection; \<open>ctx\<close> is the annotated context, \<open>header\<close> and
  \<open>trailer\<close> are the methods of a client stream. A stub returns a response whenever it returns no error.
\<close>

definition as_reply :: "('r \<Rightarrow> 'm) \<Rightarrow> (('r option \<times> gerr option) \<times> (md \<times> md)) \<times> 'w \<Rightarrow> 'm reply \<times> 'w" where
  "as_reply wrap = (\<lambda>(((resp, err), md), w).
     (((case err of Some e \<Rightarrow> Inl e | None \<Rightarrow> (case resp of Some r \<Rightarrow> Inr (wrap r) | None \<Rightarrow> Inl (PlainErr []))), md), w))"

fun into_HelloRequest :: "pb_message \<Rightarrow> HelloRequest" where
  "into_HelloRequest (MHelloRequest m) = m"
| "into_HelloRequest _ = \<lparr>hq_Name = []\<rparr>"

definition gw_stream_client ::
    "('ctx, 'st, 'w) client_conn \<Rightarrow> ('st \<Rightarrow> 'w \<Rightarrow> (gerr + md) \<times> 'w) \<Rightarrow> ('st \<Rightarrow> 'w \<Rightarrow> md) \<Rightarrow> (pb_message, 'st, 'w) stream_client" where
  "gw_stream_client cc header trailer =
     \<lparr>sc_Send = (\<lambda>st m. uploadFileClient_Send cc st (into_FileChunk m)), sc_CloseSend = cn_CloseSend cc, sc_Header = header,
      sc_CloseAndRecv = (\<lambda>st w. map_prod (map_sum id MFileUploadResponse) id (uploadFileClient_CloseAndRecv cc st w)),
      sc_Trailer = trailer\<rparr>"

definition gw_account_client where
  "gw_account_client cc header trailer ctx =
     \<lparr>ac_SayHello2DemoClient = (\<lambda>m w. as_reply MHelloResponse
        (pandaAccountClient_SayHello2DemoClient cc ctx (into_HelloRequest m) w)),
      ac_UploadFile = pandaAccountClient_UploadFile cc ctx,
      ac_DownloadFile = (\<lambda>file_id. pandaAccountClient_DownloadFile cc ctx \<lparr>dq_FileId = file_id\<rparr>),
      ac_stream = gw_stream_client cc header trailer\<rparr>"

definition gw_common_client where
  "gw_common_client cc header trailer ctx =
     \<lparr>cc_SetLogLevel = (\<lambda>level w. as_reply MSetLogLevelResponse
        (commonServiceClient_SetLogLevel cc ctx \<lparr>lq_Level = level\<rparr> w)),
      cc_DownloadPprofFile = (\<lambda>m. commonServiceClient_DownloadPprofFile cc ctx (into_DownloadPprofFileRequest m)),
      cc_stream = gw_stream_client cc header trailer\<rparr>"

section \<open>Requests of the gateway\<close>

text \<open>
  A \<open>POST\<close> of a greeting to the gateway travels through every layer of the program and comes back: the
  generated route decodes it, the stub calls the method by the name under which the account server has
  registered it, the generated handler runs the server's interceptor around the implementation, and the
  response of the implementation is what the route forwards to the HTTP client; no state changes on the way.
\<close>

lemma gateway_hello_reaches_server:
  assumes "invoke_law cc deliver (server_interceptor E A stack json server) (gs_services server)"
    and "account_server common (panda_account_server OS) = Ret (server, bg)"
    and "gq_Annotate q ''/pb.PandaAccount/SayHello2DemoClient'' account_hello = None"
    and "gq_Body q = None" and "gq_Decode q ''HelloRequest'' = (None, m)"
    and "(''POST'', account_hello, h) \<in> set (RegisterPandaAccountHandlerClient rt (gw_account_client cc header trailer ctx) [])"
  shows "\<exists>md. h q hw w =
    Some (rt_ForwardMessage rt md (MHelloResponse \<lparr>hr_Reply = ''i am panda panda-go client''\<rparr>) hw, w)"
proof -
  let ?r = "Ret (Some \<lparr>hr_Reply = ''i am panda panda-go client''\<rparr>, None) :: (HelloResponse option \<times> gerr option) go"
  have "system_server server" using assms(2) unfolding system_server_def by blast
  moreover have "(PandaAccount_ServiceDesc, AccountServer (panda_account_server OS)) \<in> set (gs_services server)"
    using assms(2) by (auto simp: account_server_def NewServer_eq register_defs split: if_splits)
  moreover have "pa_SayHello2DemoClient (panda_account_server OS) c q w = (?r, w)" for c :: 'a and q
    by (simp add: panda_account_server_def SayHello2DemoClient_def)
  ultimately have "\<exists>md. pandaAccountClient_SayHello2DemoClient cc ctx (into_HelloRequest m) w = ((call_result A ?r, md), w)"
    by (intro account_call[OF assms(1)]) simp_all
  then obtain md where "pandaAccountClient_SayHello2DemoClient cc ctx (into_HelloRequest m) w = ((call_result A ?r, md), w)"
    by blast
  with assms(3-6) show ?thesis
    by (intro exI[of _ md]) (auto simp: RegisterPandaAccountHandlerClient_def client_handler_def
        request_PandaAccount_SayHello2DemoClient_0_def unary_request_def decode_request_def gw_account_client_def
        as_reply_def forward_message_def account_hello_def)
qed

text \<open>
  The generated route \<open>GET /v1/{level}\<close> over a plain connection to any server of the system: for one of the seven names
  the level of that process is set and the response with code 200 is forwarded. For any other name the level
  becomes \<open>info\<close>, and the answer is the error page of status \<open>Unknown\<close>: the response with code 400 that the
  handler made is never transmitted, because it also returned the error.
\<close>

lemma gateway_level_request:
  assumes "invoke_law cc deliver (server_interceptor E A stack json server) (gs_services server)"
    and "system_server server"
    and "(CommonService_ServiceDesc, CommonServer (common_server P OS keys Z code_field A' get put)) \<in> set (gs_services server)"
    and "zap_law Z"
    and "gq_Annotate q ''/pb.CommonService/SetLogLevel'' ''/v1/{level}'' = None" and "gq_PathParams q ''level'' = Some name"
    and "(''GET'', ''/v1/{level}'', h) \<in> set (RegisterCommonServiceHandlerClient rt (gw_common_client cc header trailer ctx) [])"
  shows "\<exists>md s. h q hw w =
    (case lowercaseStr2LevelMap name of
       Some l \<Rightarrow> Some (rt_ForwardMessage rt md (MSetLogLevelResponse \<lparr>rsp_Code = 200, rsp_ErrMsg = []\<rparr>) hw, put s w)
     | None \<Rightarrow> Some (rt_HTTPError rt (Some md) (StatusErr 2 ''[logger] change level fail'') hw, put s w)) \<and>
    lg_level s = level_set name"
proof -
  obtain s where lvl: "lg_level s = level_set name"
    and run: "pc_SetLogLevel (common_server P OS keys Z code_field A' get put)
        (handler_context E (deliver ctx) ''/pb.CommonService/setLogLevel'') \<lparr>lq_Level = name\<rparr> w =
      (Ret (Some (fst (level_reply name)), snd (level_reply name)), put s w)"
    by (rule common_server_SetLogLevel[OF assms(4)])
  have "\<exists>md. commonServiceClient_SetLogLevel cc ctx \<lparr>lq_Level = name\<rparr> w =
      ((call_result A (Ret (Some (fst (level_reply name)), snd (level_reply name))), md), put s w)"
    by (rule common_call[OF assms(1-3) run]) simp_all
  then obtain md where c: "commonServiceClient_SetLogLevel cc ctx \<lparr>lq_Level = name\<rparr> w =
      ((call_result A (Ret (Some (fst (level_reply name)), snd (level_reply name))), md), put s w)" by blast
  have h: "h = client_handler rt ''/pb.CommonService/SetLogLevel'' ''/v1/{level}''
      (\<lambda>q w. Some (request_CommonService_SetLogLevel_0 (cc_SetLogLevel (gw_common_client cc header trailer ctx)) q w))
      (forward_message rt)"
    using assms(7) by (auto simp: RegisterCommonServiceHandlerClient_def)
  show ?thesis
    using c lvl assms(5,6) by (intro exI[of _ md] exI[of _ s]) (simp add: h client_handler_def level_reply_def
        request_CommonService_SetLogLevel_0_def unary_request_def path_request_def gw_common_client_def as_reply_def
        forward_message_def split: option.split)
qed

section \<open>A streamed answer\<close>

text \<open>
  C22: A download through the generated handler and the typed stream always ends, and whatever file the request names
  the handler reports no error. What it has sent is a list of non-empty chunks of at most 1024 bytes, which together
  are a beginning of what lies in \<open>lgx.txt\<close> after the demonstration text was written there, and of that text when
  writing it succeeded. Sending stops short of the end of the file only because the file could not be opened, a read
  failed after those chunks, or the stream refused the last chunk or the one after it. A request that cannot be
  received is answered by the error of the stream, and nothing is written.
\<close>

theorem download_over_stream:
  assumes F: "file_laws OS file_of unread path_of sent" and R: "read_law OS unread sent"
    and S: "send_law (chunk_stream stream) unread sent"
  shows "case sv_RecvMsg stream (MDownloadFileRequest \<lparr>dq_FileId = []\<rparr>) w of
      (Inl err, w0) \<Rightarrow> PandaAccount_DownloadFile_Handler (AccountServer (panda_account_server OS)) stream w =
        Some (Ret (Some (stream_error err)), w0)
    | (Inr req, w0) \<Rightarrow> \<exists>werr w1 w' chunks rest.
        PandaAccount_DownloadFile_Handler (AccountServer (panda_account_server OS)) stream w = Some (Ret None, w') \<and>
        sent w' = sent w0 @ chunks \<and> (\<forall>c \<in> set chunks. c \<noteq> [] \<and> length c \<le> 1024) \<and>
        WriteStringToFile OS ''lgx.txt'' demo_text w0 = (werr, w1) \<and>
        file_of w1 ''lgx.txt'' = concat chunks @ rest \<and> (werr = None \<longrightarrow> concat chunks @ rest = demo_text) \<and>
        (rest = [] \<or>
         (\<exists>e. chunks = [] \<and> fst (os_Open OS ''lgx.txt'' w1) = Inl e) \<or>
         (\<exists>e h v. snd (fst (os_Read OS h 1024 v)) = Some (ReadErr e) \<and> sent w' = sent v) \<or>
         (\<exists>e b v. fst (sv_SendMsg stream (MFileChunk \<lparr>fc_Data = b\<rparr>) v) = Some e \<and>
            (sent w' = sent v \<or> sent w' = sent v @ [b])))"
proof -
  obtain m w0 where recv: "sv_RecvMsg stream (MDownloadFileRequest \<lparr>dq_FileId = []\<rparr>) w = (m, w0)" by (metis surj_pair)
  obtain werr w1 where W: "WriteStringToFile OS ''lgx.txt'' demo_text w0 = (werr, w1)" by (metis surj_pair)
  obtain err w' chunks rest where r: "readFileAndWriteToStream OS (chunk_stream stream) ''lgx.txt'' w1 = Some (err, w')"
    "sent w' = sent w1 @ chunks" "file_of w1 ''lgx.txt'' = concat chunks @ rest"
    "\<forall>c \<in> set chunks. c \<noteq> [] \<and> length c \<le> 1024"
    "case err of None \<Rightarrow> rest = [] | Some e \<Rightarrow> chunks = [] \<and> fst (os_Open OS ''lgx.txt'' w1) = Inl e \<or>
        download_stops OS (chunk_stream stream) sent (sent w') e"
    using readFile_outcome[OF F R S] by blast
  note WE = WriteStringToFile_effect[OF F W]
  have stop: "rest = [] \<or> (\<exists>e. chunks = [] \<and> fst (os_Open OS ''lgx.txt'' w1) = Inl e) \<or>
      (\<exists>e h v. snd (fst (os_Read OS h 1024 v)) = Some (ReadErr e) \<and> sent w' = sent v) \<or>
      (\<exists>e b v. fst (sv_SendMsg stream (MFileChunk \<lparr>fc_Data = b\<rparr>) v) = Some e \<and>
         (sent w' = sent v \<or> sent w' = sent v @ [b]))"
    using r(5) unfolding download_stops_def chunk_stream_def fileServer_Send_def stream_api.simps
    by (cases err) (simp only: option.case, blast)+
  have "DownloadFile OS (chunk_stream stream) w0 = Some (None, w')" by (simp add: DownloadFile_def W r(1))
  then have run: "PandaAccount_DownloadFile_Handler (AccountServer (panda_account_server OS)) stream w =
      (case m of Inl err \<Rightarrow> Some (Ret (Some (stream_error err)), w0) | Inr req \<Rightarrow> Some (Ret None, w'))"
    by (simp add: PandaAccount_DownloadFile_Handler_def server_streaming_handler_def panda_account_server_def recv
        split: sum.split)
  show ?thesis
  proof (cases m)
    case (Inr req)
    with run recv W r(2-4) WE stop show ?thesis
      by (simp, intro exI[of _ werr] exI[of _ w1] exI[of _ w'] exI[of _ chunks] exI[of _ rest]) simp
  qed (use run recv in simp)
qed

section \<open>A library that keeps the law\<close>

text \<open>A connection that finds the handler by its name in a list, in the caller's process.\<close>

definition handlers_of where
  "handlers_of services =
     concat (map (\<lambda>(desc, srv). map (\<lambda>m. (full_name desc (MethodName m), Handler m srv)) (Methods desc)) services)"

definition local_conn ::
    "('ctx \<Rightarrow> 'ctx) \<Rightarrow> ('ctx, 'w) interceptor option \<Rightarrow> ('ctx, 'w) service list \<Rightarrow> ('ctx, unit, 'w) client_conn" where
  "local_conn deliver ic services =
     \<lparr>cn_Invoke = (\<lambda>ctx meth req out w.
        case map_of (handlers_of services) meth of
          None \<Rightarrow> (((Some (StatusErr 12 ''unknown method''), out), ([], [])), w)
        | Some run \<Rightarrow>
            (case run (deliver ctx) (\<lambda>_. Inr req) ic w of
               (Ret (resp, err), w) \<Rightarrow>
                 (((map_option wire_error err, case resp of Some r \<Rightarrow> r | None \<Rightarrow> out), ([], [])), w)
             | (_, w) \<Rightarrow> (((Some (StatusErr 14 ''connection closed''), out), ([], [])), w))),
      cn_NewStream = (\<lambda>ctx flags meth w. (Inl (StatusErr 12 ''no streams''), w)),
      cn_SendMsg = (\<lambda>st m w. (Some EOF, w)), cn_CloseSend = (\<lambda>st w. (None, w)), cn_RecvMsg = (\<lambda>st m w. (Inl EOF, w))\<rparr>"

lemma local_conn_law:
  assumes "distinct (map fst (handlers_of services))"
  shows "invoke_law (local_conn deliver ic services) deliver ic services"
proof -
  have "map_of (handlers_of services) (full_name desc (MethodName m)) = Some (Handler m srv)"
    if "(desc, srv) \<in> set services" "m \<in> set (Methods desc)" for desc srv m
    using assms that by (intro map_of_is_SomeI) (auto simp: handlers_of_def)
  then show ?thesis by (auto simp: invoke_law_def local_conn_def)
qed

lemma account_server_services:
  "account_server common account = Ret (server, bg) \<Longrightarrow> gs_services server =
     [(CommonService_ServiceDesc, CommonServer common), (PandaAccount_ServiceDesc, AccountServer account)]"
  by (auto simp: account_server_def NewServer_eq register_defs split: if_splits)

lemma account_server_eq:
  "account_server common account = Ret (\<lparr>gs_unary = [JaegerUnaryServer], gs_stream = Some JaegerStreamServer,
     gs_keepalive_seconds = 180, gs_permit_without_stream = True, gs_services =
     [(CommonService_ServiceDesc, CommonServer common), (PandaAccount_ServiceDesc, AccountServer account)]\<rparr>,
     [HolmesInit, PushMetric])"
  by (simp add: account_server_def NewServer_eq register_defs CommonService_ServiceDesc_def PandaAccount_ServiceDesc_def)

lemma account_server_law:
  assumes "account_server common account = Ret (server, bg)"
  shows "invoke_law (local_conn deliver ic (gs_services server)) deliver ic (gs_services server)"
  by (rule local_conn_law)
    (simp add: account_server_services[OF assms] handlers_of_def full_name_def service_descs)

section \<open>Examples\<close>

definition path_rt :: "(pb_message, unit, unit, 'w) gw_rt" where
  "path_rt = \<lparr>rt_err = example_err_api,
     rt_HTTPError = (\<lambda>md e hw. hw_Write (err_text (\<lambda>_ d. d) e) (hw_WriteHeader 500 hw)),
     rt_ForwardMessage = (\<lambda>md m. hw_Write (case m of MHelloResponse r \<Rightarrow> hr_Reply r |
        MSetLogLevelResponse r \<Rightarrow> int_text (rsp_Code r) | _ \<Rightarrow> [])),
     rt_ForwardStream = (\<lambda>md h hw w. (hw, w)), rt_DecodeChunk = (\<lambda>d. (Inl EOF, d))\<rparr>"

definition path_request_of :: "pb_message \<Rightarrow> (string \<rightharpoonup> string) \<Rightarrow> (pb_message, unit) gw_request" where
  "path_request_of m params = \<lparr>gq_Annotate = (\<lambda>_ _. None), gq_AnnotateIncoming = (\<lambda>_ _. None), gq_Body = None,
     gq_Decode = (\<lambda>_. (None, m)), gq_Stream = (), gq_PathParams = params\<rparr>"

text \<open>An operating system that refuses everything.\<close>

definition no_os :: "('w, unit) os_api" where
  "no_os = \<lparr>os_Create = (\<lambda>p w. (Inl (PlainErr p), w)), os_Open = (\<lambda>p w. (Inl (PlainErr p), w)),
     os_WriteString = (\<lambda>h s w. (None, w)), os_Read = (\<lambda>h n w. (([], Some EOF), w)), os_Close = (\<lambda>h w. w),
     os_WriteFile = (\<lambda>p s w. (Some (PlainErr p), w))\<rparr>"

definition level_server :: "('ctx, logger_state) CommonServiceServer" where
  "level_server = common_server list_zip no_os [] zap_example (\<lambda>_. ZString ''code'' []) example_err_api (\<lambda>w. w) (\<lambda>s w. s)"

lemma gateway_hello_reaches_server_witness:
  "\<exists>h server. (''POST'', account_hello, h) \<in> set (RegisterPandaAccountHandlerClient path_rt (gw_account_client
      (local_conn (\<lambda>c. c) (server_interceptor example_trace_env example_err_api ''stack'' (\<lambda>_. ''{}'') server)
        (gs_services server)) (\<lambda>st w. (Inr [], w)) (\<lambda>st w. []) (None, None)) []) \<and>
    h (path_request_of (MHelloRequest \<lparr>hq_Name = ''me''\<rparr>) Map.empty) \<lparr>hw_headers = [], hw_status = None, hw_body = []\<rparr>
      \<lparr>dk_files = (\<lambda>_. []), dk_unread = [], dk_sent = []\<rparr> =
    Some (\<lparr>hw_headers = [], hw_status = Some (200, []), hw_body = ''i am panda panda-go client''\<rparr>,
      \<lparr>dk_files = (\<lambda>_. []), dk_unread = [], dk_sent = []\<rparr>)"
proof -
  obtain server :: "(md option \<times> md option, disk) grpc_server" and bg where
    s: "account_server UnimplementedCommonServiceServer (panda_account_server disk_os) = Ret (server, bg)"
    by (simp add: account_server_eq)
  let ?cc = "local_conn (\<lambda>c. c) (server_interceptor example_trace_env example_err_api ''stack'' (\<lambda>_. ''{}'') server)
      (gs_services server)"
  let ?rs = "RegisterPandaAccountHandlerClient path_rt (gw_account_client ?cc (\<lambda>st w. (Inr [], w)) (\<lambda>st w. []) (None, None)) []"
  obtain h where h: "(''POST'', account_hello, h) \<in> set ?rs" by (auto simp: RegisterPandaAccountHandlerClient_def)
  show ?thesis
    using gateway_hello_reaches_server[OF account_server_law[OF s] s _ _ _ h, where
        q = "path_request_of (MHelloRequest \<lparr>hq_Name = ''me''\<rparr>) Map.empty" and m = "MHelloRequest \<lparr>hq_Name = ''me''\<rparr>"] h
    by (intro exI[of _ h] exI[of _ server]) (simp add: path_request_of_def path_rt_def hw_Write_def hw_WriteHeader_def)
qed

lemma gateway_level_request_witness:
  "\<exists>h server s. (''GET'', ''/v1/{level}'', h) \<in> set (RegisterCommonServiceHandlerClient path_rt (gw_common_client
      (local_conn (\<lambda>c. c) (server_interceptor example_trace_env example_err_api ''stack'' (\<lambda>_. ''{}'') server)
        (gs_services server)) (\<lambda>st w. (Inr [], w)) (\<lambda>st w. []) (None, None)) []) \<and>
    h (path_request_of MEmpty [''level'' \<mapsto> ''loud'']) \<lparr>hw_headers = [], hw_status = None, hw_body = []\<rparr> init_logger =
    Some (\<lparr>hw_headers = [], hw_status = Some (500, []), hw_body = ''[logger] change level fail''\<rparr>, s) \<and>
    lg_level s = InfoLevel"
proof -
  obtain server :: "(md option \<times> md option, logger_state) grpc_server" and bg where
    s: "account_server level_server UnimplementedPandaAccountServer = Ret (server, bg)"
    by (simp add: account_server_eq)
  have sys: "system_server server" using s unfolding system_server_def by blast
  let ?cc = "local_conn (\<lambda>c. c) (server_interceptor example_trace_env example_err_api ''stack'' (\<lambda>_. ''{}'') server)
      (gs_services server)"
  let ?rs = "RegisterCommonServiceHandlerClient path_rt (gw_common_client ?cc (\<lambda>st w. (Inr [], w)) (\<lambda>st w. []) (None, None)) []"
  have reg: "(CommonService_ServiceDesc, CommonServer (common_server list_zip no_os [] zap_example (\<lambda>_. ZString ''code'' [])
      example_err_api (\<lambda>w. w) (\<lambda>s w. s))) \<in> set (gs_services server)"
    using account_server_services[OF s] by (simp add: level_server_def)
  obtain h where h: "(''GET'', ''/v1/{level}'', h) \<in> set ?rs" by (auto simp: RegisterCommonServiceHandlerClient_def)
  have "\<exists>t. h (path_request_of MEmpty [''level'' \<mapsto> ''loud'']) \<lparr>hw_headers = [], hw_status = None, hw_body = []\<rparr>
      init_logger = Some (\<lparr>hw_headers = [], hw_status = Some (500, []), hw_body = ''[logger] change level fail''\<rparr>, t) \<and>
      lg_level t = InfoLevel"
    using gateway_level_request[OF account_server_law[OF s] sys reg zap_example_law _ _ h, where
        q = "path_request_of MEmpty [''level'' \<mapsto> ''loud'']" and name = "''loud''" and
        hw = "\<lparr>hw_headers = [], hw_status = None, hw_body = []\<rparr>" and w = init_logger]
    by (auto simp: level_set_def path_request_of_def lowercaseStr2LevelMap_def path_rt_def hw_Write_def hw_WriteHeader_def)
  with h show ?thesis by blast
qed

text \<open>A stream of the disk's client.\<close>

definition disk_server_stream :: "disk server_stream" where
  "disk_server_stream =
     \<lparr>sv_SendMsg = (\<lambda>m w. (None, w\<lparr>dk_sent := dk_sent w @ [fc_Data (into_FileChunk m)]\<rparr>)),
      sv_RecvMsg = (\<lambda>m w. (Inr (MDownloadFileRequest \<lparr>dq_FileId = ''7''\<rparr>), w)), sv_SetHeader = (\<lambda>m w. w)\<rparr>"

lemma disk_chunk_stream: "chunk_stream disk_server_stream = disk_stream"
  by (simp add: chunk_stream_def disk_server_stream_def disk_stream_def fileServer_Send_def)

lemma download_over_stream_witness:
  "\<exists>w' chunks rest. PandaAccount_DownloadFile_Handler (AccountServer (panda_account_server disk_os :: (unit, disk) PandaAccountServer)) disk_server_stream
      \<lparr>dk_files = (\<lambda>_. []), dk_unread = [], dk_sent = []\<rparr> = Some (Ret None, w') \<and>
    dk_sent w' = chunks \<and> concat chunks @ rest = demo_text"
proof -
  let ?w = "\<lparr>dk_files = (\<lambda>_. []), dk_unread = [], dk_sent = []\<rparr>"
  have 1: "WriteStringToFile disk_os ''lgx.txt'' demo_text ?w =
      (None, ?w\<lparr>dk_files := (\<lambda>_. [])(''lgx.txt'' := demo_text)\<rparr>)"
    by (simp add: WriteStringToFile_def disk_os_def)
  have 2: "sv_RecvMsg disk_server_stream m ?w = (Inr (MDownloadFileRequest \<lparr>dq_FileId = ''7''\<rparr>), ?w)" for m
    by (simp add: disk_server_stream_def)
  have S: "send_law (chunk_stream disk_server_stream) (\<lambda>h. dk_unread) dk_sent"
    using disk_laws(3) by (simp add: disk_chunk_stream)
  note T = download_over_stream[OF disk_laws(1,2) S, of ?w, unfolded 2 1 prod.case sum.case]
  then obtain werr w1 w' chunks rest where
    "PandaAccount_DownloadFile_Handler (AccountServer (panda_account_server disk_os :: (unit, disk) PandaAccountServer))
        disk_server_stream ?w = Some (Ret None, w')"
    "dk_sent w' = dk_sent ?w @ chunks" "werr = None \<longrightarrow> concat chunks @ rest = demo_text"
    "(None :: gerr option, ?w\<lparr>dk_files := (\<lambda>_. [])(''lgx.txt'' := demo_text)\<rparr>) = (werr, w1)"
    by (elim exE conjE) (rule that, assumption+)
  then show ?thesis by (intro exI[of _ w'] exI[of _ chunks] exI[of _ rest]) simp
qed

end
