(* ===== verification/HelloChain.thy ===== *)
theory HelloChain
  imports GrpcPath
begin

text \<open>
  One request through two services: \<open>GET /test\<close> of \<open>panda-account\<close> calls \<open>SayHello\<close> of \<open>panda-auth\<close>, which calls
  \<open>SayHello2DemoClient\<close> of \<open>panda-account\<close>. Each call runs through the client's two interceptors, the gRPC library,
  the generated code and the server's interceptor.

  The two client processes have a state of their own (\<open>rpc_state\<close>). They share the world \<open>'w\<close>, of which the state of
  \<open>panda-auth\<close> is a part, as its server runs there: \<open>load\<close> reads it and \<open>save\<close> writes it back. The message that
  a call receives into is a place in the world, written by \<open>put_out\<close> and read by \<open>get_out\<close>.
\<close>

section \<open>Calls over a dialled connection\<close>

text \<open>\<open>Invoke\<close> of a connection of \<open>DialWrapper\<close>: \<open>raw\<close> is the library's part, inside the interceptors.\<close>

definition intercepted_invoke ::
    "('w, 'conn, 'cfg, 'cl) rpc_env \<Rightarrow> ('ctx, 'span) trace_env \<Rightarrow> string \<Rightarrow> ('w, 'conn, 'cfg, 'cl) rpc_state \<Rightarrow>
     (pb_message \<Rightarrow> string) \<Rightarrow> ('w \<Rightarrow> pb_message) \<Rightarrow> (pb_message \<Rightarrow> 'w \<Rightarrow> 'w) \<Rightarrow> ('conn \<Rightarrow> ('ctx, 'st, 'w) client_conn) \<Rightarrow>
     'conn \<Rightarrow> 'ctx \<Rightarrow> string \<Rightarrow> pb_message \<Rightarrow> pb_message \<Rightarrow> ('w, 'conn, 'cfg, 'cl) rpc_state \<Rightarrow>
     ((gerr option \<times> pb_message) \<times> ('w, 'conn, 'cfg, 'cl) rpc_state) go" where
  "intercepted_invoke X E stack at_panic json get_out put_out raw conn ctx meth req out s =
     (case unary_call X E stack at_panic ctx meth (json req)
             (\<lambda>ctx cc w. case cn_Invoke (raw cc) ctx meth req out w of
                (((err, out), md), w) \<Rightarrow> (err, put_out out w)) conn s of
        (r, s) \<Rightarrow> go_map (\<lambda>(err, items). ((err, get_out (rs_world s)), s)) r)"

text \<open>The two stubs over such a connection, as \<open>handleTest\<close> and \<open>SayHello\<close> call them.\<close>

definition dialled_hello where
  "dialled_hello meth X E stack at_panic json get_out put_out raw ctx conn name s =
     go_map (\<lambda>((err, out), s).
        (case err of
           Some e \<Rightarrow> Inl e
         | None \<Rightarrow> Inr (GetReply (Some (into_HelloResponse out))), s))
       (intercepted_invoke X E stack at_panic json get_out put_out raw conn ctx meth (MHelloRequest \<lparr>hq_Name = name\<rparr>)
          (MHelloResponse \<lparr>hr_Reply = []\<rparr>) s)"

definition dialled_SayHello where
  "dialled_SayHello = dialled_hello ''/pb.PandaAuth/SayHello''"

definition dialled_SayHello2DemoClient where
  "dialled_SayHello2DemoClient = dialled_hello ''/pb.PandaAccount/SayHello2DemoClient''"

text \<open>A call that the library answers at once changes nothing but the world.\<close>

lemma retry_answered:
  assumes "invoker cc (rs_world s) = (None, w)"
  shows "RetryGrpcUnaryClientInterceptor X invoker cc s = Ret (None, set_world w s)"
  using assms by (simp add: RetryGrpcUnaryClientInterceptor_def numeral_3_eq_3)

lemma intercepted_answered:
  assumes "cn_Invoke (raw conn) (client_context E ctx (re_Target X conn @ meth)) meth req out (rs_world s) = (((None, r), md), w)"
    and "\<And>m w. get_out (put_out m w) = m"
  shows "intercepted_invoke X E stack at_panic json get_out put_out raw conn ctx meth req out s =
    Ret ((None, r), set_world (put_out r w) s)"
proof -
  let ?inv = "\<lambda>ctx cc w. case cn_Invoke (raw cc) ctx meth req out w of (((err, out), md), w) \<Rightarrow> (err, put_out out w)"
  have "RetryGrpcUnaryClientInterceptor X (?inv (client_context E ctx (re_Target X conn @ meth))) conn s =
      Ret (None, set_world (put_out r w) s)"
    by (rule retry_answered) (simp add: assms(1))
  then show ?thesis
    by (simp add: intercepted_invoke_def unary_call_def JaegerGrpcUnaryClientInterceptor_def assms(2) Let_def)
qed

section \<open>The auth server\<close>

definition hello_server where
  "hello_server X U E call load save =
     \<lparr>pu_SayHello = (\<lambda>ctx (q :: HelloRequest) w. case SayHello X U E call ctx (load w) of
        Ret ((reply, err), items, s) \<Rightarrow> (Ret (Some \<lparr>hr_Reply = reply\<rparr>, err), save s)
      | Panic p \<Rightarrow> (Panic p, w)
      | Exit m \<Rightarrow> (Exit m, w))\<rparr>"

lemma SayHello_answers:
  assumes "GetConn X ''panda-account'' s = Ret (Inr conn, s1)"
    and "\<And>ctx. call ctx conn ''123231'' s1 = Ret (Inr hello, s2)"
  shows "\<exists>items. SayHello X U E call ctx s = Ret ((hello, None), items, s2)"
  using assms by (cases "demo_span E ctx ''ToServerCallSayHello'' ''ToServerCallSayHello handling grpc request''")
    (simp add: SayHello_def CreateClientWrapper_account)

lemma handleTest_answers:
  assumes "GetConn X ''panda-auth'' s = Ret (Inr conn, s1)"
    and "\<And>ctx. call ctx conn ''11'' s1 = Ret (Inr hello, s2)"
  shows "\<exists>items. handleTest X U E call ctx s =
    Ret ([(200, ''message'', ReplyJson hello), (200, ''message'', TextJson ''Hello, World!'')], items, s2)"
  using assms by (cases "demo_span E ctx ''handleGetTest'' ''handling HTTP request''")
    (simp add: handleTest_def CreateClientWrapper_auth)

text \<open>What a dialled stub gives when the library brings an answer, and when it comes from either server.\<close>

lemma dialled_hello_answers:
  assumes "\<And>c q out. \<exists>md. cn_Invoke (raw conn) c meth (MHelloRequest q) out (rs_world s) = (((None, MHelloResponse r), md), w)"
    and "\<And>m w. get_out (put_out m w) = m"
  shows "dialled_hello meth X E stack at_panic json get_out put_out raw ctx conn name s =
    Ret (Inr (hr_Reply r), set_world (put_out (MHelloResponse r) w) s)"
proof -
  from assms(1) obtain md where "cn_Invoke (raw conn) (client_context E ctx (re_Target X conn @ meth)) meth
      (MHelloRequest \<lparr>hq_Name = name\<rparr>) (MHelloResponse \<lparr>hr_Reply = []\<rparr>) (rs_world s) = (((None, MHelloResponse r), md), w)"
    by blast
  from intercepted_answered[where raw = raw and get_out = get_out and put_out = put_out, OF this assms(2)]
  show ?thesis by (simp add: dialled_hello_def GetReply_def)
qed

lemma account_answers:
  assumes "invoke_law cc deliver (server_interceptor E A stack json server) (gs_services server)"
    and server: "account_server common (panda_account_server OS) = Ret (server, bg)"
  shows "\<exists>md. cn_Invoke cc c ''/pb.PandaAccount/SayHello2DemoClient'' (MHelloRequest q) out w =
    (((None, MHelloResponse \<lparr>hr_Reply = ''i am panda panda-go client''\<rparr>), md), w)"
proof -
  have sys: "system_server server" using server unfolding system_server_def by blast
  show ?thesis
    using invoke_path[where m = "hd (Methods PandaAccount_ServiceDesc)" and f = "pa_SayHello2DemoClient (panda_account_server OS)" and
        desc = PandaAccount_ServiceDesc and ctx = c and q = q and req = "MHelloRequest q" and out = out and w = w and w' = w and
        r = "Ret (Some \<lparr>hr_Reply = ''i am panda panda-go client''\<rparr>, None)" and
        srv = "AccountServer (panda_account_server OS)", OF assms(1) sys]
      account_server_services[OF server]
    by (auto simp: service_descs full_name_def PandaAccount_SayHello2DemoClient_Handler_def panda_account_server_def
        SayHello2DemoClient_def visible_error_def)
qed

lemma auth_server_services:
  "auth_server common auth = Ret (server, bg) \<Longrightarrow> gs_services server =
     [(CommonService_ServiceDesc, CommonServer common), (PandaAuth_ServiceDesc, AuthServer auth)]"
  by (auto simp: auth_server_def NewServer_eq register_defs split: if_splits)

lemma auth_answers:
  assumes "invoke_law cc deliver (server_interceptor E A stack json server) (gs_services server)"
    and server: "auth_server common auth = Ret (server, bg)"
    and run: "\<And>c. pu_SayHello auth c q w = (Ret (Some r, None), w')"
  shows "\<exists>md. cn_Invoke cc c ''/pb.PandaAuth/SayHello'' (MHelloRequest q) out w = (((None, MHelloResponse r), md), w')"
proof -
  have sys: "system_server server" using server unfolding system_server_def by blast
  show ?thesis
    using invoke_path[where m = "hd (Methods PandaAuth_ServiceDesc)" and f = "pu_SayHello auth" and
        desc = PandaAuth_ServiceDesc and ctx = c and q = q and req = "MHelloRequest q" and out = out and w = w and w' = w' and
        r = "Ret (Some r, None)" and srv = "AuthServer auth", OF assms(1) sys]
      auth_server_services[OF server] run
    by (auto simp: service_descs full_name_def PandaAuth_SayHello_Handler_def visible_error_def)
qed

section \<open>\<open>GET /test\<close>\<close>

text \<open>
  C4: \<open>GET /test\<close> of \<open>panda-account\<close>, when each of the two services has or gets a connection to the other, goes
  through both: the answer is what \<open>SayHello2DemoClient\<close> of the account service says, handed on by \<open>SayHello\<close> of the
  auth service, followed by a second JSON document, because the handler does not return after the first. Of
  the two clients' states only the parts that getting the connections changes are changed.
\<close>

theorem test_request_through_both_services:
  assumes out: "\<And>m w. get_out (put_out m w) = m"
    and conn: "GetConn X ''panda-auth'' s = Ret (Inr a, s1)"
    and conn': "GetConn X' ''panda-account'' (load (rs_world s1)) = Ret (Inr b, t1)"
    and law: "invoke_law (raw a) deliver (server_interceptor ES A stackS json auth) (gs_services auth)"
    and law': "invoke_law (raw' b) deliver' (server_interceptor ES' A' stackS' json account) (gs_services account)"
    and auth: "auth_server common (hello_server X' U E'
        (dialled_SayHello2DemoClient X' E' stack' at' json get_out put_out raw') load save) = Ret (auth, bg)"
    and account: "account_server common' (panda_account_server OS) = Ret (account, bg')"
  shows "\<exists>items. handleTest X U E (dialled_SayHello X E stack at json get_out put_out raw) ctx s =
    (let hello = MHelloResponse \<lparr>hr_Reply = ''i am panda panda-go client''\<rparr>;
         w = save (set_world (put_out hello (rs_world t1)) t1) in
     Ret ([(200, ''message'', ReplyJson ''i am panda panda-go client''), (200, ''message'', TextJson ''Hello, World!'')], items,
       set_world (put_out hello w) s1))"
proof -
  let ?hello = "\<lparr>hr_Reply = ''i am panda panda-go client''\<rparr>"
  let ?t = "set_world (put_out (MHelloResponse ?hello) (rs_world t1)) t1"
  let ?call' = "dialled_SayHello2DemoClient X' E' stack' at' json get_out put_out raw'"
  have "?call' c b ''123231'' t1 = Ret (Inr (hr_Reply ?hello), ?t)" for c
    unfolding dialled_SayHello2DemoClient_def using account_answers[OF law' account] out by (rule dialled_hello_answers)
  note hello = SayHello_answers[where call = ?call', OF conn' this]
  have "pu_SayHello (hello_server X' U E' ?call' load save) c q (rs_world s1) = (Ret (Some ?hello, None), save ?t)" for c q
  proof -
    obtain items where "SayHello X' U E' ?call' c (load (rs_world s1)) = Ret ((hr_Reply ?hello, None), items, ?t)"
      using hello by blast
    then show ?thesis by (simp add: hello_server_def)
  qed
  then have "\<exists>md. cn_Invoke (raw a) c ''/pb.PandaAuth/SayHello'' (MHelloRequest q) out (rs_world s1) =
      (((None, MHelloResponse ?hello), md), save ?t)" for c q out
    by (intro auth_answers[OF law auth])
  then have "dialled_SayHello X E stack at json get_out put_out raw c a ''11'' s1 =
      Ret (Inr (hr_Reply ?hello), set_world (put_out (MHelloResponse ?hello) (save ?t)) s1)" for c
    unfolding dialled_SayHello_def using out by (rule dialled_hello_answers)
  from handleTest_answers[where call = "dialled_SayHello X E stack at json get_out put_out raw", OF conn this]
  show ?thesis by (simp add: Let_def)
qed

section \<open>Example\<close>

record chain_world =
  ch_cell :: pb_message
  ch_auth_conns :: "string conn_map"

definition chain_env :: "(chain_world, string, unit, unit) rpc_env" where
  "chain_env = \<lparr>re_get = retry_twice, re_watch = retry_twice, re_publish = retry_twice, re_nacos = example_env, re_md5 = rev,
     re_sdk = \<lparr>cc_PublishConfig = (\<lambda>p w. ((True, None), w)), cc_ListenConfig = (\<lambda>p w. (None, w)),
       cc_GetConfig = (\<lambda>p w. (([], None), w))\<rparr>,
     re_dec = (\<lambda>v. ([], None)), re_enc = (\<lambda>mp. concat (map fst mp)), re_service_name = [], re_k8s = K8s.example_k8s,
     re_list = (\<lambda>_ w. (Inr (Some example_services), w)), re_Dial = (\<lambda>t w. (Inl (PlainErr t), w)), re_Target = (\<lambda>t. t),
     re_fmt_status = (\<lambda>c d. d), re_gjson_code = (\<lambda>_. None)\<rparr>"

definition chain_state :: "string conn_map \<Rightarrow> chain_world \<Rightarrow> (chain_world, string, unit, unit) rpc_state" where
  "chain_state conns w = \<lparr>rs_nacos = \<lparr>nc_world = w, ConfigCacheMap = [], ConfigWatchHandleMap = [],
       nc_app = \<lparr>call_once = True, GrpcCallRelationKey = initial_key, service2NamespaceMap = [],
         serviceName2ConnMap = conns\<rparr>\<rparr>, rs_k8s = K8s.example_k8s_state\<rparr>"

lemma auth_server_law:
  assumes "auth_server common auth = Ret (server, bg)"
  shows "invoke_law (local_conn deliver ic (gs_services server)) deliver ic (gs_services server)"
  by (rule local_conn_law)
    (simp add: auth_server_services[OF assms] handlers_of_def full_name_def service_descs)

lemma auth_server_ex: "\<exists>server bg. auth_server common auth = Ret (server, bg)"
  by (simp add: auth_server_def NewServer_eq register_defs CommonService_ServiceDesc_def PandaAuth_ServiceDesc_def)

lemma test_request_through_both_services_witness:
  "\<exists>call items s. handleTest chain_env ascii_tables example_trace_env call (None, None)
      (chain_state [(''panda-auth'', ''auth:50051'')] \<lparr>ch_cell = MEmpty, ch_auth_conns = [(''panda-account'', ''account:50051'')]\<rparr>) =
    Ret ([(200, ''message'', ReplyJson ''i am panda panda-go client''), (200, ''message'', TextJson ''Hello, World!'')], items, s)"
proof -
  let ?E = "example_trace_env :: (md option \<times> md option, _) trace_env"
  let ?ic = "server_interceptor ?E example_err_api ''stack'' (\<lambda>_. ''{}'')"
  let ?put = "\<lambda>m w. w\<lparr>ch_cell := m\<rparr>" and ?load = "\<lambda>w. chain_state (ch_auth_conns w) w"
  let ?save = "\<lambda>s. (rs_world s)\<lparr>ch_auth_conns := rs_conns s\<rparr>"
  let ?w = "\<lparr>ch_cell = MEmpty, ch_auth_conns = [(''panda-account'', ''account:50051'')]\<rparr>"
  let ?s = "chain_state [(''panda-auth'', ''auth:50051'')] ?w"
  obtain account :: "(md option \<times> md option, chain_world) grpc_server" and bg where
    account: "account_server UnimplementedCommonServiceServer (panda_account_server no_os) = Ret (account, bg)"
    by (simp add: account_server_eq)
  let ?raw' = "\<lambda>_. local_conn (\<lambda>c. c) (?ic account) (gs_services account)"
  let ?call' = "dialled_SayHello2DemoClient chain_env ?E ''stack'' (?load ?w) (\<lambda>_. ''{}'') ch_cell ?put ?raw'"
  obtain auth bg' where
    auth: "auth_server UnimplementedCommonServiceServer (hello_server chain_env ascii_tables ?E ?call' ?load ?save) = Ret (auth, bg')"
    using auth_server_ex by blast
  let ?raw = "\<lambda>_. local_conn (\<lambda>c. c) (?ic auth) (gs_services auth)"
  have conns: "GetConn chain_env ''panda-auth'' ?s = Ret (Inr ''auth:50051'', ?s)"
    "GetConn chain_env ''panda-account'' (?load (rs_world ?s)) = Ret (Inr ''account:50051'', ?load ?w)"
    by (simp_all add: GetConn_def GetConnFromServiceMap_def sm_Load_def chain_state_def)
  show ?thesis
    using test_request_through_both_services[where X = chain_env and U = ascii_tables and
        raw = ?raw and raw' = ?raw' and get_out = ch_cell and put_out = ?put and E = ?E and ctx = "(None, None)" and
        at = ?s and stack = "''stack''", OF _ conns auth_server_law[OF auth] account_server_law[OF account] auth account]
    by (simp add: Let_def) blast
qed

end
