(* ===== verification/Routing.thy ===== *)
theory Routing
  imports HelloChain
begin

text \<open>
  The routes of the HTTP gateway: the patterns that \<open>proto/pb/*.pb.gw.go\<close> compile and those that the hand-written
  registrations give as text, the table that \<open>panda-grpc-gw/main.go\<close> makes of them, and where a request goes. At the end
  a request for a log level from the engine through the table, both client interceptors and the stub to the
  logger of the chosen service.

  The runtime of \<open>grpc-gateway\<close> is a parameter \<open>dispatch\<close>; \<open>route_law\<close> states what it documents of a request that one route
  matches.
\<close>

section \<open>Patterns\<close>

text \<open>
  The arguments of \<open>runtime.NewPattern\<close>: pairs of an operation and its operand, and the pool of strings. Package
  \<open>utilities\<close> documents the operations: 1 pushes the next segment, 2 pushes it if it is the literal with that index,
  4 concatenates so many entries of the stack, 5 binds the entry on top to the variable with that index.
\<close>

record rt_pattern =
  pt_ops :: "nat list"
  pt_pool :: "string list"

definition pattern_CommonService_SetLogLevel_0 :: rt_pattern where
  "pattern_CommonService_SetLogLevel_0 = \<lparr>pt_ops = [2, 0, 1, 0, 4, 1, 5, 1], pt_pool = [''v1'', ''level'']\<rparr>"

definition pattern_CommonService_DownloadPprofFile_0 :: rt_pattern where
  "pattern_CommonService_DownloadPprofFile_0 = \<lparr>pt_ops = [2, 0, 2, 1], pt_pool = [''v1'', ''download-pprof'']\<rparr>"

definition pattern_PandaAccount_SayHello2DemoClient_0 :: rt_pattern where
  "pattern_PandaAccount_SayHello2DemoClient_0 =
     \<lparr>pt_ops = [2, 0, 2, 1, 2, 2], pt_pool = [''v1'', ''panda-account'', ''say-hello2demo-grpc_client_wrapper'']\<rparr>"

definition pattern_PandaAccount_UploadFile_0 :: rt_pattern where
  "pattern_PandaAccount_UploadFile_0 = \<lparr>pt_ops = [2, 0, 2, 1], pt_pool = [''v1'', ''upload'']\<rparr>"

definition pattern_PandaAccount_DownloadFile_0 :: rt_pattern where
  "pattern_PandaAccount_DownloadFile_0 =
     \<lparr>pt_ops = [2, 0, 2, 1, 1, 0, 4, 1, 5, 2], pt_pool = [''v1'', ''download'', ''file_id'']\<rparr>"

definition pattern_PandaAuth_SayHello_0 :: rt_pattern where
  "pattern_PandaAuth_SayHello_0 = \<lparr>pt_ops = [2, 0, 2, 1, 2, 2], pt_pool = [''v1'', ''panda-auth'', ''say-hello'']\<rparr>"

lemmas pattern_defs = pattern_CommonService_SetLogLevel_0_def pattern_CommonService_DownloadPprofFile_0_def
  pattern_PandaAccount_SayHello2DemoClient_0_def pattern_PandaAccount_UploadFile_0_def
  pattern_PandaAccount_DownloadFile_0_def pattern_PandaAuth_SayHello_0_def

fun run_ops :: "string list \<Rightarrow> nat list \<Rightarrow> string list \<Rightarrow> string list \<Rightarrow> (string \<times> string) list \<Rightarrow> (string \<times> string) list option" where
  "run_ops pool (c # i # ops) stack segs b =
     (if c = 1 then (case segs of [] \<Rightarrow> None | s # segs \<Rightarrow> run_ops pool ops (s # stack) segs b)
      else if c = 2 then
        (case segs of [] \<Rightarrow> None
         | s # segs \<Rightarrow> if i < length pool \<and> pool ! i = s then run_ops pool ops (s # stack) segs b else None)
      else if c = 4 then
        (if i \<le> length stack then run_ops pool ops (join_slash (rev (take i stack)) # drop i stack) segs b else None)
      else if c = 5 then
        (case stack of [] \<Rightarrow> None
         | s # stack \<Rightarrow> if i < length pool then run_ops pool ops stack segs (b @ [(pool ! i, s)]) else None)
      else None)"
| "run_ops pool [c] stack segs b = None"
| "run_ops pool [] stack segs b = (if segs = [] then Some b else None)"

definition match_pattern :: "rt_pattern \<Rightarrow> string list \<Rightarrow> (string \<times> string) list option" where
  "match_pattern p segs = run_ops (pt_pool p) (pt_ops p) [] segs []"

text \<open>
  A template, as \<open>google.api.http\<close> documents it for the ones used here: its segments are literals, or a variable in braces,
  which stands for one segment.
\<close>

definition is_variable :: "string \<Rightarrow> bool" where
  "is_variable t \<longleftrightarrow> HasPrefix t ''{'' \<and> HasSuffix t ''}''"

fun match_segments :: "string list \<Rightarrow> string list \<Rightarrow> (string \<times> string) list option" where
  "match_segments [] [] = Some []"
| "match_segments (t # ts) (s # ss) =
     (if is_variable t then map_option (Cons (butlast (tl t), s)) (match_segments ts ss)
      else if t = s then match_segments ts ss else None)"
| "match_segments _ _ = None"

definition path_segments :: "string \<Rightarrow> string list" where
  "path_segments p = split_byte (CHR ''/'') (tl p)"

definition match_template :: "string \<Rightarrow> string list \<Rightarrow> (string \<times> string) list option" where
  "match_template t = match_segments (path_segments t)"

text \<open>The operations that a template's segments stand for; and that they match what the template does.\<close>

fun compiles :: "string list \<Rightarrow> string list \<Rightarrow> nat list \<Rightarrow> bool" where
  "compiles pool [] ops \<longleftrightarrow> ops = []"
| "compiles pool (t # ts) ops \<longleftrightarrow>
     (if is_variable t
      then length ops \<ge> 6 \<and> ops ! 0 = 1 \<and> ops ! 2 = 4 \<and> ops ! 3 = 1 \<and> ops ! 4 = 5 \<and> ops ! 5 < length pool \<and>
        pool ! (ops ! 5) = butlast (tl t) \<and> compiles pool ts (drop 6 ops)
      else length ops \<ge> 2 \<and> ops ! 0 = 2 \<and> ops ! 1 < length pool \<and> pool ! (ops ! 1) = t \<and> compiles pool ts (drop 2 ops))"

lemma compiles_variable:
  assumes "compiles pool (t # ts) ops" and "is_variable t"
  obtains x i ops' where "ops = 1 # x # 4 # 1 # 5 # i # ops'" "i < length pool" "pool ! i = butlast (tl t)" "compiles pool ts ops'"
proof -
  have "Suc (Suc (Suc (Suc (Suc (Suc 0))))) \<le> length ops" using assms by simp
  then obtain a b c d e f ops' where "ops = a # b # c # d # e # f # ops'" by (metis Suc_le_length_iff)
  with assms that show thesis by simp
qed

lemma compiles_literal:
  assumes "compiles pool (t # ts) ops" and "\<not> is_variable t"
  obtains i ops' where "ops = 2 # i # ops'" "i < length pool" "pool ! i = t" "compiles pool ts ops'"
proof -
  have "Suc (Suc 0) \<le> length ops" using assms by simp
  then obtain a b ops' where "ops = a # b # ops'" by (metis Suc_le_length_iff)
  with assms that show thesis by simp
qed

lemma run_ops_compiled:
  "compiles pool ts ops \<Longrightarrow> run_ops pool ops stack segs b = map_option ((@) b) (match_segments ts segs)"
proof (induction ts arbitrary: ops stack segs b)
  case Nil
  then show ?case by (cases segs) simp_all
next
  case (Cons t ts)
  show ?case
  proof (cases "is_variable t")
    case True
    with Cons.prems obtain x i ops' where o: "ops = 1 # x # 4 # 1 # 5 # i # ops'" "i < length pool"
      "pool ! i = butlast (tl t)" "compiles pool ts ops'" by (rule compiles_variable)
    then show ?thesis using True Cons.IH[OF o(4)]
      by (cases segs) (simp_all add: option.map_comp comp_def)
  next
    case False
    with Cons.prems obtain i ops' where o: "ops = 2 # i # ops'" "i < length pool" "pool ! i = t" "compiles pool ts ops'"
      by (rule compiles_literal)
    then show ?thesis using False Cons.IH[OF o(4)] by (cases segs) simp_all
  qed
qed

text \<open>Every compiled pattern is that of the path that its handler gives to \<open>WithHTTPPathPattern\<close>.\<close>

lemma patterns_implement_templates:
  "match_pattern pattern_CommonService_SetLogLevel_0 = match_template ''/v1/{level}''"
  "match_pattern pattern_CommonService_DownloadPprofFile_0 = match_template ''/v1/download-pprof''"
  "match_pattern pattern_PandaAccount_SayHello2DemoClient_0 = match_template account_hello"
  "match_pattern pattern_PandaAccount_UploadFile_0 = match_template ''/v1/upload''"
  "match_pattern pattern_PandaAccount_DownloadFile_0 = match_template ''/v1/download/{file_id}''"
  "match_pattern pattern_PandaAuth_SayHello_0 = match_template ''/v1/panda-auth/say-hello''"
proof -
  have "match_pattern p = match_template t" if "compiles (pt_pool p) (path_segments t) (pt_ops p)" for p t
  proof
    have id: "(@) [] = (id :: (string \<times> string) list \<Rightarrow> _)" by auto
    show "match_pattern p segs = match_template t segs" for segs
      unfolding match_pattern_def match_template_def run_ops_compiled[OF that] id by (simp add: option.map_id)
  qed
  note * = this
  show "match_pattern pattern_CommonService_SetLogLevel_0 = match_template ''/v1/{level}''"
    "match_pattern pattern_CommonService_DownloadPprofFile_0 = match_template ''/v1/download-pprof''"
    "match_pattern pattern_PandaAccount_SayHello2DemoClient_0 = match_template account_hello"
    "match_pattern pattern_PandaAccount_UploadFile_0 = match_template ''/v1/upload''"
    "match_pattern pattern_PandaAccount_DownloadFile_0 = match_template ''/v1/download/{file_id}''"
    "match_pattern pattern_PandaAuth_SayHello_0 = match_template ''/v1/panda-auth/say-hello''"
    by (rule *; simp add: pattern_defs path_segments_def is_variable_def HasPrefix_def HasSuffix_def account_hello_def)+
qed

section \<open>Where the runtime sends a request\<close>

datatype 'h routed = RoutedTo 'h "(string \<times> string) list" | Unrouted

definition matching :: "(string \<times> string \<times> 'h) list \<Rightarrow> string \<Rightarrow> string list \<Rightarrow> ('h \<times> (string \<times> string) list) list" where
  "matching routes meth segs =
     List.map_filter (\<lambda>(m, t, h). if m = meth then map_option (Pair h) (match_template t segs) else None) routes"

text \<open>
  The runtime splits a path at its slashes. What it does with empty segments, escapes, verbs after a colon, a form in
  the body and requests that several routes match is left open.
\<close>

definition plain_path :: "string \<Rightarrow> bool" where
  "plain_path p \<longleftrightarrow> HasPrefix p ''/'' \<and>
     (\<forall>s \<in> set (path_segments p). s \<noteq> [] \<and> CHR '':'' \<notin> set s \<and> CHR ''%'' \<notin> set s)"

definition route_law :: "((string \<times> string \<times> 'h) list \<Rightarrow> string \<Rightarrow> string \<Rightarrow> 'h routed) \<Rightarrow> bool" where
  "route_law dispatch \<longleftrightarrow>
     (\<forall>routes meth p. plain_path p \<longrightarrow>
        (matching routes meth (path_segments p) = [] \<longrightarrow> dispatch routes meth p = Unrouted) \<and>
        (\<forall>h b. matching routes meth (path_segments p) = [(h, b)] \<longrightarrow> dispatch routes meth p = RoutedTo h b))"

lemma matching_simps [simp]:
  "matching [] meth segs = []"
  "matching ((m, t, h) # routes) meth segs =
     (case (if m = meth then match_template t segs else None) of
        None \<Rightarrow> matching routes meth segs | Some b \<Rightarrow> (h, b) # matching routes meth segs)"
  "matching (rs @ rs') meth segs = matching rs meth segs @ matching rs' meth segs"
  by (simp_all add: matching_def List.map_filter_def split: option.split)

section \<open>The table of the gateway\<close>

text \<open>The connections that \<open>main\<close> has dialled, and the routes that it registers with them, each with its path.\<close>

definition gateway_services :: "string list" where
  "gateway_services = [''panda-account'', ''panda-auth'', ''panda-export'']"

definition service_table :: "(string \<rightharpoonup> 'conn) \<Rightarrow> string \<Rightarrow> ('conn \<Rightarrow> 'conn gw_route list) \<Rightarrow> 'conn gw_route list" where
  "service_table conns svc own =
     (case conns svc of
        None \<Rightarrow> []
      | Some conn \<Rightarrow> own conn @ [(''GET'', ''/v1/'' @ svc @ ''/level/{level}'', conn),
          (''POST'', ''/v1/'' @ svc @ ''/download-pprof'', conn)])"

definition gateway_table :: "(string \<rightharpoonup> 'conn) \<Rightarrow> 'conn gw_route list" where
  "gateway_table conns =
     service_table conns ''panda-account'' (\<lambda>conn. RegisterPandaAccountHandler conn []) @
     service_table conns ''panda-auth'' (\<lambda>conn. RegisterPandaAuthHandler conn []) @
     service_table conns ''panda-export'' (\<lambda>conn. [])"

lemma dial_and_register_table:
  assumes "dial_and_register X svc register (mux, s) = Ret (mux', s')" and "svc \<noteq> []"
    and "\<And>conn mux. register conn mux = mux @ own conn"
  obtains r where "DialWrapper X svc s = Ret (r, s')"
    and "\<And>conns. conns svc = (case r of Inl err \<Rightarrow> None | Inr conn \<Rightarrow> Some conn) \<Longrightarrow> mux' = mux @ service_table conns svc own"
proof -
  obtain r where r: "DialWrapper X svc s = Ret (r, s')" "mux' = (case r of Inl err \<Rightarrow> mux
      | Inr conn \<Rightarrow> snd (RegisterCommonServiceHandlerWithServiceName conn svc (register conn mux)))"
    using assms(1) by (auto simp: dial_and_register_def go_map_Ret_iff)
  show thesis
    by (rule that[of r]) (use r assms(2) in \<open>auto simp: service_table_def assms(3)
        RegisterCommonServiceHandlerWithServiceName_def RegisterCommonServiceHandlerClientWithServiceName_def split: sum.split\<close>)
qed

lemma register_gateway_table:
  assumes "register_gateway X s = Ret (routes, s')"
  obtains conns where "routes = gateway_table conns"
    and "\<And>svc. svc \<in> set gateway_services \<Longrightarrow> \<exists>t t' r. DialWrapper X svc t = Ret (r, t') \<and>
      conns svc = (case r of Inl err \<Rightarrow> None | Inr conn \<Rightarrow> Some conn)"
proof -
  obtain g1 g2 where g: "dial_and_register X ''panda-account'' RegisterPandaAccountHandler ([], s) = Ret g1"
    "dial_and_register X ''panda-auth'' RegisterPandaAuthHandler g1 = Ret g2"
    "dial_and_register X ''panda-export'' (\<lambda>conn mux. mux) g2 = Ret (routes, s')"
    using assms by (auto simp: register_gateway_def go_simps)
  obtain m1 s1 m2 s2 where gs: "g1 = (m1, s1)" "g2 = (m2, s2)" by (metis surj_pair)
  let ?conn = "\<lambda>r. case r of Inl err \<Rightarrow> None | Inr conn \<Rightarrow> Some conn"
  obtain r1 where r1: "DialWrapper X ''panda-account'' s = Ret (r1, s1)"
    "\<And>conns. conns ''panda-account'' = ?conn r1 \<Longrightarrow>
      m1 = [] @ service_table conns ''panda-account'' (\<lambda>conn. RegisterPandaAccountHandler conn [])"
    using g(1) unfolding gs by (rule dial_and_register_table) (auto simp: RegisterPandaAccountHandler_def)
  obtain r2 where r2: "DialWrapper X ''panda-auth'' s1 = Ret (r2, s2)"
    "\<And>conns. conns ''panda-auth'' = ?conn r2 \<Longrightarrow>
      m2 = m1 @ service_table conns ''panda-auth'' (\<lambda>conn. RegisterPandaAuthHandler conn [])"
    using g(2) unfolding gs by (rule dial_and_register_table) (auto simp: RegisterPandaAuthHandler_def)
  obtain r3 where r3: "DialWrapper X ''panda-export'' s2 = Ret (r3, s')"
    "\<And>conns. conns ''panda-export'' = ?conn r3 \<Longrightarrow> routes = m2 @ service_table conns ''panda-export'' (\<lambda>conn. [])"
    using g(3) unfolding gs by (rule dial_and_register_table) auto
  define conns where "conns svc = (if svc = ''panda-account'' then ?conn r1 else if svc = ''panda-auth'' then ?conn r2
      else if svc = ''panda-export'' then ?conn r3 else None)" for svc
  show thesis
  proof (rule that[of conns])
    show "routes = gateway_table conns"
      using r1(2)[of conns] r2(2)[of conns] r3(2)[of conns] by (simp add: gateway_table_def conns_def)
    show "\<exists>t t' r. DialWrapper X svc t = Ret (r, t') \<and> conns svc = ?conn r" if "svc \<in> set gateway_services" for svc
    proof -
      from that consider "svc = ''panda-account''" | "svc = ''panda-auth''" | "svc = ''panda-export''"
        by (auto simp: gateway_services_def)
      then show ?thesis by cases (use r1(1) r2(1) r3(1) in \<open>auto simp: conns_def\<close>)
    qed
  qed
qed

section \<open>Where every request goes\<close>

text \<open>In words: the service that a request is for, by its method and path, and the variables it binds.\<close>

definition gateway_target :: "string \<Rightarrow> string list \<Rightarrow> (string \<times> (string \<times> string) list) option" where
  "gateway_target meth segs =
     (case segs of
        [v, a] \<Rightarrow> if meth = ''POST'' \<and> v = ''v1'' \<and> a = ''upload'' then Some (''panda-account'', []) else None
      | [v, a, b] \<Rightarrow>
          if v \<noteq> ''v1'' then None
          else if meth = ''POST'' \<and> (a \<in> set gateway_services \<and> b = ''download-pprof'' \<or>
              a = ''panda-account'' \<and> b = ''say-hello2demo-grpc_client_wrapper'' \<or> a = ''panda-auth'' \<and> b = ''say-hello'')
            then Some (a, [])
          else if meth = ''GET'' \<and> a = ''download'' then Some (''panda-account'', [(''file_id'', b)])
          else None
      | [v, a, b, c] \<Rightarrow>
          if meth = ''GET'' \<and> v = ''v1'' \<and> a \<in> set gateway_services \<and> b = ''level'' then Some (a, [(''level'', c)]) else None
      | _ \<Rightarrow> None)"

lemma match_literals:
  "list_all (\<lambda>t. \<not> is_variable t) ts \<Longrightarrow> match_segments ts ss = (if ss = ts then Some [] else None)"
  by (induction ts ss rule: match_segments.induct) auto

lemma match_last_variable:
  "list_all (\<lambda>t. \<not> is_variable t) ts \<Longrightarrow> is_variable v \<Longrightarrow>
    match_segments (ts @ [v]) ss = (if ss \<noteq> [] \<and> butlast ss = ts then Some [(butlast (tl v), last ss)] else None)"
proof (induction ts arbitrary: ss)
  case Nil
  then show ?case by (cases ss; cases "tl ss") auto
next
  case (Cons t ts)
  then show ?case by (cases ss) auto
qed

text \<open>The paths of the table.\<close>

lemma table_paths:
  "path_segments account_hello = [''v1'', ''panda-account'', ''say-hello2demo-grpc_client_wrapper'']"
  "path_segments ''/v1/upload'' = [''v1'', ''upload'']"
  "path_segments ''/v1/download/{file_id}'' = [''v1'', ''download''] @ [''{file_id}'']"
  "path_segments ''/v1/panda-auth/say-hello'' = [''v1'', ''panda-auth'', ''say-hello'']"
  by (simp_all add: path_segments_def account_hello_def)

lemma service_paths:
  assumes "CHR ''/'' \<notin> set svc"
  shows "path_segments (''/v1/'' @ svc @ ''/level/{level}'') = [''v1'', svc, ''level''] @ [''{level}'']"
    and "path_segments (''/v1/'' @ svc @ ''/download-pprof'') = [''v1'', svc, ''download-pprof'']"
  using assms by (simp_all add: path_segments_def split_byte_append)

lemma literal_segments:
  "list_all (\<lambda>t. \<not> is_variable t) [''v1'', ''panda-account'', ''say-hello2demo-grpc_client_wrapper'']"
  "list_all (\<lambda>t. \<not> is_variable t) [''v1'', ''upload'']" "list_all (\<lambda>t. \<not> is_variable t) [''v1'', ''download'']"
  "list_all (\<lambda>t. \<not> is_variable t) [''v1'', ''panda-auth'', ''say-hello'']"
  "svc \<in> set gateway_services \<Longrightarrow> list_all (\<lambda>t. \<not> is_variable t) [''v1'', svc, ''level'']"
  "svc \<in> set gateway_services \<Longrightarrow> list_all (\<lambda>t. \<not> is_variable t) [''v1'', svc, ''download-pprof'']"
  "is_variable ''{file_id}''" "is_variable ''{level}''"
  by (auto simp: is_variable_def HasPrefix_def HasSuffix_def gateway_services_def)

lemma service_no_slash: "svc \<in> set gateway_services \<Longrightarrow> CHR ''/'' \<notin> set svc"
  by (auto simp: gateway_services_def)

lemma table_matches:
  "match_template account_hello segs =
     (if segs = [''v1'', ''panda-account'', ''say-hello2demo-grpc_client_wrapper''] then Some [] else None)"
  "match_template ''/v1/upload'' segs = (if segs = [''v1'', ''upload''] then Some [] else None)"
  "match_template ''/v1/download/{file_id}'' segs =
     (if segs \<noteq> [] \<and> butlast segs = [''v1'', ''download''] then Some [(''file_id'', last segs)] else None)"
  "match_template ''/v1/panda-auth/say-hello'' segs =
     (if segs = [''v1'', ''panda-auth'', ''say-hello''] then Some [] else None)"
  "svc \<in> set gateway_services \<Longrightarrow> match_template (''/v1/'' @ svc @ ''/level/{level}'') segs =
     (if segs \<noteq> [] \<and> butlast segs = [''v1'', svc, ''level''] then Some [(''level'', last segs)] else None)"
  "svc \<in> set gateway_services \<Longrightarrow> match_template (''/v1/'' @ svc @ ''/download-pprof'') segs =
     (if segs = [''v1'', svc, ''download-pprof''] then Some [] else None)"
proof -
  show "match_template account_hello segs =
     (if segs = [''v1'', ''panda-account'', ''say-hello2demo-grpc_client_wrapper''] then Some [] else None)"
    unfolding match_template_def table_paths by (rule match_literals[OF literal_segments(1)])
  show "match_template ''/v1/upload'' segs = (if segs = [''v1'', ''upload''] then Some [] else None)"
    unfolding match_template_def table_paths by (rule match_literals[OF literal_segments(2)])
  show "match_template ''/v1/download/{file_id}'' segs =
     (if segs \<noteq> [] \<and> butlast segs = [''v1'', ''download''] then Some [(''file_id'', last segs)] else None)"
    unfolding match_template_def table_paths match_last_variable[OF literal_segments(3,7)] by simp
  show "match_template ''/v1/panda-auth/say-hello'' segs =
     (if segs = [''v1'', ''panda-auth'', ''say-hello''] then Some [] else None)"
    unfolding match_template_def table_paths by (rule match_literals[OF literal_segments(4)])
  show "match_template (''/v1/'' @ svc @ ''/level/{level}'') segs =
     (if segs \<noteq> [] \<and> butlast segs = [''v1'', svc, ''level''] then Some [(''level'', last segs)] else None)"
    if "svc \<in> set gateway_services"
    unfolding match_template_def service_paths(1)[OF service_no_slash[OF that]]
      match_last_variable[OF literal_segments(5)[OF that] literal_segments(8)] by simp
  show "match_template (''/v1/'' @ svc @ ''/download-pprof'') segs =
     (if segs = [''v1'', svc, ''download-pprof''] then Some [] else None)" if "svc \<in> set gateway_services"
    unfolding match_template_def service_paths(2)[OF service_no_slash[OF that]]
    by (rule match_literals[OF literal_segments(6)[OF that]])
qed

lemma service_table_matching:
  assumes "svc \<in> set gateway_services"
  shows "matching (service_table conns svc own) meth segs =
    (case conns svc of
       None \<Rightarrow> []
     | Some conn \<Rightarrow> matching (own conn) meth segs @
         (if meth = ''GET'' \<and> segs \<noteq> [] \<and> butlast segs = [''v1'', svc, ''level''] then [(conn, [(''level'', last segs)])] else []) @
         (if meth = ''POST'' \<and> segs = [''v1'', svc, ''download-pprof''] then [(conn, [])] else []))"
proof (cases "conns svc")
  case (Some conn)
  then show ?thesis
    unfolding service_table_def Some option.case matching_simps table_matches(5,6)[OF assms]
    by (cases "meth = ''GET''"; cases "meth = ''POST''") (simp_all del: butlast.simps)
qed (simp add: service_table_def)

lemma own_routes_matching:
  "matching (RegisterPandaAccountHandler conn []) meth segs =
     (if meth = ''POST'' \<and> segs \<in> {[''v1'', ''panda-account'', ''say-hello2demo-grpc_client_wrapper''], [''v1'', ''upload'']}
      then [(conn, [])]
      else if meth = ''GET'' \<and> segs \<noteq> [] \<and> butlast segs = [''v1'', ''download''] then [(conn, [(''file_id'', last segs)])]
      else [])"
  "matching (RegisterPandaAuthHandler conn []) meth segs =
     (if meth = ''POST'' \<and> segs = [''v1'', ''panda-auth'', ''say-hello''] then [(conn, [])] else [])"
  unfolding RegisterPandaAccountHandler_def RegisterPandaAuthHandler_def append_Nil account_hello_def[symmetric]
    matching_simps table_matches(1-4)
  by (cases "meth = ''POST''"; cases "meth = ''GET''"; simp)+

lemma segment_shapes:
  obtains (two) v a where "segs = [v, a]" | (three) v a b where "segs = [v, a, b]" | (four) v a b c where "segs = [v, a, b, c]"
  | (other) "length segs \<notin> {2, 3, 4}"
proof -
  consider "length segs = 2" | "length segs = 3" | "length segs = 4" | "length segs \<notin> {2, 3, 4}" by blast
  then show thesis
  proof cases
    case 1 then show thesis using two by (auto simp: numeral_2_eq_2 length_Suc_conv)
  next
    case 2 then show thesis using three by (auto simp: numeral_3_eq_3 length_Suc_conv)
  next
    case 3 then show thesis using four by (auto simp: eval_nat_numeral length_Suc_conv)
  next
    case 4 then show thesis by (rule other)
  qed
qed

lemma gateway_target_other: "length segs \<notin> {2, 3, 4} \<Longrightarrow> gateway_target meth segs = None"
  by (cases segs; cases "tl segs"; cases "tl (tl segs)"; cases "tl (tl (tl segs))"; cases "tl (tl (tl (tl segs)))")
    (auto simp: gateway_target_def)

lemma gateway_table_matching:
  "matching (gateway_table conns) meth segs =
    (case gateway_target meth segs of
       None \<Rightarrow> []
     | Some (svc, b) \<Rightarrow> (case conns svc of None \<Rightarrow> [] | Some conn \<Rightarrow> [(conn, b)]))"
proof -
  have svcs: "''panda-account'' \<in> set gateway_services" "''panda-auth'' \<in> set gateway_services"
    "''panda-export'' \<in> set gateway_services" by (simp_all add: gateway_services_def)
  note table = gateway_table_def matching_simps service_table_matching[OF svcs(1)] service_table_matching[OF svcs(2)]
    service_table_matching[OF svcs(3)] own_routes_matching
  show ?thesis
  proof (cases "length segs \<in> {2, 3, 4}")
    case False
    then have l: "segs \<noteq> [] \<Longrightarrow> length (butlast segs) \<notin> {2, 3}" by (cases segs) auto
    have "(segs \<noteq> [] \<and> butlast segs = [x, y]) = False" "(segs \<noteq> [] \<and> butlast segs = [x, y, z]) = False"
      "(segs = [x, y]) = False" "(segs = [x, y, z]) = False" for x y z using l False by fastforce+
    then show ?thesis
      unfolding gateway_target_other[OF False] table by (simp split: option.split)
  next
    case True
    then have "\<exists>v a b c. segs = [v, a] \<or> segs = [v, a, b] \<or> segs = [v, a, b, c]"
      by (cases segs rule: segment_shapes) auto
    then obtain v a b c where segs: "segs = [v, a] \<or> segs = [v, a, b] \<or> segs = [v, a, b, c]" by blast
    consider "a = ''panda-account''" | "a = ''panda-auth''" | "a = ''panda-export''" | "a \<notin> set gateway_services"
      by (auto simp: gateway_services_def)
    then show ?thesis using segs
      by cases (cases "meth = ''GET''"; cases "meth = ''POST''"; elim disjE;
        simp add: table gateway_target_def gateway_services_def split: option.split)+
  qed
qed

lemma level_route_registered:
  assumes "svc \<in> set gateway_services"
  shows "(''GET'', ''/v1/'' @ svc @ ''/level/{level}'', conn) \<in> set (gateway_table conns) \<longleftrightarrow> conns svc = Some conn"
  using assms by (auto simp: gateway_table_def service_table_def gateway_services_def RegisterPandaAccountHandler_def
      RegisterPandaAuthHandler_def split: option.splits)

text \<open>
  C34: The table of the gateway sends every request where its method and path say, whatever services could be
  dialled when it started: no two of its routes match the same request, so the order of registration plays no
  part; a request for a service that could not be dialled then finds no route, ever after.
\<close>

theorem gateway_requests_reach_service:
  assumes "route_law dispatch" and "register_gateway X s = Ret (routes, s')"
  shows "\<exists>conns.
    (\<forall>svc \<in> set gateway_services. (\<exists>t t' r. DialWrapper X svc t = Ret (r, t') \<and>
         conns svc = (case r of Inl err \<Rightarrow> None | Inr conn \<Rightarrow> Some conn)) \<and>
       (\<forall>conn. conns svc = Some conn \<longleftrightarrow> (''GET'', ''/v1/'' @ svc @ ''/level/{level}'', conn) \<in> set routes)) \<and>
    (\<forall>meth p. plain_path p \<longrightarrow> dispatch routes meth p =
       (case gateway_target meth (path_segments p) of
          None \<Rightarrow> Unrouted
        | Some (svc, b) \<Rightarrow> (case conns svc of None \<Rightarrow> Unrouted | Some conn \<Rightarrow> RoutedTo conn b)))"
proof -
  obtain conns where r: "routes = gateway_table conns"
    and d: "\<And>svc. svc \<in> set gateway_services \<Longrightarrow> \<exists>t t' r. DialWrapper X svc t = Ret (r, t') \<and>
      conns svc = (case r of Inl err \<Rightarrow> None | Inr conn \<Rightarrow> Some conn)"
    using assms(2) by (rule register_gateway_table) blast
  have "dispatch routes meth p =
      (case gateway_target meth (path_segments p) of None \<Rightarrow> Unrouted
       | Some (svc, b) \<Rightarrow> (case conns svc of None \<Rightarrow> Unrouted | Some conn \<Rightarrow> RoutedTo conn b))" if "plain_path p" for meth p
    using assms(1) that gateway_table_matching[of conns meth "path_segments p"]
    by (auto simp: route_law_def r split: option.splits)
  moreover have "conns svc = Some conn \<longleftrightarrow> (''GET'', ''/v1/'' @ svc @ ''/level/{level}'', conn) \<in> set routes"
    if "svc \<in> set gateway_services" for svc conn
    unfolding r level_route_registered[OF that] ..
  ultimately show ?thesis using d by (intro exI[of _ conns]) blast
qed

section \<open>Example\<close>

definition first_match :: "(string \<times> string \<times> 'h) list \<Rightarrow> string \<Rightarrow> string \<Rightarrow> 'h routed" where
  "first_match routes meth p =
     (case matching routes meth (path_segments p) of [] \<Rightarrow> Unrouted | (h, b) # _ \<Rightarrow> RoutedTo h b)"

lemma first_match_law: "route_law first_match"
  by (simp add: route_law_def first_match_def)

text \<open>A gateway that knows where its three services are and can dial them.\<close>

definition route_env :: "('w, string, unit, unit) rpc_env" where
  "route_env = \<lparr>re_get = retry_twice, re_watch = retry_twice, re_publish = retry_twice, re_nacos = example_env, re_md5 = rev,
     re_sdk = \<lparr>cc_PublishConfig = (\<lambda>p w. ((True, None), w)), cc_ListenConfig = (\<lambda>p w. (None, w)),
       cc_GetConfig = (\<lambda>p w. (([], None), w))\<rparr>,
     re_dec = (\<lambda>v. ([], None)), re_enc = (\<lambda>mp. concat (map fst mp)), re_service_name = [], re_k8s = K8s.example_k8s,
     re_list = (\<lambda>_ w. (Inr (Some example_services), w)), re_Dial = (\<lambda>t w. (Inr t, w)), re_Target = (\<lambda>t. t),
     re_fmt_status = (\<lambda>c d. d), re_gjson_code = (\<lambda>_. None)\<rparr>"

definition route_state :: "'w \<Rightarrow> ('w, string, unit, unit) rpc_state" where
  "route_state w = \<lparr>rs_nacos = \<lparr>nc_world = w, ConfigCacheMap = [], ConfigWatchHandleMap = [],
       nc_app = \<lparr>call_once = True, GrpcCallRelationKey = initial_key, service2NamespaceMap =
         [(StrVal ''panda-account'', StrVal ''dev''), (StrVal ''panda-auth'', StrVal ''dev''), (StrVal ''panda-export'', StrVal ''dev'')],
         serviceName2ConnMap = []\<rparr>\<rparr>, rs_k8s = K8s.example_k8s_state\<rparr>"

lemma route_dial:
  assumes "svc \<in> set gateway_services"
  shows "DialWrapper route_env svc (route_state w) = Ret (Inr (svc @ ''.dev:50051''), route_state w)"
proof -
  have ns: "GetServiceNamespace svc (rs_call (route_state w)) = ''dev''"
    using assms by (auto simp: GetServiceNamespace_def sm_Load_def route_state_def gateway_services_def)
  have "call_config route_env (route_state w) = Ret (route_state w)" by (rule call_config_once) (simp add: route_state_def)
  then show ?thesis
    by (simp add: DialWrapper_def ns dial_def GetTarget_def route_env_def set_world_def)
qed

lemma register_gateway_example:
  "register_gateway route_env (route_state w) = Ret (gateway_table (Map.empty(''panda-account'' \<mapsto> ''panda-account.dev:50051'',
      ''panda-auth'' \<mapsto> ''panda-auth.dev:50051'', ''panda-export'' \<mapsto> ''panda-export.dev:50051'')), route_state w)"
  by (simp add: register_gateway_def dial_and_register_def route_dial gateway_services_def gateway_table_def service_table_def
      RegisterPandaAccountHandler_def RegisterPandaAuthHandler_def RegisterCommonServiceHandlerWithServiceName_def
      RegisterCommonServiceHandlerClientWithServiceName_def)

lemma gateway_requests_reach_service_witness:
  "\<exists>routes. register_gateway route_env (route_state ()) = Ret (routes, route_state ()) \<and>
    first_match routes ''GET'' ''/v1/download/7'' = RoutedTo ''panda-account.dev:50051'' [(''file_id'', ''7'')] \<and>
    first_match routes ''GET'' ''/v1/debug'' = Unrouted"
proof -
  obtain routes where r: "register_gateway route_env (route_state ()) = Ret (routes, route_state ())"
    and l: "(''GET'', ''/v1/'' @ ''panda-account'' @ ''/level/{level}'', ''panda-account.dev:50051'') \<in> set routes"
    by (simp add: register_gateway_example gateway_table_def service_table_def)
  obtain conns where c: "\<forall>svc \<in> set gateway_services. \<forall>conn.
      conns svc = Some conn \<longleftrightarrow> (''GET'', ''/v1/'' @ svc @ ''/level/{level}'', conn) \<in> set routes"
    and t: "\<forall>meth p. plain_path p \<longrightarrow> first_match routes meth p = (case gateway_target meth (path_segments p) of
      None \<Rightarrow> Unrouted | Some (svc, b) \<Rightarrow> (case conns svc of None \<Rightarrow> Unrouted | Some conn \<Rightarrow> RoutedTo conn b))"
    using gateway_requests_reach_service[OF first_match_law r] by blast
  have "conns ''panda-account'' = Some ''panda-account.dev:50051''"
    using c l by (auto simp: gateway_services_def)
  moreover have "plain_path ''/v1/download/7''" "plain_path ''/v1/debug''"
    by (simp_all add: plain_path_def HasPrefix_def path_segments_def)
  moreover have "gateway_target ''GET'' (path_segments ''/v1/download/7'') = Some (''panda-account'', [(''file_id'', ''7'')])"
    "gateway_target ''GET'' (path_segments ''/v1/debug'') = None"
    by (simp_all add: gateway_target_def path_segments_def)
  ultimately show ?thesis using t r by auto
qed

end
