(* ===== verification/LevelChain.thy ===== *)
theory LevelChain
  imports Routing
begin

text \<open>
  A request for a log level from the gateway's engine to the logger of the service that its path names: the removed
  prefix, the table of routes, the hand-written handler of \<open>proto/pb/extra.pb.gw.go\<close>, the stub over a dialled
  connection with both interceptors, the server's interceptor, the generated handler and \<open>SetLogLevel\<close>.
\<close>

section \<open>The handler\<close>

definition dialled_SetLogLevel where
  "dialled_SetLogLevel X E stack at_panic json get_out put_out raw ctx conn level s =
     go_map (\<lambda>((err, out), s).
        (case err of Some e \<Rightarrow> Inl e | None \<Rightarrow> Inr (into_SetLogLevelResponse out), s))
       (intercepted_invoke X E stack at_panic json get_out put_out raw conn ctx ''/pb.CommonService/setLogLevel''
          (MSetLogLevelRequest \<lparr>lq_Level = level\<rparr>) (MSetLogLevelResponse \<lparr>rsp_Code = 0, rsp_ErrMsg = []\<rparr>) s)"

definition level_handler ::
    "gw_runtime \<Rightarrow> ('r \<Rightarrow> http_writer \<Rightarrow> http_writer) \<Rightarrow> (string \<Rightarrow> 's \<Rightarrow> ((gerr + 'r) \<times> 's) go) \<Rightarrow>
     (string \<rightharpoonup> string) \<Rightarrow> http_writer \<Rightarrow> 's \<Rightarrow> (http_writer \<times> 's) go" where
  "level_handler R forward call pathParams hw s =
     (case gr_AnnotateContext R of
        Some err \<Rightarrow> Ret (gr_HTTPError R err hw, s)
      | None \<Rightarrow>
          (case pathParams ''level'' of
             None \<Rightarrow> Ret (level_route R (Inl (StatusErr 3 ''missing parameter level'')) forward hw, s)
           | Some val \<Rightarrow> go_map (\<lambda>(r, s). (level_route R r forward hw, s)) (call val s)))"

section \<open>From the engine to the table\<close>

text \<open>The names that arrive as they are: one plain segment that is not the other prefix that the middleware removes.\<close>

definition level_name :: "string \<Rightarrow> bool" where
  "level_name name \<longleftrightarrow> name \<noteq> [] \<and> set name \<inter> {CHR ''/'', CHR '':'', CHR ''%''} = {} \<and> name \<noteq> ''.'' \<and> name \<noteq> ''..'' \<and>
     \<not> HasPrefix name ''panda-gin-swagger''"

definition level_path :: "string \<Rightarrow> string \<Rightarrow> string" where
  "level_path svc name = ''/v1/'' @ svc @ ''/level/'' @ name"

lemma level_path_segments:
  assumes "svc \<in> set gateway_services" and "level_name name"
  shows "path_segments (level_path svc name) = [''v1'', svc, ''level'', name]"
    and "split_byte (CHR ''/'') (level_path svc name) = [[], ''v1'', svc, ''level'', name]"
  using service_no_slash[OF assms(1)] assms(2)
  by (simp_all add: path_segments_def level_path_def level_name_def split_byte_append)

lemma sublist_first_slash:
  "CHR ''/'' \<notin> set name \<Longrightarrow> \<not> sublist (CHR ''/'' # xs) name"
  by (auto simp: sublist_def)

lemma level_path_unprefixed:
  assumes "svc \<in> set gateway_services" and "level_name name"
  shows "RemovePrefix (''/panda-grpc-gw'' @ level_path svc name) = level_path svc name"
proof (rule RemovePrefix_grpc_gw)
  have n: "CHR ''/'' \<notin> set name" "\<not> prefix ''panda-gin-swagger'' name"
    using assms(2) by (auto simp: level_name_def HasPrefix_iff prefix_def)
  show "\<not> sublist ''/panda-gin-swagger'' (''/panda-grpc-gw'' @ level_path svc name)"
    using assms(1) n sublist_first_slash[OF n(1)]
    by (auto simp: gateway_services_def level_path_def sublist_Cons_right)
qed

lemma level_path_clean:
  assumes "svc \<in> set gateway_services" and "level_name name"
  shows "cleanPath (level_path svc name) = level_path svc name"
proof -
  have "last name \<in> set name" using assms(2) by (simp add: level_name_def)
  then have "last name \<noteq> CHR ''/''" using assms(2) by (metis level_name_def disjoint_insert(1) inf_commute)
  then have l: "last (level_path svc name) \<noteq> CHR ''/''" using assms(2) by (simp add: level_path_def level_name_def)
  have "path_Clean (level_path svc name) = level_path svc name"
    using assms unfolding path_Clean_def level_path_segments(2)[OF assms]
    by (auto simp: level_path_def level_name_def gateway_services_def HasPrefix_def)
  with l show ?thesis unfolding cleanPath_def by (simp add: level_path_def Let_def)
qed

lemma engine_level_path:
  assumes "svc \<in> set gateway_services" and "level_name name"
  shows "engine_dispatch Host st ''GET'' (''/panda-grpc-gw'' @ level_path svc name) esc =
    Ret (GatewayRoute (level_path svc name))"
proof -
  have "engine_dispatch Host st ''GET'' (''/panda-grpc-gw'' @ level_path svc name) esc =
      Ret (gateway_route Host st (level_path svc name) esc)"
    using engine_dispatch_route[of "''GET''" "''/panda-grpc-gw'' @ level_path svc name" Host st esc]
    unfolding level_path_unprefixed[OF assms] by (simp add: engine_methods_def HasPrefix_def)
  then show ?thesis
    unfolding gateway_route_def level_path_clean[OF assms] Let_def
    by (simp add: level_path_def HasPrefix_def gw_serve_def)
qed

lemma level_path_plain:
  assumes "svc \<in> set gateway_services" and "level_name name"
  shows "plain_path (level_path svc name)"
  using assms unfolding plain_path_def level_path_segments(1)[OF assms]
  by (auto simp: level_path_def HasPrefix_def level_name_def gateway_services_def)

lemma level_path_routed:
  assumes "route_law dispatch" and "register_gateway X s = Ret (routes, s')"
    and "svc \<in> set gateway_services" and "level_name name" and "(''GET'', ''/v1/'' @ svc @ ''/level/{level}'', conn) \<in> set routes"
  shows "dispatch routes ''GET'' (level_path svc name) = RoutedTo conn [(''level'', name)]"
proof -
  obtain conns where r: "routes = gateway_table conns" using assms(2) by (rule register_gateway_table) blast
  have "conns svc = Some conn"
    using assms(5) unfolding r level_route_registered[OF assms(3)] .
  then have "matching routes ''GET'' (path_segments (level_path svc name)) = [(conn, [(''level'', name)])]"
    unfolding r gateway_table_matching level_path_segments(1)[OF assms(3,4)]
    using assms(3) by (simp add: gateway_target_def)
  with assms(1) level_path_plain[OF assms(3,4)] show ?thesis by (simp add: route_law_def)
qed

section \<open>The call\<close>

text \<open>What the library does with the call, and with the three that the retry makes of one that fails.\<close>

lemma level_invoke:
  assumes "invoke_law cc deliver (server_interceptor E A stack json server) (gs_services server)" and "system_server server"
    and "(CommonService_ServiceDesc, CommonServer (common_server P OS keys Z code_field A' get put)) \<in> set (gs_services server)"
    and "zap_law Z"
  shows "\<exists>md out' t. cn_Invoke cc c ''/pb.CommonService/setLogLevel'' (MSetLogLevelRequest \<lparr>lq_Level = name\<rparr>) out w =
      (((map_option wire_error (snd (level_reply name)), out'), md), put t w) \<and> lg_level t = level_set name \<and>
    (lowercaseStr2LevelMap name \<noteq> None \<longrightarrow> out' = MSetLogLevelResponse \<lparr>rsp_Code = 200, rsp_ErrMsg = []\<rparr>)"
proof -
  let ?r = "Ret (Some (fst (level_reply name)), snd (level_reply name)) :: (SetLogLevelResponse option \<times> gerr option) go"
  obtain t where lvl: "lg_level t = level_set name"
    and run: "pc_SetLogLevel (common_server P OS keys Z code_field A' get put)
        (handler_context E (deliver c) ''/pb.CommonService/setLogLevel'') \<lparr>lq_Level = name\<rparr> w = (?r, put t w)"
    by (rule common_server_SetLogLevel[OF assms(4)])
  have err: "visible_error A (go_map snd ?r) = snd (level_reply name)"
    by (simp add: visible_error_def level_reply_def split: option.split)
  show ?thesis
    using invoke_path[where m = "hd (Methods CommonService_ServiceDesc)" and desc = CommonService_ServiceDesc and
        f = "pc_SetLogLevel (common_server P OS keys Z code_field A' get put)" and ctx = c and q = "\<lparr>lq_Level = name\<rparr>" and
        req = "MSetLogLevelRequest \<lparr>lq_Level = name\<rparr>" and out = out and w = w and w' = "put t w" and r = ?r and
        srv = "CommonServer (common_server P OS keys Z code_field A' get put)" and
        new_in = "MSetLogLevelRequest \<lparr>lq_Level = []\<rparr>" and assert_req = as_SetLogLevelRequest and
        result = MSetLogLevelResponse, OF assms(1,2)] assms(3) run lvl
    unfolding err
    by (auto simp: service_descs full_name_def CommonService_SetLogLevel_Handler_def level_reply_def split: option.splits)
qed

lemma retry_exhausted:
  assumes "\<And>w. fst (invoker cc w) = Some e"
    and "ParseRPCErrorCode (re_fmt_status X) (re_gjson_code X) (Some e) \<noteq> 14"
  shows "RetryGrpcUnaryClientInterceptor X invoker cc s =
    Ret (Some (PlainErr ''Max retries reached''), set_world (((\<lambda>w. snd (invoker cc w)) ^^ 3) (rs_world s)) s)"
proof -
  have call: "invoker cc w = (Some e, snd (invoker cc w))" for w using assms(1)[of w] by (metis prod.collapse)
  have "retry_loop X invoker (Suc n) cc False s = retry_loop X invoker n cc False (set_world (snd (invoker cc (rs_world s))) s)"
    for n s using assms(2) by (subst retry_loop.simps, subst call) (simp add: Let_def)
  then show ?thesis by (simp add: RetryGrpcUnaryClientInterceptor_def numeral_3_eq_3 del: retry_loop.simps(2))
qed

text \<open>One call over the connection: the message received is stored.\<close>

definition one_call where
  "one_call conn c meth req out put_out w =
     (case cn_Invoke conn c meth req out w of (((err, out'), md), w') \<Rightarrow> put_out out' w')"

lemma intercepted_exhausted:
  assumes "\<And>w. \<exists>md out' w'. cn_Invoke (raw conn) (client_context E ctx (re_Target X conn @ meth)) meth req out w =
      (((Some e, out'), md), w')"
    and "ParseRPCErrorCode (re_fmt_status X) (re_gjson_code X) (Some e) \<noteq> 14"
  shows "\<exists>out'. intercepted_invoke X E stack at_panic json get_out put_out raw conn ctx meth req out s =
      Ret ((Some (PlainErr ''Max retries reached''), out'),
        set_world ((one_call (raw conn) (client_context E ctx (re_Target X conn @ meth)) meth req out put_out ^^ 3) (rs_world s)) s)"
proof -
  let ?inv = "\<lambda>ctx cc w. case cn_Invoke (raw cc) ctx meth req out w of (((err, out), md), w) \<Rightarrow> (err, put_out out w)"
  let ?c = "client_context E ctx (re_Target X conn @ meth)"
  have err: "fst (?inv ?c conn w) = Some e" for w using assms(1)[of w] by auto
  have call: "(\<lambda>w. snd (?inv ?c conn w)) = one_call (raw conn) ?c meth req out put_out"
    by (simp add: fun_eq_iff one_call_def split: prod.split)
  have "RetryGrpcUnaryClientInterceptor X (?inv ?c) conn s =
      Ret (Some (PlainErr ''Max retries reached''), set_world ((one_call (raw conn) ?c meth req out put_out ^^ 3) (rs_world s)) s)"
    using retry_exhausted[where invoker = "?inv ?c" and cc = conn, OF err assms(2)] unfolding call .
  then show ?thesis
    by (simp add: intercepted_invoke_def unary_call_def JaegerGrpcUnaryClientInterceptor_def error_msg_item_eq Let_def)
qed

text \<open>The world's parts: the server's logger and the message that the stub receives into.\<close>

definition level_world :: "('w \<Rightarrow> logger_state) \<Rightarrow> (logger_state \<Rightarrow> 'w \<Rightarrow> 'w) \<Rightarrow> ('w \<Rightarrow> pb_message) \<Rightarrow> (pb_message \<Rightarrow> 'w \<Rightarrow> 'w) \<Rightarrow> bool" where
  "level_world get put get_out put_out \<longleftrightarrow>
     (\<forall>t w. get (put t w) = t) \<and> (\<forall>m w. get_out (put_out m w) = m) \<and> (\<forall>m w. get (put_out m w) = get w)"

lemma dialled_level:
  assumes law: "invoke_law (raw conn) deliver (server_interceptor ES A stackS json server) (gs_services server)" "system_server server"
    "(CommonService_ServiceDesc, CommonServer (common_server P OS keys Z code_field A' get put)) \<in> set (gs_services server)" "zap_law Z"
    and world: "level_world get put get_out put_out"
    and text_code: "re_gjson_code X (re_fmt_status X 2 ''[logger] change level fail'') \<noteq> Some 14"
    and that: "w' = (one_call (raw conn) (client_context E ctx (re_Target X conn @ ''/pb.CommonService/setLogLevel''))
        ''/pb.CommonService/setLogLevel'' (MSetLogLevelRequest \<lparr>lq_Level = name\<rparr>)
        (MSetLogLevelResponse \<lparr>rsp_Code = 0, rsp_ErrMsg = []\<rparr>) put_out ^^
        (if lowercaseStr2LevelMap name = None then 3 else 1)) (rs_world s)"
  shows "dialled_SetLogLevel X E stack at_panic jsonC get_out put_out raw ctx conn name s =
      Ret (if lowercaseStr2LevelMap name = None then Inl (PlainErr ''Max retries reached'')
           else Inr \<lparr>rsp_Code = 200, rsp_ErrMsg = []\<rparr>, set_world w' s) \<and> lg_level (get w') = level_set name"
proof -
  let ?req = "MSetLogLevelRequest \<lparr>lq_Level = name\<rparr>" and ?out = "MSetLogLevelResponse \<lparr>rsp_Code = 0, rsp_ErrMsg = []\<rparr>"
  let ?c = "client_context E ctx (re_Target X conn @ ''/pb.CommonService/setLogLevel'')"
  let ?call = "one_call (raw conn) ?c ''/pb.CommonService/setLogLevel'' ?req ?out put_out"
  note inv = level_invoke[OF law, of ?c name ?out]
  note W = world[unfolded level_world_def]
  have set: "lg_level (get (?call w)) = level_set name" for w
    using inv[of w] W by (auto simp: one_call_def)
  show ?thesis
  proof (cases "lowercaseStr2LevelMap name")
    case None
    let ?e = "StatusErr 2 ''[logger] change level fail''"
    have code: "ParseRPCErrorCode (re_fmt_status X) (re_gjson_code X) (Some ?e) \<noteq> 14"
      using text_code by (auto simp: ParseRPCErrorCode_def split: option.split)
    have failed: "\<exists>md out' w'. cn_Invoke (raw conn) ?c ''/pb.CommonService/setLogLevel'' ?req ?out w = (((Some ?e, out'), md), w')" for w
      using inv[of w] None by (auto simp: level_reply_def)
    have w3: "w' = (?call ^^ 3) (rs_world s)" by (simp only: that None if_True simp_thms)
    from intercepted_exhausted[where put_out = put_out and raw = raw and X = X, OF failed code]
    obtain out' where "intercepted_invoke X E stack at_panic jsonC get_out put_out raw conn ctx ''/pb.CommonService/setLogLevel''
        ?req ?out s = Ret ((Some (PlainErr ''Max retries reached''), out'), set_world w' s)"
      unfolding w3 by blast
    with None that set show ?thesis by (simp add: dialled_SetLogLevel_def numeral_3_eq_3)
  next
    case (Some l)
    let ?r = "MSetLogLevelResponse \<lparr>rsp_Code = 200, rsp_ErrMsg = []\<rparr>"
    obtain md t where i: "cn_Invoke (raw conn) ?c ''/pb.CommonService/setLogLevel'' ?req ?out (rs_world s) =
        (((None, ?r), md), put t (rs_world s))" and t: "lg_level t = level_set name"
      using inv[of "rs_world s"] Some by (auto simp: level_reply_def)
    have w': "w' = put_out ?r (put t (rs_world s))" using that Some i by (simp add: one_call_def)
    have "intercepted_invoke X E stack at_panic jsonC get_out put_out raw conn ctx ''/pb.CommonService/setLogLevel''
        ?req ?out s = Ret ((None, ?r), set_world (put_out ?r (put t (rs_world s))) s)"
      using i W by (intro intercepted_answered[where raw = raw]) auto
    with Some t W show ?thesis by (simp add: dialled_SetLogLevel_def w')
  qed
qed

section \<open>The whole way\<close>

text \<open>
  C36: \<open>GET /panda-grpc-gw/v1/<service>/level/<name>\<close>, when the gateway has dialled the service: the engine hands the path
  without its prefix to the runtime, the table chooses the connection of that service and binds the name, and the
  handler calls the service. For one of the seven names there is one call, the service's level is set and its response
  with code 200 is forwarded. For any other name there are exactly three calls, each in the world the one before left,
  which leave the service's level at \<open>info\<close>, and the answer is the error page of 'Max retries reached': neither the
  response with code 400 that \<open>SetLogLevel\<close> makes nor its error reaches the caller.
\<close>

theorem level_request_end_to_end:
  assumes svc: "svc \<in> set gateway_services" and name: "level_name name"
    and route: "route_law dispatch" and gateway: "register_gateway X s0 = Ret (routes, s)"
    and dialled: "(''GET'', ''/v1/'' @ svc @ ''/level/{level}'', conn) \<in> set routes"
    and law: "invoke_law (raw conn) deliver (server_interceptor ES A stackS json server) (gs_services server)" "system_server server"
    "(CommonService_ServiceDesc, CommonServer (common_server P OS keys Z code_field A' get put)) \<in> set (gs_services server)" "zap_law Z"
    and world: "level_world get put get_out put_out"
    and text_code: "re_gjson_code X (re_fmt_status X 2 ''[logger] change level fail'') \<noteq> Some 14"
    and annotate: "gr_AnnotateContext R = None"
    and call: "\<And>w. call w = (case cn_Invoke (raw conn)
        (client_context E ctx (re_Target X conn @ ''/pb.CommonService/setLogLevel'')) ''/pb.CommonService/setLogLevel''
        (MSetLogLevelRequest \<lparr>lq_Level = name\<rparr>) (MSetLogLevelResponse \<lparr>rsp_Code = 0, rsp_ErrMsg = []\<rparr>) w of
          (((err, out), md), w) \<Rightarrow> put_out out w)"
  shows "engine_dispatch Host st ''GET'' (''/panda-grpc-gw'' @ level_path svc name) esc = Ret (GatewayRoute (level_path svc name)) \<and>
    dispatch routes ''GET'' (level_path svc name) = RoutedTo conn [(''level'', name)] \<and>
    (\<exists>w'. level_handler R forward (dialled_SetLogLevel X E stack at_panic jsonC get_out put_out raw ctx conn)
        (map_of [(''level'', name)]) hw s =
      Ret (case lowercaseStr2LevelMap name of
          Some l \<Rightarrow> forward \<lparr>rsp_Code = 200, rsp_ErrMsg = []\<rparr> hw
        | None \<Rightarrow> gr_HTTPError R (PlainErr ''Max retries reached'') hw, set_world w' s) \<and>
      w' = (case lowercaseStr2LevelMap name of
          Some l \<Rightarrow> call (rs_world s)
        | None \<Rightarrow> call (call (call (rs_world s)))) \<and>
      lg_level (get w') = (case lowercaseStr2LevelMap name of Some l \<Rightarrow> l | None \<Rightarrow> InfoLevel))"
proof -
  let ?c = "client_context E ctx (re_Target X conn @ ''/pb.CommonService/setLogLevel'')"
  have one: "call = one_call (raw conn) ?c ''/pb.CommonService/setLogLevel'' (MSetLogLevelRequest \<lparr>lq_Level = name\<rparr>)
      (MSetLogLevelResponse \<lparr>rsp_Code = 0, rsp_ErrMsg = []\<rparr>) put_out"
    by (simp add: fun_eq_iff one_call_def call)
  define w' where "w' = (call ^^ (if lowercaseStr2LevelMap name = None then 3 else 1)) (rs_world s)"
  have c: "dialled_SetLogLevel X E stack at_panic jsonC get_out put_out raw ctx conn name s =
      Ret (if lowercaseStr2LevelMap name = None then Inl (PlainErr ''Max retries reached'')
           else Inr \<lparr>rsp_Code = 200, rsp_ErrMsg = []\<rparr>, set_world w' s)" "lg_level (get w') = level_set name"
    using dialled_level[where raw = raw and get_out = get_out and put_out = put_out, OF law world text_code w'_def[unfolded one]]
    by blast+
  have "level_handler R forward (dialled_SetLogLevel X E stack at_panic jsonC get_out put_out raw ctx conn)
        (map_of [(''level'', name)]) hw s =
      Ret (case lowercaseStr2LevelMap name of
          Some l \<Rightarrow> forward \<lparr>rsp_Code = 200, rsp_ErrMsg = []\<rparr> hw
        | None \<Rightarrow> gr_HTTPError R (PlainErr ''Max retries reached'') hw, set_world w' s)"
    using annotate by (cases "lowercaseStr2LevelMap name") (simp_all add: level_handler_def level_route_def c(1))
  moreover have "w' = (case lowercaseStr2LevelMap name of Some l \<Rightarrow> call (rs_world s)
      | None \<Rightarrow> call (call (call (rs_world s))))"
    by (simp add: w'_def numeral_3_eq_3 split: option.split)
  ultimately show ?thesis
    using c(2) engine_level_path[OF svc name] level_path_routed[OF route gateway svc name dialled]
    unfolding level_set_def by blast
qed

section \<open>Example\<close>

record level_w =
  lw_log :: logger_state
  lw_cell :: pb_message

definition level_register :: "(string \<times> string \<times> string) list \<times> (level_w, string, unit, unit) rpc_state" where
  "level_register = (gateway_table (Map.empty(''panda-account'' \<mapsto> ''panda-account.dev:50051'',
      ''panda-auth'' \<mapsto> ''panda-auth.dev:50051'', ''panda-export'' \<mapsto> ''panda-export.dev:50051'')),
    route_state \<lparr>lw_log = init_logger, lw_cell = MEmpty\<rparr>)"

lemma level_request_end_to_end_witness:
  "\<exists>call w'. engine_dispatch id Engine.example_k8s ''GET'' ''/panda-grpc-gw/v1/panda-auth/level/loud'' [] =
      Ret (GatewayRoute ''/v1/panda-auth/level/loud'') \<and>
    first_match (fst level_register) ''GET'' ''/v1/panda-auth/level/loud'' =
      RoutedTo ''panda-auth.dev:50051'' [(''level'', ''loud'')] \<and>
    level_handler \<lparr>gr_AnnotateContext = None, gr_HTTPError = (\<lambda>e. hw_Write (err_text (\<lambda>c d. d) e))\<rparr> (\<lambda>(r :: SetLogLevelResponse) hw. hw) call
      (map_of [(''level'', ''loud'')]) \<lparr>hw_headers = [], hw_status = None, hw_body = []\<rparr> (snd level_register) =
    Ret (\<lparr>hw_headers = [], hw_status = Some (200, []), hw_body = ''Max retries reached''\<rparr>, set_world w' (snd level_register)) \<and>
    lg_level (lw_log w') = InfoLevel"
proof -
  let ?E = "example_trace_env :: (md option \<times> md option, _) trace_env"
  let ?put = "\<lambda>t w. w\<lparr>lw_log := t\<rparr>" and ?put_out = "\<lambda>m w. w\<lparr>lw_cell := m\<rparr>"
  let ?common = "common_server list_zip no_os [] zap_example (\<lambda>_. ZString ''code'' []) example_err_api lw_log ?put"
  obtain server :: "(md option \<times> md option, level_w) grpc_server" and bg where
    s: "account_server ?common UnimplementedPandaAccountServer = Ret (server, bg)" by (simp add: account_server_eq)
  have sys: "system_server server" using s unfolding system_server_def by blast
  have reg: "(CommonService_ServiceDesc, CommonServer ?common) \<in> set (gs_services server)"
    using account_server_services[OF s] by simp
  let ?raw = "\<lambda>_. local_conn (\<lambda>c. c) (server_interceptor ?E example_err_api ''stack'' (\<lambda>_. ''{}'') server) (gs_services server)"
  have gw: "register_gateway route_env (route_state \<lparr>lw_log = init_logger, lw_cell = MEmpty\<rparr>) =
      Ret (fst level_register, snd level_register)"
    unfolding level_register_def fst_conv snd_conv by (rule register_gateway_example)
  have route: "(''GET'', ''/v1/'' @ ''panda-auth'' @ ''/level/{level}'', ''panda-auth.dev:50051'') \<in> set (fst level_register)"
    by (simp add: level_register_def gateway_table_def service_table_def)
  have world: "level_world lw_log ?put lw_cell ?put_out" by (simp add: level_world_def)
  have svc: "''panda-auth'' \<in> set gateway_services" by (simp add: gateway_services_def)
  have name: "level_name ''loud''" by (simp add: level_name_def HasPrefix_def)
  have path: "level_path ''panda-auth'' ''loud'' = ''/v1/panda-auth/level/loud''" by (simp add: level_path_def)
  have none: "lowercaseStr2LevelMap ''loud'' = None" by (simp add: lowercaseStr2LevelMap_def)
  have code: "re_gjson_code route_env (re_fmt_status route_env 2 ''[logger] change level fail'') \<noteq> Some 14"
    by (simp add: route_env_def)
  show ?thesis
    using level_request_end_to_end[where raw = ?raw and get_out = lw_cell and put_out = ?put_out and
        R = "\<lparr>gr_AnnotateContext = None, gr_HTTPError = (\<lambda>e. hw_Write (err_text (\<lambda>c d. d) e))\<rparr>" and
        E = ?E and ctx = "(None, None)" and stack = "''stack''" and at_panic = "snd level_register" and
        jsonC = "\<lambda>_. ''{}''" and Host = id and st = Engine.example_k8s and esc = "[]" and
        forward = "\<lambda>r hw. hw" and hw = "\<lparr>hw_headers = [], hw_status = None, hw_body = []\<rparr>",
        OF svc name first_match_law gw route account_server_law[OF s] sys reg zap_example_law world code _ refl]
    unfolding path none by (simp add: hw_Write_def hw_WriteHeader_def) blast
qed

end
