(* ===== verification/Informer.thy ===== *)
theory Informer
  imports Experiments Sprintf
begin

text \<open>
  The experiments with Kubernetes' informers: the event handlers of \<open>base/job-informer/main.go\<close>, the index test and
  the goroutine number of \<open>base/main.go\<close>.

  The indexer of \<open>client-go\<close> is the record \<open>indexer\<close> of the operations the test uses; \<open>indexer_law\<close> is what it
  documents. The handlers print; what they have printed is a list of lines.
\<close>

section \<open>Event handlers\<close>

text \<open>
  What the informer hands to a handler: a pod by its name, the tombstone of an object whose deletion the watch has
  missed (\<open>cache.DeletedFinalStateUnknown\<close>, documented for \<open>DeleteFunc\<close>), or another object.
\<close>

datatype informed_obj = InformedPod string | Tombstone string informed_obj | OtherInformed

datatype informer_event =
    Added informed_obj
  | Updated informed_obj informed_obj
  | Deleted informed_obj

text \<open>\<open>obj.(*v1.Pod)\<close>\<close>

fun as_pod :: "informed_obj \<Rightarrow> string go" where
  "as_pod (InformedPod name) = Ret name"
| "as_pod _ = Panic TypeAssertFault"

definition utf8_text :: "nat list \<Rightarrow> string" where
  "utf8_text bs = map char_of bs"

text \<open>The handlers of \<open>NewController\<close>; the texts before the name are UTF-8.\<close>

definition added_text :: string where
  "added_text = utf8_text [230, 183, 187, 229, 138, 160, 228, 186, 134, 228, 184, 128, 228, 184, 170] @ ''Pod: ''"

definition updated_text :: string where
  "updated_text = utf8_text [230, 155, 180, 230, 150, 176, 228, 186, 134] @ ''Pod: ''"

definition deleted_text :: string where
  "deleted_text = utf8_text [229, 136, 160, 233, 153, 164, 228, 186, 134] @ ''Pod: ''"

fun NewController_handle :: "informer_event \<Rightarrow> string list \<Rightarrow> string list go" where
  "NewController_handle (Added obj) out = go_map (\<lambda>pod. out @ [added_text @ pod]) (as_pod obj)"
| "NewController_handle (Updated oldObj newObj) out =
     go_bind (as_pod oldObj) (\<lambda>_. go_map (\<lambda>newPod. out @ [updated_text @ newPod]) (as_pod newObj))"
| "NewController_handle (Deleted obj) out = go_map (\<lambda>pod. out @ [deleted_text @ pod]) (as_pod obj)"

text \<open>Those that \<open>main\<close> adds to the same informer.\<close>

fun main_handle :: "informer_event \<Rightarrow> string list \<Rightarrow> string list go" where
  "main_handle (Added obj) out = go_map (\<lambda>pod. out @ [''Pod '' @ pod @ '' created'']) (as_pod obj)"
| "main_handle (Updated oldObj newObj) out = Ret out"
| "main_handle (Deleted obj) out = go_map (\<lambda>pod. out @ [''Pod '' @ pod @ '' deleted'']) (as_pod obj)"

text \<open>
  A run over events prints one line for each as long as the objects are pods. The first tombstone ends it by a
  panic, although the documentation announces tombstones to every \<open>DeleteFunc\<close>.
\<close>

definition pod_event :: "informer_event \<Rightarrow> bool" where
  "pod_event e \<longleftrightarrow> (case e of Added obj \<Rightarrow> go_returns (as_pod obj) | Deleted obj \<Rightarrow> go_returns (as_pod obj)
     | Updated oldObj newObj \<Rightarrow> go_returns (as_pod oldObj) \<and> go_returns (as_pod newObj))"

lemma NewController_handle_returns:
  "pod_event e \<Longrightarrow> \<exists>line. NewController_handle e out = Ret (out @ [line])"
  by (cases e) (auto simp: pod_event_def go_returns_iff)

lemma NewController_run:
  "list_all pod_event es \<Longrightarrow> \<exists>lines. go_fold NewController_handle es out = Ret (out @ lines) \<and> length lines = length es"
proof (induction es arbitrary: out)
  case (Cons e es)
  then obtain line where l: "NewController_handle e out = Ret (out @ [line])"
    using NewController_handle_returns[of e out] by auto
  from Cons obtain lines where "go_fold NewController_handle es (out @ [line]) = Ret ((out @ [line]) @ lines)"
    "length lines = length es" by fastforce
  with l show ?case by (intro exI[of _ "line # lines"]) simp
qed simp

lemma tombstone_panics:
  assumes "list_all pod_event es"
  shows "go_fold NewController_handle (es @ Deleted (Tombstone key obj) # es') out = Panic TypeAssertFault"
    and "main_handle (Deleted (Tombstone key obj)) out = Panic TypeAssertFault"
  using NewController_run[OF assms, of out] by (auto simp: go_fold_append)

section \<open>The number of the goroutine\<close>

text \<open>\<open>strings.Fields(s)[0]\<close> of an ASCII text, \<open>strconv.Atoi\<close> with its clamping, and the first 64 bytes of the stack.\<close>

definition is_space :: "char \<Rightarrow> bool" where
  "is_space c \<longleftrightarrow> of_char c \<in> {9, 10, 11, 12, 13, 32 :: nat}"

definition first_field :: "string \<Rightarrow> string go" where
  "first_field s =
     (case dropWhile is_space s of [] \<Rightarrow> Panic IndexOutOfRange | c # t \<Rightarrow> Ret (takeWhile (\<lambda>c. \<not> is_space c) (c # t)))"

definition Atoi :: "string \<Rightarrow> int \<times> gerr option" where
  "Atoi s =
     (let (neg, ds) = (case s of c # t \<Rightarrow> if c = CHR ''-'' then (True, t) else if c = CHR ''+'' then (False, t) else (False, s)
                         | [] \<Rightarrow> (False, s));
          v = (if neg then - int (digits_value ds) else int (digits_value ds))
      in if ds = [] \<or> \<not> list_all is_digit ds then (0, Some (PlainErr ''invalid syntax''))
         else if v < - (2 ^ 63) then (- (2 ^ 63), Some (PlainErr ''value out of range''))
         else if 2 ^ 63 - 1 < v then (2 ^ 63 - 1, Some (PlainErr ''value out of range''))
         else (v, None))"

definition getCurrentGoRoutineId :: "string \<Rightarrow> int go" where
  "getCurrentGoRoutineId stack =
     go_map (\<lambda>idField. fst (Atoi idField)) (first_field (TrimPrefix (take 64 stack) ''goroutine''))"

lemma nat_text_length: "n < 10 ^ k \<Longrightarrow> 0 < k \<Longrightarrow> length (nat_text n) \<le> k"
proof (induction k arbitrary: n)
  case (Suc k)
  show ?case
  proof (cases "n < 10")
    case True
    then show ?thesis by (subst nat_text.simps) simp
  next
    case False
    with Suc.prems have "n div 10 < 10 ^ k" "0 < k" by (auto simp: less_mult_imp_div_less mult.commute intro: gr0I)
    with Suc.IH[of "n div 10"] False show ?thesis by (subst nat_text.simps) simp
  qed
qed simp

text \<open>The number that \<open>runtime.Stack\<close> writes is the one that is read back.\<close>

lemma getCurrentGoRoutineId_reads:
  assumes "n < 2 ^ 63"
  shows "getCurrentGoRoutineId (''goroutine '' @ nat_text n @ '' ['' @ rest) = Ret (int n)"
proof -
  have "n < 10 ^ 19" using assms by simp
  then have len: "length (nat_text n) \<le> 19" by (intro nat_text_length) simp_all
  define tail where "tail = take (52 - length (nat_text n)) rest"
  have "54 - length (nat_text n) = Suc (Suc (52 - length (nat_text n)))" using len by simp
  then have t: "take 64 (''goroutine '' @ nat_text n @ '' ['' @ rest) = ''goroutine'' @ '' '' @ nat_text n @ '' ['' @ tail"
    using len by (simp add: tail_def)
  have d: "\<forall>c \<in> set (nat_text n). is_digit c \<and> \<not> is_space c"
    using nat_text_digits[of _ n] by (fastforce simp: is_digit_def is_space_def)
  obtain c cs where n: "nat_text n = c # cs" by (cases "nat_text n") auto
  have sp: "is_space CHR '' ''" by (simp add: is_space_def)
  have "dropWhile is_space ('' '' @ nat_text n @ '' ['' @ tail) = nat_text n @ '' ['' @ tail"
    using d sp by (simp add: n)
  moreover have "takeWhile (\<lambda>c. \<not> is_space c) (nat_text n @ '' ['' @ tail) = nat_text n"
    using d sp by (subst takeWhile_append2) auto
  ultimately have f: "first_field ('' '' @ nat_text n @ '' ['' @ tail) = Ret (nat_text n)"
    unfolding first_field_def by (simp add: n)
  have "c \<noteq> CHR ''-''" "c \<noteq> CHR ''+''" using d by (auto simp: n is_digit_def)
  moreover have "list_all is_digit (nat_text n)" using d by (simp add: list_all_iff)
  ultimately have "fst (Atoi (nat_text n)) = int n"
    using assms digits_value_nat_text[of n] by (simp add: Atoi_def n Let_def)
  then show ?thesis
    unfolding getCurrentGoRoutineId_def t TrimPrefix_append f by simp
qed

section \<open>The index test\<close>

record 's indexer =
  ix_Add :: "indexed_obj \<Rightarrow> 's \<Rightarrow> 's"
  ix_Update :: "indexed_obj \<Rightarrow> 's \<Rightarrow> 's"
  ix_Delete :: "indexed_obj \<Rightarrow> 's \<Rightarrow> 's"
  ix_ByIndex :: "string \<Rightarrow> string \<Rightarrow> 's \<Rightarrow> indexed_obj list \<times> gerr option"

text \<open>What the test reports by \<open>t.Errorf\<close>, without the wording.\<close>

datatype report =
    UnexpectedError gerr
  | MissingItems string "string set" "string set"
  | PodCount nat nat
  | NotOne string

fun pod_Name :: "indexed_obj \<Rightarrow> string go" where
  "pod_Name (Pod name annotations) = Ret name"
| "pod_Name OtherObj = Panic TypeAssertFault"

definition report_error :: "gerr option \<Rightarrow> report list \<Rightarrow> report list" where
  "report_error err rs = (case err of Some e \<Rightarrow> rs @ [UnexpectedError e] | None \<Rightarrow> rs)"

text \<open>One turn of the loop over \<open>expected\<close>, and the later looks at the pods of one user.\<close>

definition check_user :: "'s indexer \<Rightarrow> 's \<Rightarrow> string \<times> string set \<Rightarrow> report list \<Rightarrow> report list go" where
  "check_user ix s = (\<lambda>(k, v) rs.
     let (items, err) = ix_ByIndex ix ''byUser'' k s; rs = report_error err rs in
     go_map (\<lambda>found. if found \<noteq> v then rs @ [MissingItems k v found] else rs)
       (go_fold (\<lambda>item found. go_map (\<lambda>n. insert n found) (pod_Name item)) items {}))"

definition check_only_one :: "'s indexer \<Rightarrow> 's \<Rightarrow> string \<Rightarrow> report list \<Rightarrow> report list go" where
  "check_only_one ix s user rs =
     (let (pods, err) = ix_ByIndex ix ''byUser'' user s; rs = report_error err rs;
          rs = (if length pods \<noteq> 1 then rs @ [PodCount 1 (length pods)] else rs)
      in go_fold (\<lambda>pod rs. go_map (\<lambda>n. if n \<noteq> ''one'' then rs @ [NotOne n] else rs) (pod_Name pod)) pods rs)"

definition check_none :: "'s indexer \<Rightarrow> 's \<Rightarrow> string \<Rightarrow> report list \<Rightarrow> report list" where
  "check_none ix s user rs =
     (let (pods, err) = ix_ByIndex ix ''byUser'' user s; rs = report_error err rs
      in if pods \<noteq> [] then rs @ [PodCount 0 (length pods)] else rs)"

definition user_pod :: "string \<Rightarrow> string \<Rightarrow> indexed_obj" where
  "user_pod name users = Pod name [''users'' \<mapsto> users]"

definition expected_users :: "(string \<times> string set) set" where
  "expected_users = {(''ernie'', {''one'', ''tre''}), (''bert'', {''one'', ''two''}), (''elmo'', {''tre''}),
     (''oscar'', {''two''}), (''elmo1'', {})}"

text \<open>
  The test: \<open>job\<close> is the indexer of the informer, \<open>s\<close> the new one; \<open>expected\<close> lists \<open>expected_users\<close> in the order
  of the \<open>range\<close>. It prints how many objects the informer's index finds.
\<close>

definition TestMultiIndexKeys :: "'s indexer \<Rightarrow> 's \<Rightarrow> 's \<Rightarrow> (string \<times> string set) list \<Rightarrow> (nat \<times> report list) go" where
  "TestMultiIndexKeys ix job s expected =
     (let pod1 = user_pod ''one'' ''ernie,bert''; pod2 = user_pod ''two'' ''bert,oscar''; pod3 = user_pod ''tre'' ''ernie,elmo'';
          job = ix_Add ix pod1 job;
          printed = length (fst (ix_ByIndex ix ''byUser'' ''ernie'' job));
          s = ix_Add ix pod3 (ix_Add ix pod2 (ix_Add ix pod1 s))
      in go_bind (go_fold (check_user ix s) expected []) (\<lambda>rs.
         let s = ix_Delete ix pod3 s in
         go_bind (check_only_one ix s ''ernie'' rs) (\<lambda>rs.
           let rs = check_none ix s ''elmo'' rs; s = ix_Update ix (user_pod ''two'' ''oscar'') s in
           go_map (Pair printed) (check_only_one ix s ''bert'' rs))))"

text \<open>
  What an indexer with the index \<open>byUser\<close> documents, seen through the objects it stores by name (\<open>view\<close>; the pods
  have no namespace): an index finds, once each and in any order, the stored objects that its function maps to
  the value.
\<close>

definition indexer_law :: "'s indexer \<Rightarrow> ('s \<Rightarrow> string \<rightharpoonup> indexed_obj) \<Rightarrow> bool" where
  "indexer_law ix view \<longleftrightarrow>
     (\<forall>n a s. view (ix_Add ix (Pod n a) s) = (view s)(n \<mapsto> Pod n a) \<and>
        view (ix_Update ix (Pod n a) s) = (view s)(n \<mapsto> Pod n a) \<and> view (ix_Delete ix (Pod n a) s) = (view s)(n := None)) \<and>
     (\<forall>v s. \<exists>objs. ix_ByIndex ix ''byUser'' v s = (objs, None) \<and> distinct objs \<and>
        set objs = {obj \<in> ran (view s). \<exists>us err. testUsersIndexFunc obj = Ret (us, err) \<and> v \<in> set us})"

definition users_of :: "indexed_obj \<Rightarrow> string set" where
  "users_of obj = (case testUsersIndexFunc obj of Ret (us, err) \<Rightarrow> set us | _ \<Rightarrow> {})"

lemma ByIndex_finds:
  assumes "indexer_law ix view"
  obtains objs where "ix_ByIndex ix ''byUser'' v s = (objs, None)" "distinct objs"
    "set objs = {obj \<in> ran (view s). v \<in> users_of obj}"
proof -
  have eq: "(\<exists>us err. testUsersIndexFunc obj = Ret (us, err) \<and> v \<in> set us) \<longleftrightarrow> v \<in> users_of obj" for obj
    by (cases "testUsersIndexFunc obj") (auto simp: users_of_def)
  obtain objs where o: "ix_ByIndex ix ''byUser'' v s = (objs, None)" "distinct objs"
    "set objs = {obj \<in> ran (view s). \<exists>us err. testUsersIndexFunc obj = Ret (us, err) \<and> v \<in> set us}"
    using assms unfolding indexer_law_def by blast
  from o(3) have "set objs = {obj \<in> ran (view s). v \<in> users_of obj}" unfolding eq .
  with o(1,2) show thesis by (rule that)
qed

lemma pod_names:
  assumes "\<forall>obj \<in> set items. \<exists>n us. obj = user_pod n us"
  shows "go_fold (\<lambda>item found. go_map (\<lambda>n. insert n found) (pod_Name item)) items found =
    Ret (found \<union> {n. \<exists>us. user_pod n us \<in> set items})"
  using assms
proof (induction items arbitrary: found)
  case (Cons item items)
  then obtain n us where "item = user_pod n us" by auto
  with Cons show ?case by (auto simp: user_pod_def)
qed simp

text \<open>The pods that the test's indexer holds, and who their users are.\<close>

lemma users_of_pods:
  "users_of (user_pod ''one'' ''ernie,bert'') = {''ernie'', ''bert''}"
  "users_of (user_pod ''two'' ''bert,oscar'') = {''bert'', ''oscar''}"
  "users_of (user_pod ''tre'' ''ernie,elmo'') = {''ernie'', ''elmo''}"
  "users_of (user_pod ''two'' ''oscar'') = {''oscar''}"
  by (simp_all add: users_of_def user_pod_def testUsersIndexFunc_def)

lemma user_pod_neq:
  "user_pod ''one'' us \<noteq> user_pod ''two'' us'" "user_pod ''one'' us \<noteq> user_pod ''tre'' us'"
  "user_pod ''two'' us \<noteq> user_pod ''tre'' us'"
  by (simp_all add: user_pod_def)

lemma user_pod_eq: "user_pod n us = user_pod n' us' \<longleftrightarrow> n = n' \<and> us = us'"
  by (auto simp: user_pod_def dest: map_upd_eqD1)

definition names_for :: "string \<Rightarrow> indexed_obj set \<Rightarrow> string set" where
  "names_for k P = {n. \<exists>us. user_pod n us \<in> P \<and> k \<in> users_of (user_pod n us)}"

lemma names_for_simps:
  "names_for k {} = {}"
  "names_for k (insert (user_pod m u) P) = (if k \<in> users_of (user_pod m u) then {m} else {}) \<union> names_for k P"
  by (auto simp: names_for_def user_pod_eq)

lemma check_user_finds:
  assumes "indexer_law ix view" and "ran (view s) = P" and "\<forall>obj \<in> P. \<exists>n us. obj = user_pod n us"
    and "names_for k P = v"
  shows "check_user ix s (k, v) rs = Ret rs"
proof -
  obtain items where "ix_ByIndex ix ''byUser'' k s = (items, None)" "distinct items"
    "set items = {obj \<in> ran (view s). k \<in> users_of obj}" by (rule ByIndex_finds[OF assms(1)])
  then have i: "ix_ByIndex ix ''byUser'' k s = (items, None)" "set items = {obj \<in> P. k \<in> users_of obj}"
    by (simp_all add: assms(2))
  have "\<forall>obj \<in> set items. \<exists>n us. obj = user_pod n us" using i(2) assms(3) by auto
  from pod_names[OF this, of "{}"] i assms(4) show ?thesis
    by (simp add: check_user_def report_error_def names_for_def Let_def)
qed

lemma check_only_one_finds:
  assumes "indexer_law ix view" and "{obj \<in> ran (view s). k \<in> users_of obj} = {user_pod ''one'' us}"
  shows "check_only_one ix s k rs = Ret rs"
proof -
  obtain items where "ix_ByIndex ix ''byUser'' k s = (items, None)" "distinct items"
    "set items = {obj \<in> ran (view s). k \<in> users_of obj}" by (rule ByIndex_finds[OF assms(1)])
  then have i: "ix_ByIndex ix ''byUser'' k s = (items, None)" "distinct items" "set items = {user_pod ''one'' us}"
    by (simp_all add: assms(2))
  then have "items = [user_pod ''one'' us]"
    by (cases items; cases "tl items") auto
  with i(1) show ?thesis by (simp add: check_only_one_def report_error_def user_pod_def Let_def)
qed

lemma check_none_finds:
  assumes "indexer_law ix view" and "{obj \<in> ran (view s). k \<in> users_of obj} = {}"
  shows "check_none ix s k rs = rs"
proof -
  obtain items where "ix_ByIndex ix ''byUser'' k s = (items, None)" "distinct items"
    "set items = {obj \<in> ran (view s). k \<in> users_of obj}" by (rule ByIndex_finds[OF assms(1)])
  then show ?thesis by (simp add: assms(2) check_none_def report_error_def)
qed

lemma test_names:
  "names_for ''ernie'' {user_pod ''one'' ''ernie,bert'', user_pod ''two'' ''bert,oscar'', user_pod ''tre'' ''ernie,elmo''} = {''one'', ''tre''}"
  "names_for ''bert'' {user_pod ''one'' ''ernie,bert'', user_pod ''two'' ''bert,oscar'', user_pod ''tre'' ''ernie,elmo''} = {''one'', ''two''}"
  "names_for ''elmo'' {user_pod ''one'' ''ernie,bert'', user_pod ''two'' ''bert,oscar'', user_pod ''tre'' ''ernie,elmo''} = {''tre''}"
  "names_for ''oscar'' {user_pod ''one'' ''ernie,bert'', user_pod ''two'' ''bert,oscar'', user_pod ''tre'' ''ernie,elmo''} = {''two''}"
  "names_for ''elmo1'' {user_pod ''one'' ''ernie,bert'', user_pod ''two'' ''bert,oscar'', user_pod ''tre'' ''ernie,elmo''} = {}"
  by (simp_all add: names_for_simps users_of_pods insert_commute)

text \<open>
  The test passes: over every indexer that does what is documented, whatever the order in which it gives its
  objects and in which the expectations are visited, it prints that one object was found and reports nothing.
\<close>

lemma TestMultiIndexKeys_passes:
  assumes ix: "indexer_law ix view" and empty: "view job = Map.empty" "view s = Map.empty"
    and expected: "set expected = expected_users"
  shows "TestMultiIndexKeys ix job s expected = Ret (1, [])"
proof -
  let ?one = "user_pod ''one'' ''ernie,bert''" and ?two = "user_pod ''two'' ''bert,oscar''" and ?tre = "user_pod ''tre'' ''ernie,elmo''"
  let ?s1 = "ix_Add ix ?tre (ix_Add ix ?two (ix_Add ix ?one s))"
  let ?s2 = "ix_Delete ix ?tre ?s1" and ?s3 = "ix_Update ix (user_pod ''two'' ''oscar'') (ix_Delete ix ?tre ?s1)"
  have up: "view (ix_Add ix (user_pod n us) t) = (view t)(n \<mapsto> user_pod n us)"
    "view (ix_Update ix (user_pod n us) t) = (view t)(n \<mapsto> user_pod n us)"
    "view (ix_Delete ix (user_pod n us) t) = (view t)(n := None)" for n us t
    using ix by (simp_all add: indexer_law_def user_pod_def)
  have "view ?s1 = [''one'' \<mapsto> ?one, ''two'' \<mapsto> ?two, ''tre'' \<mapsto> ?tre]" by (simp add: up empty)
  moreover have "view ?s2 = [''one'' \<mapsto> ?one, ''two'' \<mapsto> ?two]" by (simp add: up empty fun_eq_iff)
  moreover have "view ?s3 = [''one'' \<mapsto> ?one, ''two'' \<mapsto> user_pod ''two'' ''oscar'']" by (simp add: up empty fun_eq_iff)
  ultimately have r1: "ran (view ?s1) = {?one, ?two, ?tre}" and r2: "ran (view ?s2) = {?one, ?two}"
    and r3: "ran (view ?s3) = {?one, user_pod ''two'' ''oscar''}" by (simp_all add: insert_commute)
  have r0: "ran (view (ix_Add ix ?one job)) = {?one}" by (simp add: up empty)
  have pods: "\<forall>obj \<in> {?one, ?two, ?tre}. \<exists>n us. obj = user_pod n us" by blast
  note c1 = test_names[THEN check_user_finds[where view = view, OF ix r1 pods]]
  have "go_fold (check_user ix ?s1) kvs rs = Ret rs" if "set kvs \<subseteq> expected_users" for kvs rs
    using that unfolding expected_users_def by (induction kvs) (auto simp: c1)
  then have f: "go_fold (check_user ix ?s1) expected [] = Ret []" using expected by blast
  have "{obj \<in> ran (view ?s2). ''ernie'' \<in> users_of obj} = {?one}" unfolding r2 by (auto simp: users_of_pods)
  note o1 = check_only_one_finds[where view = view, OF ix this]
  have "{obj \<in> ran (view ?s2). ''elmo'' \<in> users_of obj} = {}" unfolding r2 by (auto simp: users_of_pods)
  note o2 = check_none_finds[where view = view, OF ix this]
  have "{obj \<in> ran (view ?s3). ''bert'' \<in> users_of obj} = {?one}" unfolding r3 by (auto simp: users_of_pods)
  note o3 = check_only_one_finds[where view = view, OF ix this]
  obtain objs where "ix_ByIndex ix ''byUser'' ''ernie'' (ix_Add ix ?one job) = (objs, None)" "distinct objs"
    "set objs = {obj \<in> ran (view (ix_Add ix ?one job)). ''ernie'' \<in> users_of obj}" by (rule ByIndex_finds[where view = view, OF ix])
  moreover have "{obj \<in> {?one}. ''ernie'' \<in> users_of obj} = {?one}" by (auto simp: users_of_pods)
  ultimately have "length (fst (ix_ByIndex ix ''byUser'' ''ernie'' (ix_Add ix ?one job))) = 1"
    unfolding r0 by (simp add: distinct_card[symmetric])
  then show ?thesis by (simp add: TestMultiIndexKeys_def Let_def f o1 o2 o3)
qed

text \<open>An indexer that keeps the law, and the test over it.\<close>

definition list_indexer :: "(string, indexed_obj) gomap indexer" where
  "list_indexer = \<lparr>ix_Add = (\<lambda>obj s. case obj of Pod n a \<Rightarrow> AList.update n obj s | OtherObj \<Rightarrow> s),
     ix_Update = (\<lambda>obj s. case obj of Pod n a \<Rightarrow> AList.update n obj s | OtherObj \<Rightarrow> s),
     ix_Delete = (\<lambda>obj s. case obj of Pod n a \<Rightarrow> AList.delete n s | OtherObj \<Rightarrow> s),
     ix_ByIndex = (\<lambda>i v s. (remdups (filter (\<lambda>obj. v \<in> users_of obj) (map snd (AList.clearjunk s))), None))\<rparr>"

lemma list_indexer_law: "indexer_law list_indexer map_of"
proof -
  have "(\<exists>us err. testUsersIndexFunc obj = Ret (us, err) \<and> v \<in> set us) \<longleftrightarrow> v \<in> users_of obj" for obj v
    by (cases "testUsersIndexFunc obj") (auto simp: users_of_def)
  moreover have "snd ` set (AList.clearjunk s) = ran (map_of s)" for s :: "(string, indexed_obj) gomap"
    using ran_distinct[OF distinct_clearjunk[of s]] by (simp add: ran_clearjunk)
  ultimately show ?thesis by (auto simp: indexer_law_def list_indexer_def gomap_simps)
qed

lemma TestMultiIndexKeys_example:
  "TestMultiIndexKeys list_indexer [] [] [(''ernie'', {''one'', ''tre''}), (''bert'', {''one'', ''two''}), (''elmo'', {''tre''}),
     (''oscar'', {''two''}), (''elmo1'', {})] = Ret (1, [])"
  by (rule TestMultiIndexKeys_passes[where view = map_of, OF list_indexer_law]) (auto simp: expected_users_def)

end
