(* ===== verification/Routine.thy ===== *)
theory Routine
  imports GoPrelude
begin

text \<open>
  Code cut into steps, for the theories in which several goroutines interleave: what a routine computes when it is
  left alone, and how many steps it takes.
\<close>

section \<open>Steps and results\<close>

text \<open>
  A routine is cut into steps: \<open>fin\<close> gives the result at its end, \<open>rest\<close> what it still computes from a point, and
  \<open>rank\<close> bounds the steps left.
\<close>

inductive own_step :: "('pc \<Rightarrow> 's \<Rightarrow> ('pc \<times> 's) go) \<Rightarrow> ('pc \<Rightarrow> 'r option) \<Rightarrow> 'pc \<times> 's \<Rightarrow> 'pc \<times> 's \<Rightarrow> bool"
    for step fin where
  own_step: "fin pc = None \<Longrightarrow> step pc s = Ret (pc', s') \<Longrightarrow> own_step step fin (pc, s) (pc', s')"

inductive_cases own_stepE: "own_step step fin (pc, s) t"

locale routine =
  fixes step :: "'pc \<Rightarrow> 's \<Rightarrow> ('pc \<times> 's) go"
    and fin :: "'pc \<Rightarrow> 'r option"
    and rest :: "'pc \<Rightarrow> 's \<Rightarrow> ('r \<times> 's) go"
    and rank :: "'pc \<Rightarrow> nat"
  assumes rest_fin: "fin pc = Some r \<Longrightarrow> rest pc s = Ret (r, s)"
    and rest_step: "fin pc = None \<Longrightarrow> rest pc s = go_bind (step pc s) (\<lambda>(pc', s'). rest pc' s')"
    and rank_step: "fin pc = None \<Longrightarrow> step pc s = Ret (pc', s') \<Longrightarrow> rank pc' < rank pc"
begin

lemma reaches_end:
  "rest pc s = Ret (r, s') \<Longrightarrow> \<exists>pc'. fin pc' = Some r \<and> (own_step step fin)\<^sup>*\<^sup>* (pc, s) (pc', s')"
proof (induction "rank pc" arbitrary: pc s rule: less_induct)
  case less
  show ?case
  proof (cases "fin pc")
    case (Some r')
    with less.prems rest_fin[OF Some, of s] show ?thesis by auto
  next
    case None
    with less.prems obtain pc1 s1 where st: "step pc s = Ret (pc1, s1)" and rest1: "rest pc1 s1 = Ret (r, s')"
      by (auto simp: rest_step go_simps)
    then obtain pc' where "fin pc' = Some r" "(own_step step fin)\<^sup>*\<^sup>* (pc1, s1) (pc', s')"
      using less.hyps[OF rank_step[OF None st]] by blast
    with own_step[of fin, OF None, of step, OF st] show ?thesis by (meson converse_rtranclp_into_rtranclp)
  qed
qed

lemma keeps_rest: "(own_step step fin)\<^sup>*\<^sup>* (pc, s) (pc', s') \<Longrightarrow> rest pc s = rest pc' s'"
proof (induction rule: rtranclp_induct2)
  case (step pc1 s1 pc2 s2)
  then show ?case by (auto elim!: own_stepE simp: rest_step)
qed simp

theorem alone: "(\<exists>pc'. fin pc' = Some r \<and> (own_step step fin)\<^sup>*\<^sup>* (pc, s) (pc', s')) \<longleftrightarrow> rest pc s = Ret (r, s')"
  using reaches_end keeps_rest rest_fin by metis

end

end
