(* ===== verification/ConnRace.thy ===== *)
theory ConnRace
  imports Directory Routine
begin

text \<open>
  Several goroutines in \<open>GetConn\<close> beside the one that delivers the shared map. They share the namespace map, the
  connection table and the two clients. One step is one operation of a \<open>sync.Map\<close>, one call of another system, or
  what \<open>mapLock\<close> makes one (\<open>GetNewServiceEntity\<close>) and \<open>once\<close> does (\<open>GetGrpcCallConfig\<close>); copying the map is one
  step as well. The sequential account of all of them is in \<open>GrpcClient\<close> and \<open>GrpcCall\<close>; each goroutine, left
  alone, computes what is stated there.
\<close>

section \<open>A goroutine in \<open>GetConn\<close>\<close>

datatype 'conn get_pc =
    GLook                     \<comment> \<open>at the first \<open>GetConnFromServiceMap\<close>\<close>
  | GAsk                      \<comment> \<open>in \<open>DialWrapper\<close>, at \<open>GetServiceNamespace\<close>\<close>
  | GFind                     \<comment> \<open>at \<open>GetNewServiceEntity\<close>\<close>
  | GSave string              \<comment> \<open>in \<open>SetServiceNamespace\<close>, at the store\<close>
  | GCopy string              \<comment> \<open>at \<open>GetNormalMapFromSyncMap\<close>\<close>
  | GPublish string ns_map    \<comment> \<open>at \<open>PublishConfig\<close>\<close>
  | GDial string              \<comment> \<open>at \<open>grpc.Dial\<close>\<close>
  | GLookAgain 'conn          \<comment> \<open>at the second \<open>GetConnFromServiceMap\<close>\<close>
  | GKeep 'conn               \<comment> \<open>at \<open>SetServiceName2ConnMap\<close>\<close>
  | GDone "gerr + 'conn"

definition save_namespace ::
    "string \<Rightarrow> string \<Rightarrow> ('w, 'conn, 'cfg, 'cl) rpc_state \<Rightarrow> ('w, 'conn, 'cfg, 'cl) rpc_state" where
  "save_namespace svc ns s =
     s\<lparr>rs_nacos := (rs_nacos s)\<lparr>nc_app := (rs_call s)
         \<lparr>service2NamespaceMap := sm_Store (StrVal svc) (StrVal ns) (service2NamespaceMap (rs_call s))\<rparr>\<rparr>\<rparr>"

definition publish_map ::
    "('w, 'conn, 'cfg, 'cl) rpc_env \<Rightarrow> ns_map \<Rightarrow> ('w, 'conn, 'cfg, 'cl) rpc_state \<Rightarrow> ('w, 'conn, 'cfg, 'cl) rpc_state" where
  "publish_map X mp s =
     (if length mp \<noteq> 0
      then set_world (snd (snd (PublishConfig (re_publish X) (re_nacos X) (re_md5 X) (re_sdk X)
             (zero_ConfigParam\<lparr>cp_DataId := GrpcCallRelationKey (rs_call s), cp_Content := re_enc X mp\<rparr>) []
             (rs_world s)))) s
      else s)"

fun get_step ::
    "('w, 'conn, 'cfg, 'cl) rpc_env \<Rightarrow> string \<Rightarrow> 'conn get_pc \<Rightarrow> ('w, 'conn, 'cfg, 'cl) rpc_state \<Rightarrow>
     ('conn get_pc \<times> ('w, 'conn, 'cfg, 'cl) rpc_state) go" where
  "get_step X svc GLook s =
     Ret (case GetConnFromServiceMap (rs_conns s) svc of Inr myConn \<Rightarrow> GDone (Inr myConn) | Inl _ \<Rightarrow> GAsk, s)"
| "get_step X svc GAsk s =
     go_map (\<lambda>s. let namespace = GetServiceNamespace svc (rs_call s)
                 in (if namespace = [] then GFind else GDial namespace, s)) (call_config X s)"
| "get_step X svc GFind s =
     go_map (\<lambda>((_, newNamespace, err), s).
         (case err of Some e \<Rightarrow> GDone (Inl e) | None \<Rightarrow> GSave newNamespace, s)) (new_entity X svc [] s)"
| "get_step X svc (GSave ns) s = go_map (\<lambda>s. (GCopy ns, save_namespace svc ns s)) (call_config X s)"
| "get_step X svc (GCopy ns) s = Ret (GPublish ns (GetNormalMapFromSyncMap (service2NamespaceMap (rs_call s))), s)"
| "get_step X svc (GPublish ns mp) s = Ret (GDial ns, publish_map X mp s)"
| "get_step X svc (GDial ns) s =
     (let (r, s) = dial X svc ns s in Ret (case r of Inl e \<Rightarrow> GDone (Inl e) | Inr cc \<Rightarrow> GLookAgain cc, s))"
| "get_step X svc (GLookAgain cc) s =
     Ret (case GetConnFromServiceMap (rs_conns s) svc of Inl _ \<Rightarrow> GKeep cc | Inr _ \<Rightarrow> GDone (Inr cc), s)"
| "get_step X svc (GKeep cc) s = Ret (GDone (Inr cc), store_conn svc cc s)"
| "get_step X svc (GDone r) s = Ret (GDone r, s)"

primrec is_done :: "'conn get_pc \<Rightarrow> bool" where
  "is_done GLook = False"
| "is_done GAsk = False"
| "is_done GFind = False"
| "is_done (GSave ns) = False"
| "is_done (GCopy ns) = False"
| "is_done (GPublish ns mp) = False"
| "is_done (GDial ns) = False"
| "is_done (GLookAgain cc) = False"
| "is_done (GKeep cc) = False"
| "is_done (GDone r) = True"

section \<open>The goroutine that delivers the shared map\<close>

datatype watch_pc =
    WIdle
  | WDelete ns_map "string list"   \<comment> \<open>in \<open>DeleteByServiceKeys\<close>, with the keys left\<close>
  | WStore ns_map                  \<comment> \<open>in \<open>StorSyncMapFromNormalMap\<close>, with the entries left\<close>

definition watch_receive :: "ns_decoder \<Rightarrow> string \<Rightarrow> 'conn call_state \<Rightarrow> watch_pc" where
  "watch_receive dec value s =
     (if value \<noteq> [] then
        let tmpMap = fst (dec value);
            oldMap = GetNormalMapFromSyncMap (service2NamespaceMap s);
            (diffMap, diffKeys) = diff_maps oldMap tmpMap
        in WDelete diffMap diffKeys
      else WIdle)"

fun watch_step :: "watch_pc \<Rightarrow> 'conn call_state \<Rightarrow> watch_pc \<times> 'conn call_state" where
  "watch_step WIdle s = (WIdle, s)"
| "watch_step (WDelete d (k # ks)) s = (WDelete d ks, s\<lparr>serviceName2ConnMap := sm_Delete k (serviceName2ConnMap s)\<rparr>)"
| "watch_step (WDelete d []) s = (WStore d, s)"
| "watch_step (WStore ((k, v) # d)) s =
     (WStore d, s\<lparr>service2NamespaceMap := sm_Store (StrVal k) (StrVal v) (service2NamespaceMap s)\<rparr>)"
| "watch_step (WStore []) s = (WIdle, s)"

section \<open>All of them\<close>

definition set_call :: "'conn call_state \<Rightarrow> ('w, 'conn, 'cfg, 'cl) rpc_state \<Rightarrow> ('w, 'conn, 'cfg, 'cl) rpc_state" where
  "set_call a s = s\<lparr>rs_nacos := (rs_nacos s)\<lparr>nc_app := a\<rparr>\<rparr>"

lemma set_call_same [simp]: "set_call (rs_call s) s = s"
  by (simp add: set_call_def)

type_synonym 'conn getters = "(string \<times> 'conn get_pc) list"

inductive get_race ::
    "('w, 'conn, 'cfg, 'cl) rpc_env \<Rightarrow> 'conn getters \<times> ('w, 'conn, 'cfg, 'cl) rpc_state \<Rightarrow>
     'conn getters \<times> ('w, 'conn, 'cfg, 'cl) rpc_state \<Rightarrow> bool"
    for X where
  spawn: "get_race X (gs, s) (gs @ [(svc, GLook)], s)"
| advance: "i < length gs \<Longrightarrow> gs ! i = (svc, pc) \<Longrightarrow> \<not> is_done pc \<Longrightarrow> get_step X svc pc s = Ret (pc', s') \<Longrightarrow>
    get_race X (gs, s) (gs[i := (svc, pc')], s')"

type_synonym ('w, 'conn, 'cfg, 'cl) conn_state =
  "'conn getters \<times> watch_pc \<times> ('w, 'conn, 'cfg, 'cl) rpc_state"

inductive conn_race ::
    "('w, 'conn, 'cfg, 'cl) rpc_env \<Rightarrow> ('w, 'conn, 'cfg, 'cl) conn_state \<Rightarrow> ('w, 'conn, 'cfg, 'cl) conn_state \<Rightarrow> bool"
    for X where
  get: "get_race X (gs, s) (gs', s') \<Longrightarrow> conn_race X (gs, w, s) (gs', w, s')"
| receive: "conn_race X (gs, WIdle, s) (gs, watch_receive (re_dec X) v (rs_call s), s)"
| deliver: "w \<noteq> WIdle \<Longrightarrow> watch_step w (rs_call s) = (w', a) \<Longrightarrow> conn_race X (gs, w, s) (gs, w', set_call a s)"

abbreviation get_races where "get_races X \<equiv> (get_race X)\<^sup>*\<^sup>*"
abbreviation conn_races where "conn_races X \<equiv> (conn_race X)\<^sup>*\<^sup>*"

section \<open>Each of them alone\<close>

text \<open>What \<open>GetConn\<close> still does from each of its points.\<close>

definition look_and_keep ::
    "string \<Rightarrow> 'conn \<Rightarrow> ('w, 'conn, 'cfg, 'cl) rpc_state \<Rightarrow> ((gerr + 'conn) \<times> ('w, 'conn, 'cfg, 'cl) rpc_state) go" where
  "look_and_keep svc cc s =
     Ret (Inr cc, case GetConnFromServiceMap (rs_conns s) svc of Inl _ \<Rightarrow> store_conn svc cc s | Inr _ \<Rightarrow> s)"

definition dial_and_keep ::
    "('w, 'conn, 'cfg, 'cl) rpc_env \<Rightarrow> string \<Rightarrow> (gerr + 'conn) \<times> ('w, 'conn, 'cfg, 'cl) rpc_state \<Rightarrow>
     ((gerr + 'conn) \<times> ('w, 'conn, 'cfg, 'cl) rpc_state) go" where
  "dial_and_keep X svc = (\<lambda>(r, s). case r of Inl e \<Rightarrow> Ret (Inl e, s) | Inr cc \<Rightarrow> look_and_keep svc cc s)"

fun get_rest ::
    "('w, 'conn, 'cfg, 'cl) rpc_env \<Rightarrow> string \<Rightarrow> 'conn get_pc \<Rightarrow> ('w, 'conn, 'cfg, 'cl) rpc_state \<Rightarrow>
     ((gerr + 'conn) \<times> ('w, 'conn, 'cfg, 'cl) rpc_state) go" where
  "get_rest X svc GLook s = GetConn X svc s"
| "get_rest X svc GAsk s = go_bind (DialWrapper X svc s) (dial_and_keep X svc)"
| "get_rest X svc GFind s =
     go_bind (new_entity X svc [] s) (\<lambda>((_, ns, err), s).
       case err of
         Some e \<Rightarrow> Ret (Inl e, s)
       | None \<Rightarrow> go_bind (set_namespace X svc ns s) (\<lambda>s. dial_and_keep X svc (dial X svc ns s)))"
| "get_rest X svc (GSave ns) s = go_bind (set_namespace X svc ns s) (\<lambda>s. dial_and_keep X svc (dial X svc ns s))"
| "get_rest X svc (GCopy ns) s =
     (let s = publish_map X (GetNormalMapFromSyncMap (service2NamespaceMap (rs_call s))) s
      in dial_and_keep X svc (dial X svc ns s))"
| "get_rest X svc (GPublish ns mp) s = dial_and_keep X svc (dial X svc ns (publish_map X mp s))"
| "get_rest X svc (GDial ns) s = dial_and_keep X svc (dial X svc ns s)"
| "get_rest X svc (GLookAgain cc) s = look_and_keep svc cc s"
| "get_rest X svc (GKeep cc) s = Ret (Inr cc, store_conn svc cc s)"
| "get_rest X svc (GDone r) s = Ret (r, s)"

lemma set_namespace_split:
  "set_namespace X svc ns s =
     go_map (\<lambda>s. let s = save_namespace svc ns s
                 in publish_map X (GetNormalMapFromSyncMap (service2NamespaceMap (rs_call s))) s) (call_config X s)"
  unfolding set_namespace_def
  by (cases "call_config X s")
    (simp_all add: SetServiceNamespace_def save_namespace_def publish_map_def set_world_def Let_def)

lemma go_bind_map: "go_bind (go_map f m) k = go_bind m (\<lambda>x. k (f x))"
  by (cases m) simp_all

lemma GetConn_rest:
  "GetConn X svc s =
     (case GetConnFromServiceMap (rs_conns s) svc of
        Inr myConn \<Rightarrow> Ret (Inr myConn, s)
      | Inl err \<Rightarrow> go_bind (DialWrapper X svc s) (dial_and_keep X svc))"
  unfolding GetConn_def dial_and_keep_def look_and_keep_def by (rule refl)

lemma dial_and_keep_Inl [simp]: "dial_and_keep X svc (Inl e, s) = Ret (Inl e, s)"
  by (simp add: dial_and_keep_def)

lemma get_rest_step: "get_rest X svc pc s = go_bind (get_step X svc pc s) (\<lambda>(pc', s'). get_rest X svc pc' s')"
proof (cases pc)
  case GLook
  then show ?thesis
    by (cases "GetConnFromServiceMap (rs_conns s) svc") (simp_all add: GetConn_rest)
next
  case GAsk
  then show ?thesis
    by (cases "call_config X s")
      (auto simp: DialWrapper_def Let_def go_bind_assoc go_bind_map split_def fun_eq_iff
        intro!: arg_cong2[of _ _ _ _ go_bind] split: option.split)
next
  case GFind
  then show ?thesis by (cases "new_entity X svc [] s") (auto split: option.split)
next
  case (GSave ns)
  then show ?thesis by (cases "call_config X s") (simp_all add: set_namespace_split Let_def)
next
  case (GDial ns)
  then show ?thesis by (auto simp: dial_and_keep_def split: prod.split sum.split)
next
  case (GLookAgain cc)
  then show ?thesis by (simp add: look_and_keep_def split: sum.split)
qed simp_all

primrec get_rank :: "'conn get_pc \<Rightarrow> nat" where
  "get_rank GLook = 9"
| "get_rank GAsk = 8"
| "get_rank GFind = 7"
| "get_rank (GSave ns) = 6"
| "get_rank (GCopy ns) = 5"
| "get_rank (GPublish ns mp) = 4"
| "get_rank (GDial ns) = 3"
| "get_rank (GLookAgain cc) = 2"
| "get_rank (GKeep cc) = 1"
| "get_rank (GDone r) = 0"

lemma get_rank_step: "get_step X svc pc s = Ret (pc', s') \<Longrightarrow> \<not> is_done pc \<Longrightarrow> get_rank pc' < get_rank pc"
  by (cases pc) (auto simp: go_simps Let_def split: sum.splits prod.splits option.splits if_splits)

primrec get_result :: "'conn get_pc \<Rightarrow> (gerr + 'conn) option" where
  "get_result GLook = None"
| "get_result GAsk = None"
| "get_result GFind = None"
| "get_result (GSave ns) = None"
| "get_result (GCopy ns) = None"
| "get_result (GPublish ns mp) = None"
| "get_result (GDial ns) = None"
| "get_result (GLookAgain cc) = None"
| "get_result (GKeep cc) = None"
| "get_result (GDone r) = Some r"

lemma get_result_iff: "get_result pc = Some r \<longleftrightarrow> pc = GDone r" "get_result pc = None \<longleftrightarrow> \<not> is_done pc"
  by (cases pc; auto)+

interpretation getting: routine "get_step X svc" get_result "get_rest X svc" get_rank
  by unfold_locales (use get_rest_step get_rank_step in \<open>auto simp: get_result_iff\<close>)

lemma get_among_others:
  assumes "(own_step (get_step X svc) get_result)\<^sup>*\<^sup>* (pc, s) (pc', s')" and "i < length gs" and "gs ! i = (svc, pc)"
  shows "get_races X (gs, s) (gs[i := (svc, pc')], s')"
  using assms(1)
proof (induction rule: rtranclp_induct2)
  case refl
  have "gs[i := (svc, pc)] = gs" by (metis assms(3) list_update_id)
  then show ?case by simp
next
  case (step pc1 s1 pc2 s2)
  then have "\<not> is_done pc1" "get_step X svc pc1 s1 = Ret (pc2, s2)" by (auto elim: own_stepE simp: get_result_iff)
  then have "get_race X (gs[i := (svc, pc1)], s1) (gs[i := (svc, pc1), i := (svc, pc2)], s2)"
    by (intro advance[where pc = pc1]) (simp_all add: assms(2))
  with step.IH show ?case by (simp add: rtranclp.rtrancl_into_rtrancl)
qed

text \<open>
  Left alone, a goroutine returns what \<open>GetConn\<close> returns and leaves the state it leaves, and it returns if \<open>GetConn\<close>
  does.
\<close>

lemma get_alone:
  assumes "i < length gs" and "gs ! i = (svc, pc)" and "get_rest X svc pc s = Ret (r, s')"
  shows "get_races X (gs, s) (gs[i := (svc, GDone r)], s')"
  using getting.reaches_end[OF assms(3)] get_among_others[OF _ assms(1,2)] by (auto simp: get_result_iff)

lemma get_races_length: "get_races X (gs, s) (gs', s') \<Longrightarrow> length gs \<le> length gs'"
  by (induction rule: rtranclp_induct2) (auto elim: get_race.cases)

lemma get_rest_races:
  assumes "get_races X ([(svc, pc)], s) ([(svc, pc')], s')"
  shows "get_rest X svc pc s = get_rest X svc pc' s'"
  using assms
proof (induction "[(svc, pc')]" s' arbitrary: pc' rule: rtranclp_induct2)
  case refl
  then show ?case by simp
next
  case (step gs s1 s2)
  from step(2) show ?case
  proof (cases rule: get_race.cases)
    case (spawn svc')
    then have "gs = []" by (cases gs) simp_all
    with get_races_length[OF step(1)] show ?thesis by simp
  next
    case (advance i svc' pc1 pc2)
    have "length gs = length [(svc, pc')]" unfolding advance(1) by simp
    then have i: "i = 0" and gs: "gs = [(svc', pc1)]" using advance(2,3) by (auto simp: length_Suc_conv)
    with advance(1) have eq: "svc' = svc" "pc2 = pc'" by simp_all
    have "get_rest X svc pc s = get_rest X svc pc1 s1" using step(3) gs eq by simp
    also have "\<dots> = get_rest X svc pc' s2" unfolding get_rest_step[of X svc pc1 s1] using advance(5) eq by simp
    finally show ?thesis .
  qed
qed

lemma get_alone_iff:
  "get_races X ([(svc, GLook)], s) ([(svc, GDone r)], s') \<longleftrightarrow> GetConn X svc s = Ret (r, s')"
  using get_alone[of 0 "[(svc, GLook)]" svc GLook X s r s'] get_rest_races[of X svc GLook s "GDone r" s'] by auto

text \<open>Left alone, the delivery does what the handler does.\<close>

lemma watch_deletes:
  "conn_races X (gs, WDelete d ks, s)
     (gs, WStore d, set_call ((rs_call s)\<lparr>serviceName2ConnMap := DeleteByServiceKeys ks (rs_conns s)\<rparr>) s)"
proof (induction ks arbitrary: s)
  case Nil
  have "conn_race X (gs, WDelete d [], s) (gs, WStore d, set_call (rs_call s) s)" by (rule deliver) simp_all
  then show ?case by (simp add: DeleteByServiceKeys_def)
next
  case (Cons k ks)
  let ?a = "(rs_call s)\<lparr>serviceName2ConnMap := sm_Delete k (rs_conns s)\<rparr>"
  have "conn_race X (gs, WDelete d (k # ks), s) (gs, WDelete d ks, set_call ?a s)" by (rule deliver) simp_all
  with Cons[of "set_call ?a s"] show ?case
    by (simp add: DeleteByServiceKeys_def set_call_def converse_rtranclp_into_rtranclp)
qed

lemma watch_stores:
  "conn_races X (gs, WStore d, s) (gs, WIdle, set_call ((rs_call s)
     \<lparr>service2NamespaceMap := StorSyncMapFromNormalMap d (service2NamespaceMap (rs_call s))\<rparr>) s)"
proof (induction d arbitrary: s)
  case Nil
  have "conn_race X (gs, WStore [], s) (gs, WIdle, set_call (rs_call s) s)" by (rule deliver) simp_all
  then show ?case by (simp add: StorSyncMapFromNormalMap_def)
next
  case (Cons e d)
  obtain k v where e: "e = (k, v)" by (cases e)
  let ?a = "(rs_call s)\<lparr>service2NamespaceMap := sm_Store (StrVal k) (StrVal v) (service2NamespaceMap (rs_call s))\<rparr>"
  have "conn_race X (gs, WStore (e # d), s) (gs, WStore d, set_call ?a s)" unfolding e by (rule deliver) simp_all
  with Cons[of "set_call ?a s"] show ?case
    by (simp add: StorSyncMapFromNormalMap_def set_call_def e converse_rtranclp_into_rtranclp)
qed

lemma watch_alone:
  assumes "call_handler (re_dec X) key v (rs_call s) = Ret a"
  shows "conn_races X (gs, WIdle, s) (gs, WIdle, set_call a s)"
proof -
  define w where "w = watch_receive (re_dec X) v (rs_call s)"
  have first: "conn_race X (gs, WIdle, s) (gs, w, s)" unfolding w_def by (rule receive)
  show ?thesis
  proof (cases "v = []")
    case True
    with assms first show ?thesis by (auto simp: call_handler_def w_def watch_receive_def)
  next
    case False
    obtain d ks where d: "diff_maps (GetNormalMapFromSyncMap (service2NamespaceMap (rs_call s))) (fst (re_dec X v)) = (d, ks)"
      by fastforce
    have "conn_races X (gs, w, s) (gs, WIdle, set_call a s)"
      using rtranclp_trans[OF watch_deletes watch_stores, of X gs d ks s] assms False
      by (auto simp: w_def watch_receive_def d call_handler_def set_call_def)
    with first show ?thesis by simp
  qed
qed

section \<open>A delivery that crosses a request\<close>

lemma getter_alone:
  assumes "GetConn X svc s = Ret (r, s')"
  shows "conn_races X (gs, w, s) (gs @ [(svc, GDone r)], w, s')"
proof -
  have lift: "conn_races X (gs1, w, s1) (gs2, w, s2)" if "get_races X (gs1, s1) (gs2, s2)" for gs1 gs2 s1 s2
    using that by (induction rule: rtranclp_induct2) (auto intro: rtranclp.rtrancl_into_rtrancl get)
  have "get_races X (gs @ [(svc, GLook)], s) ((gs @ [(svc, GLook)])[length gs := (svc, GDone r)], s')"
    by (rule get_alone[where pc = GLook]) (simp_all add: assms)
  then show ?thesis
    using lift spawn[of X gs s svc] by (simp add: converse_rtranclp_into_rtranclp)
qed

lemma GetConn_known:
  assumes "call_once (rs_call s)" and "conn_lookup (rs_conns s) svc = None" and "ns_view (rs_call s) svc = Some ns"
    and "ns \<noteq> []" and "re_Dial X (GetTarget svc ns) (rs_world s) = (Inr cc, w)"
  shows "GetConn X svc s = Ret (Inr cc, store_conn svc cc (set_world w s))"
proof -
  obtain e where e: "GetConnFromServiceMap (rs_conns s) svc = Inl e"
    using assms(2) by (auto simp: conn_lookup_def split: sum.splits)
  have "GetServiceNamespace svc (rs_call s) = ns" using assms(3) by (simp add: GetServiceNamespace_view)
  then show ?thesis
    using assms(4,5) e
    by (simp add: GetConn_rest DialWrapper_def call_config_once[OF assms(1)] dial_def dial_and_keep_def look_and_keep_def)
qed

lemma receive_diff:
  assumes "call_ok a" and "distinct (map fst (fst (dec v)))" and "v \<noteq> []"
  obtains d where "watch_receive dec v a = WDelete d (map fst d)" and "distinct (map fst d)"
    and "map_of d = (\<lambda>k. if map_of (fst (dec v)) k = ns_view a k then None else map_of (fst (dec v)) k)"
proof -
  let ?old = "GetNormalMapFromSyncMap (service2NamespaceMap a)" and ?tmp = "fst (dec v)"
  let ?d = "filter (\<lambda>(k, v). map_of ?old k \<noteq> Some v) ?tmp"
  have "map_of ?old = ns_view a" using assms(1) by (simp add: GetNormalMap_lookup call_ok_def ns_view_def)
  then have "map_of ?d = (\<lambda>k. if map_of ?tmp k = ns_view a k then None else map_of ?tmp k)"
    unfolding map_of_filter_changed[OF assms(2)] by (auto simp: fun_eq_iff map_of_filter_changed[OF assms(2)] split: option.split)
  moreover have "distinct (map fst ?d)" by (rule distinct_map_filter[OF assms(2)])
  moreover have "watch_receive dec v a = WDelete ?d (map fst ?d)"
    using assms(3) by (simp add: watch_receive_def diff_maps_eq[OF assms(2)])
  ultimately show thesis by - (rule that)
qed

text \<open>What the two loops of the handler leave.\<close>

definition without_conns ::
    "string list \<Rightarrow> ('w, 'conn, 'cfg, 'cl) rpc_state \<Rightarrow> ('w, 'conn, 'cfg, 'cl) rpc_state" where
  "without_conns ks s = set_call ((rs_call s)\<lparr>serviceName2ConnMap := DeleteByServiceKeys ks (rs_conns s)\<rparr>) s"

definition with_news :: "ns_map \<Rightarrow> ('w, 'conn, 'cfg, 'cl) rpc_state \<Rightarrow> ('w, 'conn, 'cfg, 'cl) rpc_state" where
  "with_news d s = set_call ((rs_call s)
     \<lparr>service2NamespaceMap := StorSyncMapFromNormalMap d (service2NamespaceMap (rs_call s))\<rparr>) s"

lemma without_conns_effect:
  assumes "client_ok s"
  shows "client_ok (without_conns ks s)" and "ns_view (rs_call (without_conns ks s)) = ns_view (rs_call s)"
    and "conn_lookup (rs_conns (without_conns ks s)) = conn_lookup (rs_conns s) |` (- set ks)"
  using assms
  by (simp_all add: without_conns_def client_ok_def call_ok_def set_call_def sm_ok_delete_keys conn_lookup_delete_keys ns_view_def)

lemma with_news_effect:
  assumes "client_ok s" and "distinct (map fst d)"
  shows "client_ok (with_news d s)" and "ns_view (rs_call (with_news d s)) = ns_view (rs_call s) ++ map_of d"
    and "rs_conns (with_news d s) = rs_conns s"
  using assms
  by (simp_all add: with_news_def client_ok_def call_ok_def set_call_def StorSyncMap_ok ns_view_def str_view_Stor
      fun_eq_iff map_add_def)

lemma handler_without_news:
  assumes "client_ok s" and "distinct (map fst (fst (dec v)))" and "ns_view (rs_call s) ++ map_of (fst (dec v)) = ns_view (rs_call s)"
  shows "\<exists>a. call_handler dec key v (rs_call s) = Ret a \<and>
    ns_view a = ns_view (rs_call s) \<and> conn_lookup (serviceName2ConnMap a) = conn_lookup (rs_conns s)"
  using call_handler_effect[of "rs_call s" dec v "fst (dec v)" "snd (dec v)" key] assms
  by (auto simp: client_ok_def restrict_map_def split: if_splits)

text \<open>
  C10: The handler deletes the connections of the moved services before it stores their new namespaces, so a
  request between the two still finds the old namespace and puts a connection to it back: no call has failed, every
  goroutine has returned, and yet the map names the new namespace and the table leads to the old one. Delivering
  the same content again does not repair it, and \<open>GetConn\<close> keeps handing that connection out.
\<close>

theorem delivery_can_leave_stale:
  assumes "dial_law X" and "dec_law (re_dec X)" and "client_ok s"
    and known: "ns_view (rs_call s) svc = Some old" and "old \<noteq> []"
    and v: "v \<noteq> []" and news: "map_of (fst (re_dec X v)) svc = Some new" and "new \<noteq> old" and "CHR ''.'' \<notin> set new"
    and dials: "\<And>w. \<exists>w'. re_Dial X (GetTarget svc old) w = (Inr cc, w')"
  shows "\<exists>s'. conn_races X ([], WIdle, s) ([(svc, GDone (Inr cc))], WIdle, s') \<and>
    ns_view (rs_call s') = ns_view (rs_call s) ++ map_of (fst (re_dec X v)) \<and>
    re_Target X cc = GetTarget svc old \<and> GetConn X svc s' = Ret (Inr cc, s') \<and>
    \<not> coherent (re_Target X) (directory_of s') \<and>
    (\<exists>a. call_handler (re_dec X) key v (rs_call s') = Ret a \<and>
       ns_view a = ns_view (rs_call s') \<and> conn_lookup (serviceName2ConnMap a) = conn_lookup (rs_conns s'))"
proof -
  have tmp: "distinct (map fst (fst (re_dec X v)))" using assms(2) by (simp add: dec_law_def)
  obtain d where d: "watch_receive (re_dec X) v (rs_call s) = WDelete d (map fst d)" "distinct (map fst d)"
      "map_of d = (\<lambda>k. if map_of (fst (re_dec X v)) k = ns_view (rs_call s) k then None else map_of (fst (re_dec X v)) k)"
    using receive_diff[of "rs_call s" "re_dec X" v] assms(3) tmp v by (auto simp: client_ok_def)
  then have "map_of d svc = Some new" using news known assms(8) by simp
  then have svc: "svc \<in> set (map fst d)" by (metis map_of_eq_None_iff option.distinct(1) set_map)
  define s1 where "s1 = without_conns (map fst d) s"
  note s1 = without_conns_effect[OF assms(3), of "map fst d", folded s1_def]
  obtain w where "re_Dial X (GetTarget svc old) (rs_world s1) = (Inr cc, w)" using dials by blast
  moreover define s2 where "s2 = store_conn svc cc (set_world w s1)"
  ultimately have get: "GetConn X svc s1 = Ret (Inr cc, s2)" and T: "re_Target X cc = GetTarget svc old"
    using GetConn_known[of s1 svc old X cc w] s1 svc known assms(1,5) by (auto simp: client_ok_def dial_law_def)
  have s2: "client_ok s2" "conn_lookup (rs_conns s2) svc = Some cc" "ns_view (rs_call s2) = ns_view (rs_call s)"
    using store_conn_directory[of "set_world w s1" svc cc] s1 by (auto simp: s2_def directory_of_def connect_def)
  define s3 where "s3 = with_news d s2"
  note s3 = with_news_effect[OF s2(1) d(2), folded s3_def]
  have view: "ns_view (rs_call s3) = ns_view (rs_call s) ++ map_of (fst (re_dec X v))"
    by (auto simp: s3 s2 d(3) fun_eq_iff map_add_def split: option.splits)
  have "conn_races X ([], WIdle, s) ([], WDelete d (map fst d), s)" using receive[of X "[]" s v] d(1) by auto
  also have "conn_races X \<dots> ([], WStore d, s1)" unfolding s1_def without_conns_def by (rule watch_deletes)
  also have "conn_races X \<dots> ([(svc, GDone (Inr cc))], WStore d, s2)" using getter_alone[OF get, of "[]"] by simp
  also have "conn_races X \<dots> ([(svc, GDone (Inr cc))], WIdle, s3)" unfolding s3_def with_news_def by (rule watch_stores)
  finally have run: "conn_races X ([], WIdle, s) ([(svc, GDone (Inr cc))], WIdle, s3)" .
  have "ns_view (rs_call s3) svc = Some new" using view news by (simp add: map_add_def)
  then have "coherent (re_Target X) (directory_of s3) \<Longrightarrow> re_Target X cc = GetTarget svc new"
    using s2(2) s3(3) assms(9) by (simp add: coherent_def)
  then have "\<not> coherent (re_Target X) (directory_of s3)" using T assms(8) by (auto simp: GetTarget_def)
  moreover have "GetConn X svc s3 = Ret (Inr cc, s3)" using s2(2) s3(3) by (simp add: GetConn_cached)
  moreover have "ns_view (rs_call s3) ++ map_of (fst (re_dec X v)) = ns_view (rs_call s3)"
    by (auto simp: view fun_eq_iff map_add_def split: option.split)
  ultimately show ?thesis using run view T handler_without_news[where dec = "re_dec X", OF s3(1) tmp] by blast
qed

section \<open>Requests among themselves\<close>

text \<open>
  Two goroutines may ask Kubernetes for the same service. The first answer is remembered under \<open>mapLock\<close>, and since
  a request passes the empty string for the old namespace, which no remembered list contains, the second gets that
  same answer. Of the API this needs that a listing that succeeds is there, and that a service has a namespace.
\<close>

definition list_law :: "('w, 'conn, 'cfg, 'cl) rpc_env \<Rightarrow> bool" where
  "list_law X \<longleftrightarrow> (\<forall>cl w r w'. re_list X cl w = (Inr r, w') \<longrightarrow>
     (\<exists>services. r = Some services \<and> (\<forall>sv \<in> set services. ks_Namespace sv \<noteq> [])))"

definition answer :: "('w, 'conn, 'cfg, 'cl) rpc_state \<Rightarrow> string \<Rightarrow> string option" where
  "answer s svc = (case service2NamespacesMp (rs_k8s s) svc of Some (ns # _) \<Rightarrow> Some ns | _ \<Rightarrow> None)"

definition answers_ok :: "('w, 'conn, 'cfg, 'cl) rpc_state \<Rightarrow> bool" where
  "answers_ok s \<longleftrightarrow> (\<forall>svc nss. service2NamespacesMp (rs_k8s s) svc = Some nss \<longrightarrow> [] \<notin> set nss)"

lemma answer_nonempty: "answers_ok s \<Longrightarrow> answer s svc = Some ns \<Longrightarrow> ns \<noteq> []"
  unfolding answers_ok_def answer_def by (fastforce split: option.splits list.splits)

lemma GetK8sClient_keeps: "GetK8sClient api st = (cl, st') \<Longrightarrow> service2NamespacesMp st' = service2NamespacesMp st"
  by (auto simp: GetK8sClient_def Let_def split: if_splits sum.splits)

lemma lookup_remembers:
  assumes "\<And>cl w r w'. k8s_list cl w = (Inr r, w') \<Longrightarrow>
      \<exists>services. r = Some services \<and> (\<forall>sv \<in> set services. ks_Namespace sv \<noteq> [])"
    and "lookup_services api k8s_list svc [] st w = Ret ((chg, ns, err), st', w')"
  shows "err \<noteq> None \<and> service2NamespacesMp st' = service2NamespacesMp st \<or>
    err = None \<and> (\<exists>nss. service2NamespacesMp st' = (service2NamespacesMp st)(svc \<mapsto> ns # nss) \<and> [] \<notin> set (ns # nss))"
proof -
  obtain cl st1 where c: "GetK8sClient api st = (cl, st1)" by fastforce
  note keep = GetK8sClient_keeps[OF c]
  show ?thesis
  proof (cases cl)
    case None
    with assms(2) c keep show ?thesis by (auto simp: lookup_services_def)
  next
    case (Some clientset)
    obtain r w1 where l: "k8s_list clientset w = (r, w1)" by fastforce
    show ?thesis
    proof (cases r)
      case (Inl e)
      with assms(2) c l Some keep show ?thesis by (auto simp: lookup_services_def)
    next
      case (Inr ss)
      with assms(1) l obtain services where ss: "ss = Some services" "\<forall>sv \<in> set services. ks_Namespace sv \<noteq> []"
        by blast
      let ?nss = "namespaces_of svc services"
      obtain n nss where sorted: "sortNamespaces ?nss [] = n # nss"
        using assms(2) by (cases "sortNamespaces ?nss []") (simp_all add: lookup_services_def c l Some Inr ss Let_def split: if_splits)
      have "set (n # nss) = set ?nss" unfolding sorted[symmetric] by (simp add: sortNamespaces_def)
      then have "[] \<notin> set (n # nss)" using ss(2) by (auto simp: set_namespaces_of)
      with assms(2) sorted keep show ?thesis
        by (simp add: lookup_services_def c l Some Inr ss Let_def) (auto)
    qed
  qed
qed

lemma new_entity_remembers:
  assumes "list_law X" and "answers_ok s" and "new_entity X svc [] s = Ret ((chg, ns, err), s')"
  shows "answers_ok s' \<and> (err = None \<longrightarrow> answer s' svc = Some ns) \<and>
    (\<forall>k n. answer s k = Some n \<longrightarrow> answer s' k = Some n)"
proof -
  obtain k w where e: "GetNewServiceEntity (re_k8s X) (re_list X) svc [] (rs_k8s s) (rs_world s) = Ret ((chg, ns, err), k, w)"
    and s': "rs_k8s s' = k"
    using assms(3) by (auto simp: new_entity_def go_simps)
  show ?thesis
  proof (cases "answer s svc")
    case (Some n)
    then obtain nss where c: "service2NamespacesMp (rs_k8s s) svc = Some (n # nss)"
      by (auto simp: answer_def split: option.splits list.splits)
    moreover from this have "\<not> InArray [] (n # nss)" using assms(2) by (fastforce simp: answers_ok_def)
    ultimately have "err = None \<and> ns = n \<and> k = rs_k8s s" using e by (simp add: GetNewServiceEntity_def)
    with Some s' assms(2) show ?thesis by (simp add: answer_def answers_ok_def)
  next
    case None
    then have "lookup_services (re_k8s X) (re_list X) svc [] (rs_k8s s) (rs_world s) = Ret ((chg, ns, err), k, w)"
      using e by (auto simp: answer_def GetNewServiceEntity_def split: option.splits list.splits)
    from lookup_remembers[OF _ this] assms(1) consider
      "err \<noteq> None" "service2NamespacesMp k = service2NamespacesMp (rs_k8s s)"
    | nss where "err = None" "service2NamespacesMp k = (service2NamespacesMp (rs_k8s s))(svc \<mapsto> ns # nss)" "[] \<notin> set (ns # nss)"
      unfolding list_law_def by blast
    then show ?thesis
      using assms(2) None s' by cases (auto simp: answer_def answers_ok_def)
  qed
qed

text \<open>
  \<open>d0\<close> is the directory the goroutines start from. A service is settled at the namespace the map has for it when no
  connection was there at the start and the map had it then, or else Kubernetes has answered it.
\<close>

definition unknown :: "'conn directory \<Rightarrow> string \<Rightarrow> bool" where
  "unknown d0 svc \<longleftrightarrow> dir_ns d0 svc = None \<or> dir_ns d0 svc = Some []"

definition settled :: "'conn directory \<Rightarrow> ('w, 'conn, 'cfg, 'cl) rpc_state \<Rightarrow> string \<Rightarrow> string \<Rightarrow> bool" where
  "settled d0 s svc ns \<longleftrightarrow> dir_conn d0 svc = None \<and> ns_view (rs_call s) svc = Some ns \<and>
     (if unknown d0 svc then answer s svc = Some ns else dir_ns d0 svc = Some ns)"

definition reached ::
    "('conn \<Rightarrow> string) \<Rightarrow> 'conn directory \<Rightarrow> ('w, 'conn, 'cfg, 'cl) rpc_state \<Rightarrow> string \<Rightarrow> 'conn \<Rightarrow> bool" where
  "reached T d0 s svc cc \<longleftrightarrow> dir_conn d0 svc = Some cc \<or> (\<exists>ns. settled d0 s svc ns \<and> T cc = GetTarget svc ns)"

definition shared_ok :: "('conn \<Rightarrow> string) \<Rightarrow> 'conn directory \<Rightarrow> ('w, 'conn, 'cfg, 'cl) rpc_state \<Rightarrow> bool" where
  "shared_ok T d0 s \<longleftrightarrow> client_ok s \<and> answers_ok s \<and>
     (\<forall>svc. ns_view (rs_call s) svc = dir_ns d0 svc \<or> (\<exists>ns. settled d0 s svc ns)) \<and>
     (\<forall>svc. case conn_lookup (rs_conns s) svc of
        None \<Rightarrow> dir_conn d0 svc = None
      | Some cc \<Rightarrow> reached T d0 s svc cc)"

primrec pc_ok ::
    "('conn \<Rightarrow> string) \<Rightarrow> 'conn directory \<Rightarrow> ('w, 'conn, 'cfg, 'cl) rpc_state \<Rightarrow> string \<Rightarrow> 'conn get_pc \<Rightarrow> bool" where
  "pc_ok T d0 s svc GLook = True"
| "pc_ok T d0 s svc GAsk = (dir_conn d0 svc = None)"
| "pc_ok T d0 s svc GFind = (dir_conn d0 svc = None \<and> unknown d0 svc)"
| "pc_ok T d0 s svc (GSave ns) = (dir_conn d0 svc = None \<and> unknown d0 svc \<and> answer s svc = Some ns)"
| "pc_ok T d0 s svc (GCopy ns) = settled d0 s svc ns"
| "pc_ok T d0 s svc (GPublish ns mp) = settled d0 s svc ns"
| "pc_ok T d0 s svc (GDial ns) = settled d0 s svc ns"
| "pc_ok T d0 s svc (GLookAgain cc) = (\<exists>ns. settled d0 s svc ns \<and> T cc = GetTarget svc ns)"
| "pc_ok T d0 s svc (GKeep cc) = (\<exists>ns. settled d0 s svc ns \<and> T cc = GetTarget svc ns)"
| "pc_ok T d0 s svc (GDone r) = (case r of Inl e \<Rightarrow> True | Inr cc \<Rightarrow> reached T d0 s svc cc)"

text \<open>What a goroutine relies on is kept by the others.\<close>

definition grows :: "'conn directory \<Rightarrow> ('w, 'conn, 'cfg, 'cl) rpc_state \<Rightarrow> ('w, 'conn, 'cfg, 'cl) rpc_state \<Rightarrow> bool" where
  "grows d0 s s' \<longleftrightarrow> (\<forall>k n. settled d0 s k n \<longrightarrow> settled d0 s' k n) \<and>
     (\<forall>k n. answer s k = Some n \<longrightarrow> answer s' k = Some n)"

lemma reached_grows: "grows d0 s s' \<Longrightarrow> reached T d0 s svc cc \<Longrightarrow> reached T d0 s' svc cc"
  unfolding grows_def reached_def by blast

lemma pc_ok_grows: "grows d0 s s' \<Longrightarrow> pc_ok T d0 s svc pc \<Longrightarrow> pc_ok T d0 s' svc pc"
  by (cases pc) (auto simp: grows_def intro: reached_grows[unfolded grows_def] split: sum.splits)

lemma settled_nonempty: "answers_ok s \<Longrightarrow> settled d0 s svc ns \<Longrightarrow> ns \<noteq> []"
  by (auto simp: settled_def unknown_def dest: answer_nonempty split: if_splits)

lemma settled_unique: "settled d0 s svc ns \<Longrightarrow> settled d0 s svc ns' \<Longrightarrow> ns = ns'"
  by (simp add: settled_def)

lemma settled_same:
  assumes "ns_view (rs_call s') = ns_view (rs_call s)" and "rs_k8s s' = rs_k8s s"
  shows "settled d0 s' = settled d0 s" and "reached T d0 s' = reached T d0 s" and "answer s' = answer s"
    and "answers_ok s' = answers_ok s" and "grows d0 s s'"
proof -
  show a: "answer s' = answer s" using assms by (simp add: answer_def fun_eq_iff)
  then show st: "settled d0 s' = settled d0 s" using assms by (simp add: settled_def fun_eq_iff)
  then show "reached T d0 s' = reached T d0 s" by (simp add: reached_def fun_eq_iff)
  show "answers_ok s' = answers_ok s" using assms by (simp add: answers_ok_def)
  show "grows d0 s s'" using a st by (simp add: grows_def)
qed

lemma shared_same:
  assumes "rs_call s' = rs_call s" and "rs_k8s s' = rs_k8s s"
  shows "shared_ok T d0 s' = shared_ok T d0 s" and "grows d0 s s'"
proof -
  have "ns_view (rs_call s') = ns_view (rs_call s)" using assms(1) by simp
  note same = settled_same[OF this assms(2)]
  show "shared_ok T d0 s' = shared_ok T d0 s" using assms by (simp add: shared_ok_def client_ok_def same(1-4) cong: option.case_cong)
  show "grows d0 s s'" by (rule same(5))
qed

lemma shared_grown:
  assumes "shared_ok T d0 s" and g: "grows d0 s s'" and "rs_conns s' = rs_conns s"
    and "client_ok s'" and "answers_ok s'" and "\<And>k. ns_view (rs_call s') k = dir_ns d0 k \<or> (\<exists>n. settled d0 s' k n)"
  shows "shared_ok T d0 s'"
proof -
  have "case conn_lookup (rs_conns s) k of None \<Rightarrow> dir_conn d0 k = None | Some cc \<Rightarrow> reached T d0 s' k cc" for k
    using assms(1) reached_grows[OF g] by (auto simp: shared_ok_def split: option.split dest!: spec[of _ k])
  with assms(3-6) show ?thesis by (simp add: shared_ok_def)
qed

lemma shared_found:
  assumes "shared_ok T d0 s" and "rs_call s' = rs_call s" and "answers_ok s'"
    and "\<forall>k n. answer s k = Some n \<longrightarrow> answer s' k = Some n"
  shows "shared_ok T d0 s' \<and> grows d0 s s'"
proof -
  have g: "grows d0 s s'" using assms(2,4) by (simp add: grows_def settled_def)
  have "ns_view (rs_call s) svc = dir_ns d0 svc \<or> (\<exists>ns. settled d0 s' svc ns)" for svc
    using assms(1) g unfolding shared_ok_def grows_def by blast
  then have "shared_ok T d0 s'"
    using assms by (intro shared_grown[OF assms(1) g]) (auto simp: shared_ok_def client_ok_def)
  with g show ?thesis by simp
qed

lemma shared_saved:
  assumes "shared_ok T d0 s" and "pc_ok T d0 s svc (GSave ns)"
  shows "shared_ok T d0 (save_namespace svc ns s) \<and> grows d0 s (save_namespace svc ns s) \<and>
    settled d0 (save_namespace svc ns s) svc ns"
proof -
  let ?s = "save_namespace svc ns s"
  have k: "rs_k8s ?s = rs_k8s s" "rs_conns ?s = rs_conns s" by (simp_all add: save_namespace_def)
  have ok: "client_ok ?s" and v: "ns_view (rs_call ?s) = (ns_view (rs_call s))(svc \<mapsto> ns)"
    using assms(1) by (auto simp: shared_ok_def client_ok_def call_ok_def save_namespace_def sm.inv_store ns_view_def
        str_view_def fun_eq_iff sm_Load_Store)
  have a: "answer ?s = answer s" by (simp add: answer_def fun_eq_iff k)
  have now: "settled d0 ?s svc ns" using assms(2) by (simp add: settled_def v a)
  have g: "grows d0 s ?s" using assms(2) by (auto simp: grows_def settled_def v a split: if_splits)
  have "ns_view (rs_call ?s) k = dir_ns d0 k \<or> (\<exists>n. settled d0 ?s k n)" for k
  proof (cases "k = svc")
    case False
    then have "ns_view (rs_call ?s) k = ns_view (rs_call s) k" by (simp add: v)
    then show ?thesis using assms(1) g unfolding shared_ok_def grows_def by metis
  qed (use now in blast)
  then have "shared_ok T d0 ?s"
    using assms(1) ok k by (intro shared_grown[OF assms(1) g]) (auto simp: shared_ok_def answers_ok_def)
  with now g show ?thesis by simp
qed

lemma shared_kept:
  assumes "shared_ok T d0 s" and "settled d0 s svc ns" and "T cc = GetTarget svc ns"
  shows "shared_ok T d0 (store_conn svc cc s) \<and> grows d0 s (store_conn svc cc s)"
proof -
  let ?s = "store_conn svc cc s"
  note same = settled_same[OF store_conn_simps(1,2)[of svc cc s]]
  have ok: "client_ok s" using assms(1) by (simp add: shared_ok_def)
  then have "conn_lookup (rs_conns ?s) = (conn_lookup (rs_conns s))(svc \<mapsto> cc)"
    by (simp add: conns.lookup_store client_ok_def call_ok_def)
  moreover have "reached T d0 s svc cc" using assms(2,3) by (auto simp: reached_def)
  ultimately show ?thesis
    using assms(1) store_conn_directory(2)[OF ok, of svc cc] same(5)
    by (simp add: shared_ok_def same(1-4) cong: option.case_cong)
qed

text \<open>One step of one goroutine.\<close>

lemma get_step_ok:
  assumes laws: "dial_law X" "list_law X" and ok: "shared_ok (re_Target X) d0 s" and pc: "pc_ok (re_Target X) d0 s svc pc"
    and st: "get_step X svc pc s = Ret (pc', s')"
  shows "shared_ok (re_Target X) d0 s' \<and> pc_ok (re_Target X) d0 s' svc pc' \<and> grows d0 s s'"
proof -
  have once: "call_config X t = Ret t" if "client_ok t" for t
    using that by (simp add: client_ok_def call_config_once)
  have same: "grows d0 s s" by (simp add: grows_def)
  have looked: "case GetConnFromServiceMap (rs_conns s) svc of Inl e \<Rightarrow> dir_conn d0 svc = None
      | Inr cc \<Rightarrow> reached (re_Target X) d0 s svc cc"
    using ok by (auto simp: shared_ok_def conn_lookup_def split: sum.splits dest!: spec[of _ svc])
  show ?thesis
  proof (cases pc)
    case GLook
    with st looked ok same show ?thesis by (auto split: sum.splits)
  next
    case GAsk
    have v: "ns_view (rs_call s) svc = dir_ns d0 svc \<or> (\<exists>ns. settled d0 s svc ns)" and a: "answers_ok s" and c: "client_ok s"
      using ok by (auto simp: shared_ok_def)
    have "s' = s" and pc': "pc' = (if GetServiceNamespace svc (rs_call s) = [] then GFind else GDial (GetServiceNamespace svc (rs_call s)))"
      using st by (auto simp: GAsk once[OF c] Let_def)
    moreover have "pc_ok (re_Target X) d0 s svc pc'"
    proof (cases "GetServiceNamespace svc (rs_call s) = []")
      case True
      then have "unknown d0 svc"
        using v settled_nonempty[OF a] by (auto simp: GetServiceNamespace_view unknown_def settled_def split: option.splits)
      with True pc show ?thesis by (simp add: pc' GAsk)
    next
      case False
      then have "ns_view (rs_call s) svc = Some (GetServiceNamespace svc (rs_call s))"
        by (simp add: GetServiceNamespace_view split: option.splits)
      with False v pc have "settled d0 s svc (GetServiceNamespace svc (rs_call s))"
        by (auto simp: settled_def unknown_def GAsk)
      with False show ?thesis by (simp add: pc')
    qed
    ultimately show ?thesis using ok same by simp
  next
    case GFind
    then obtain chg ns err where e: "new_entity X svc [] s = Ret ((chg, ns, err), s')"
      and pc': "pc' = (case err of Some e \<Rightarrow> GDone (Inl e) | None \<Rightarrow> GSave ns)"
      using st by (auto simp: go_simps)
    have "answers_ok s" using ok by (simp add: shared_ok_def)
    note r = new_entity_remembers[OF laws(2) this e]
    have "shared_ok (re_Target X) d0 s' \<and> grows d0 s s'"
      using r by (intro shared_found[OF ok new_entity_keeps[OF e]]) auto
    with r pc show ?thesis by (auto simp: pc' GFind split: option.split)
  next
    case (GSave ns)
    have "client_ok s" using ok by (simp add: shared_ok_def)
    then have "s' = save_namespace svc ns s" "pc' = GCopy ns" using st by (simp_all add: GSave once)
    then show ?thesis using shared_saved[OF ok pc[unfolded GSave]] by simp
  next
    case (GCopy ns)
    with st pc ok same show ?thesis by auto
  next
    case (GPublish ns mp)
    then have s': "s' = publish_map X mp s" "pc' = GDial ns" using st by simp_all
    then have k: "rs_call s' = rs_call s" "rs_k8s s' = rs_k8s s" by (simp_all add: publish_map_def)
    show ?thesis using shared_same[OF k] ok pc_ok_grows[OF shared_same(2)[OF k] pc] by (simp add: s'(2) GPublish)
  next
    case (GDial ns)
    then obtain r where d: "dial X svc ns s = (r, s')" and pc': "pc' = (case r of Inl e \<Rightarrow> GDone (Inl e) | Inr cc \<Rightarrow> GLookAgain cc)"
      using st by (auto split: prod.splits)
    have k: "rs_call s' = rs_call s" "rs_k8s s' = rs_k8s s" using dial_keeps[OF d] by simp_all
    have "settled d0 s' svc ns" using pc_ok_grows[OF shared_same(2)[OF k] pc] by (simp add: GDial)
    then have "pc_ok (re_Target X) d0 s' svc pc'"
      using dial_target[OF laws(1)] d by (auto simp: pc' split: sum.split)
    then show ?thesis using shared_same[OF k] ok by simp
  next
    case (GLookAgain cc)
    with st pc ok same show ?thesis by (auto simp: reached_def split: sum.splits)
  next
    case (GKeep cc)
    then obtain ns where n: "settled d0 s svc ns" "re_Target X cc = GetTarget svc ns" using pc by auto
    have s': "s' = store_conn svc cc s" "pc' = GDone (Inr cc)" using st by (simp_all add: GKeep)
    from shared_kept[OF ok n] have "settled d0 s' svc ns" using n by (simp add: s'(1) grows_def)
    then show ?thesis using shared_kept[OF ok n] n by (auto simp: s' reached_def)
  next
    case (GDone r)
    with st pc ok same show ?thesis by auto
  qed
qed

definition race_ok :: "('conn \<Rightarrow> string) \<Rightarrow> 'conn directory \<Rightarrow> 'conn getters \<times> ('w, 'conn, 'cfg, 'cl) rpc_state \<Rightarrow> bool" where
  "race_ok T d0 = (\<lambda>(gs, s). shared_ok T d0 s \<and> (\<forall>(svc, pc) \<in> set gs. pc_ok T d0 s svc pc))"

lemma get_race_ok:
  assumes "dial_law X" and "list_law X" and "get_race X g g'" and "race_ok (re_Target X) d0 g"
  shows "race_ok (re_Target X) d0 g'"
  using assms(3)
proof (cases rule: get_race.cases)
  case (spawn gs s svc)
  with assms(4) show ?thesis by (auto simp: race_ok_def)
next
  case (advance i gs svc pc s pc' s')
  then have "(svc, pc) \<in> set gs" by (metis nth_mem)
  with assms(4) advance(1) have "shared_ok (re_Target X) d0 s" "pc_ok (re_Target X) d0 s svc pc"
    by (auto simp: race_ok_def)
  from get_step_ok[OF assms(1,2) this advance(6)]
  have r: "shared_ok (re_Target X) d0 s'" "pc_ok (re_Target X) d0 s' svc pc'" "grows d0 s s'" by auto
  have "pc_ok (re_Target X) d0 s' k p" if "(k, p) \<in> set (gs[i := (svc, pc')])" for k p
  proof -
    have "(k, p) = (svc, pc') \<or> (k, p) \<in> set gs" using that set_update_subset_insert by fastforce
    then show ?thesis using r(2) assms(4) by (auto simp: race_ok_def advance(1) intro: pc_ok_grows[OF r(3)])
  qed
  with r(1) show ?thesis by (auto simp: race_ok_def advance(2))
qed

lemma get_races_ok:
  assumes "get_races X g g'" and "dial_law X" and "list_law X" and "race_ok (re_Target X) d0 g"
  shows "race_ok (re_Target X) d0 g'"
  using assms(1) by (induction rule: rtranclp_induct) (use assms(2-4) get_race_ok in blast)+

lemma race_ok_start:
  assumes "client_ok s" and "answers_ok s"
  shows "race_ok T (directory_of s) ([], s)"
  using assms by (simp add: race_ok_def shared_ok_def reached_def split: option.split)

lemma shared_ok_coherent:
  assumes "coherent T d0" and "shared_ok T d0 s"
  shows "coherent T (directory_of s)"
  unfolding coherent_def directory_of_simps
proof (intro allI impI)
  fix svc ns cc
  assume n: "ns_view (rs_call s) svc = Some ns" and c: "conn_lookup (rs_conns s) svc = Some cc" and dot: "CHR ''.'' \<notin> set ns"
  have "reached T d0 s svc cc" using assms(2) c unfolding shared_ok_def by (metis option.simps(5))
  then consider "dir_conn d0 svc = Some cc" | n' where "settled d0 s svc n'" "T cc = GetTarget svc n'"
    by (auto simp: reached_def)
  then show "T cc = GetTarget svc ns"
  proof cases
    case 1
    then have "\<not> settled d0 s svc n'" for n' by (simp add: settled_def)
    then have "dir_ns d0 svc = Some ns" using assms(2) n unfolding shared_ok_def by metis
    with 1 assms(1) dot show ?thesis by (simp add: coherent_def)
  next
    case 2
    with n show ?thesis by (simp add: settled_def)
  qed
qed

lemma reached_handed:
  "reached T (directory_of s) s' svc cc \<Longrightarrow>
    conn_lookup (rs_conns s) svc = Some cc \<or> T cc = GetTarget svc (GetServiceNamespace svc (rs_call s'))"
  by (auto simp: reached_def settled_def GetServiceNamespace_view)

text \<open>
  C8: Any number of concurrent requests keep the connection table coherent, also when several of them find the
  same service unknown, ask Kubernetes, record and publish its namespace and dial it: every connection in the
  table leads to the namespace the map has for its service, and every connection that a request has returned is
  the one that was there before, or leads to that namespace as well.
\<close>

theorem requests_stay_coherent:
  assumes "dial_law X" and "list_law X" and "client_ok s" and "answers_ok s"
    and "coherent (re_Target X) (directory_of s)" and "get_races X ([], s) (gs, s')"
  shows "coherent (re_Target X) (directory_of s') \<and>
    (\<forall>svc cc. (svc, GDone (Inr cc)) \<in> set gs \<longrightarrow>
       conn_lookup (rs_conns s) svc = Some cc \<or> re_Target X cc = GetTarget svc (GetServiceNamespace svc (rs_call s')))"
proof -
  have ok: "race_ok (re_Target X) (directory_of s) (gs, s')"
    by (rule get_races_ok[OF assms(6,1,2) race_ok_start[OF assms(3,4)]])
  then have "shared_ok (re_Target X) (directory_of s) s'" by (simp add: race_ok_def)
  then have "coherent (re_Target X) (directory_of s')" by (rule shared_ok_coherent[OF assms(5)])
  moreover have "conn_lookup (rs_conns s) svc = Some cc \<or>
      re_Target X cc = GetTarget svc (GetServiceNamespace svc (rs_call s'))" if "(svc, GDone (Inr cc)) \<in> set gs" for svc cc
  proof (rule reached_handed)
    show "reached (re_Target X) (directory_of s) s' svc cc" using ok that by (fastforce simp: race_ok_def)
  qed
  ultimately show ?thesis by blast
qed

section \<open>Examples\<close>

text \<open>A schedule names the goroutine that moves next.\<close>

fun get_sched ::
    "('w, 'conn, 'cfg, 'cl) rpc_env \<Rightarrow> nat list \<Rightarrow> 'conn getters \<Rightarrow> ('w, 'conn, 'cfg, 'cl) rpc_state \<Rightarrow>
     ('conn getters \<times> ('w, 'conn, 'cfg, 'cl) rpc_state) option" where
  "get_sched X [] gs s = Some (gs, s)"
| "get_sched X (i # is) gs s =
     (if i < length gs \<and> \<not> is_done (snd (gs ! i))
      then case get_step X (fst (gs ! i)) (snd (gs ! i)) s of
             Ret (pc', s') \<Rightarrow> get_sched X is (gs[i := (fst (gs ! i), pc')]) s'
           | _ \<Rightarrow> None
      else None)"

lemma get_sched_races: "get_sched X sched gs s = Some (gs', s') \<Longrightarrow> get_races X (gs, s) (gs', s')"
proof (induction sched arbitrary: gs s)
  case (Cons i sched)
  then obtain pc1 s1 where i: "i < length gs" "\<not> is_done (snd (gs ! i))"
    and st: "get_step X (fst (gs ! i)) (snd (gs ! i)) s = Ret (pc1, s1)"
    and rest: "get_sched X sched (gs[i := (fst (gs ! i), pc1)]) s1 = Some (gs', s')"
    by (auto split: if_splits go.splits)
  from advance[OF i(1) surjective_pairing i(2) st] Cons.IH[OF rest] show ?case
    by (rule converse_rtranclp_into_rtranclp)
qed simp

definition new_state :: "(nat, string, unit, unit) rpc_state" where
  "new_state = moved_state\<lparr>rs_nacos := (rs_nacos moved_state)\<lparr>nc_app :=
       (rs_call moved_state)\<lparr>serviceName2ConnMap := []\<rparr>\<rparr>,
     rs_k8s := (rs_k8s moved_state)\<lparr>service2NamespacesMp := Map.empty\<rparr>\<rparr>"

definition named_env :: "(nat, string, unit, unit) rpc_env" where
  "named_env = news_env\<lparr>re_list := (\<lambda>_ w. (Inr (Some
     [\<lparr>ks_Name = ''kafka'', ks_Namespace = ''common''\<rparr>, \<lparr>ks_Name = ''kafka'', ks_Namespace = ''dev''\<rparr>]), w))\<rparr>"

lemma two_requests:
  "case get_sched named_env [0, 1, 0, 1, 0, 1, 0, 1, 0, 1, 0, 1, 0, 1, 0, 1, 0, 1]
       [(''kafka'', GLook), (''kafka'', GLook)] new_state of
     Some (gs, s') \<Rightarrow> gs = [(''kafka'', GDone (Inr ''kafka.common:50051'')), (''kafka'', GDone (Inr ''kafka.common:50051''))] \<and>
       GetServiceNamespace ''kafka'' (rs_call s') = ''common''
   | None \<Rightarrow> False"
  by code_simp

lemma named_laws:
  "dial_law named_env" "list_law named_env" "client_ok new_state" "answers_ok new_state"
  "coherent (re_Target named_env) (directory_of new_state)"
  by (auto simp: dial_law_def list_law_def client_ok_def call_ok_def sm_ok_def coherent_def answers_ok_def named_env_def
      news_env_def moved_env_def new_state_def moved_state_def ns_view_def str_view_def sm_Load_map_of)

lemma requests_stay_coherent_witness:
  "\<exists>s'. get_races named_env ([], new_state)
      ([(''kafka'', GDone (Inr ''kafka.common:50051'')), (''kafka'', GDone (Inr ''kafka.common:50051''))], s') \<and>
    coherent (re_Target named_env) (directory_of s')"
proof -
  let ?gs = "[(''kafka'', GDone (Inr ''kafka.common:50051'')), (''kafka'', GDone (Inr ''kafka.common:50051''))]"
  obtain s' where "get_sched named_env [0, 1, 0, 1, 0, 1, 0, 1, 0, 1, 0, 1, 0, 1, 0, 1, 0, 1]
      [(''kafka'', GLook), (''kafka'', GLook)] new_state = Some (?gs, s')"
    using two_requests by (auto split: option.splits)
  note run = get_sched_races[OF this]
  have "get_races named_env ([], new_state) ([(''kafka'', GLook), (''kafka'', GLook)], new_state)"
    using spawn[of named_env "[]" new_state "''kafka''"] spawn[of named_env "[(''kafka'', GLook)]" new_state "''kafka''"]
    by auto
  from rtranclp_trans[OF this run] show ?thesis using requests_stay_coherent[OF named_laws] by blast
qed

definition known_state :: "(nat, string, unit, unit) rpc_state" where
  "known_state = moved_state\<lparr>rs_nacos := (rs_nacos moved_state)\<lparr>nc_app :=
     (rs_call moved_state)\<lparr>service2NamespaceMap := [(StrVal ''kafka'', StrVal ''old'')]\<rparr>\<rparr>\<rparr>"

lemma delivery_can_leave_stale_witness:
  "\<exists>s'. conn_races news_env ([], WIdle, known_state) ([(''kafka'', GDone (Inr ''kafka.old:50051''))], WIdle, s') \<and>
    GetServiceNamespace ''kafka'' (rs_call s') = ''dev'' \<and> GetConn news_env ''kafka'' s' = Ret (Inr ''kafka.old:50051'', s')"
proof -
  have ok: "client_ok known_state" "ns_view (rs_call known_state) ''kafka'' = Some ''old''"
    by (simp_all add: client_ok_def call_ok_def sm_ok_def known_state_def moved_state_def ns_view_def str_view_def sm_Load_map_of)
  have d: "\<exists>w'. re_Dial news_env (GetTarget ''kafka'' ''old'') w = (Inr ''kafka.old:50051'', w')" for w
    by (simp add: news_env_def moved_env_def GetTarget_def)
  show ?thesis
    using delivery_can_leave_stale[OF example_laws(1,2) ok, of "''json''" "''dev''" "''kafka.old:50051''", OF _ _ _ _ _ d]
    by (fastforce simp: news_env_def GetServiceNamespace_view map_add_def)
qed

end
