(* ===== verification/FailRace.thy ===== *)
theory FailRace
  imports ConnRace Cluster
begin

text \<open>
  Several calls inside \<open>RetryGrpcUnaryClientInterceptor\<close> at once. They share the Kubernetes client, the namespace map
  and the connection table, and may all find the same service gone. One step is one call of the invoker or of another
  system, or one operation of a \<open>sync.Map\<close>, as in \<open>ConnRace\<close>, whose steps of \<open>SetServiceNamespace\<close> are used again.
\<close>

section \<open>One call\<close>

text \<open>The number is that of the iterations left; the strings are the service and a namespace.\<close>

datatype 'conn call_pc =
    RInvoke nat 'conn bool              \<comment> \<open>at the head of the loop, with the connection and \<open>isConnChange\<close>\<close>
  | RKeep 'conn                         \<comment> \<open>at \<open>SetServiceName2ConnMap\<close>, after a success\<close>
  | RFind nat string string             \<comment> \<open>at \<open>GetNewServiceEntity\<close>\<close>
  | RSave nat string string             \<comment> \<open>in \<open>SetServiceNamespace\<close>, at the store\<close>
  | RCopy nat string string             \<comment> \<open>at \<open>GetNormalMapFromSyncMap\<close>\<close>
  | RPublish nat string string ns_map   \<comment> \<open>at \<open>PublishConfig\<close>\<close>
  | RDial nat string string             \<comment> \<open>at \<open>grpc.Dial\<close>\<close>
  | RDone "gerr option"

definition is_unavailable :: "('w, 'conn, 'cfg, 'cl) rpc_env \<Rightarrow> gerr option \<Rightarrow> bool" where
  "is_unavailable X err \<longleftrightarrow> (err \<noteq> None \<and> ParseRPCErrorCode (re_fmt_status X) (re_gjson_code X) err = 14)"

text \<open>What follows the call of the invoker.\<close>

definition after_invoke ::
    "('w, 'conn, 'cfg, 'cl) rpc_env \<Rightarrow> nat \<Rightarrow> 'conn \<Rightarrow> bool \<Rightarrow> gerr option \<Rightarrow> 'conn call_pc" where
  "after_invoke X n cc isConnChange err =
     (if err = None then (if isConnChange then RKeep cc else RDone None)
      else if is_unavailable X err
      then (case GetSvcNameAndNsFromTarget (re_Target X cc) of
              Inl e \<Rightarrow> RDone (Some e)
            | Inr (serviceName, namespace) \<Rightarrow> RFind n serviceName namespace)
      else RInvoke n cc isConnChange)"

fun call_step ::
    "('w, 'conn, 'cfg, 'cl) rpc_env \<Rightarrow> ('w, 'conn) invoker \<Rightarrow> 'conn call_pc \<Rightarrow> ('w, 'conn, 'cfg, 'cl) rpc_state \<Rightarrow>
     ('conn call_pc \<times> ('w, 'conn, 'cfg, 'cl) rpc_state) go" where
  "call_step X invoker (RInvoke 0 cc isConnChange) s = Ret (RDone (Some (PlainErr ''Max retries reached'')), s)"
| "call_step X invoker (RInvoke (Suc n) cc isConnChange) s =
     (let (err, w) = invoker cc (rs_world s) in Ret (after_invoke X n cc isConnChange err, set_world w s))"
| "call_step X invoker (RKeep cc) s =
     Ret (RDone None, case GetSvcNameAndNsFromTarget (re_Target X cc) of
                        Inr (serviceName, _) \<Rightarrow> store_conn serviceName cc s
                      | Inl _ \<Rightarrow> s)"
| "call_step X invoker (RFind n svc ns) s =
     go_map (\<lambda>((_, newNamespace, err), s).
         (case err of Some e \<Rightarrow> RDone (Some e) | None \<Rightarrow> RSave n svc newNamespace, s)) (new_entity X svc ns s)"
| "call_step X invoker (RSave n svc ns) s = go_map (\<lambda>s. (RCopy n svc ns, save_namespace svc ns s)) (call_config X s)"
| "call_step X invoker (RCopy n svc ns) s =
     Ret (RPublish n svc ns (GetNormalMapFromSyncMap (service2NamespaceMap (rs_call s))), s)"
| "call_step X invoker (RPublish n svc ns mp) s = Ret (RDial n svc ns, publish_map X mp s)"
| "call_step X invoker (RDial n svc ns) s =
     (let (r, s) = dial X svc ns s in Ret (case r of Inl e \<Rightarrow> RDone (Some e) | Inr ccNew \<Rightarrow> RInvoke n ccNew True, s))"
| "call_step X invoker (RDone r) s = Ret (RDone r, s)"

primrec call_result :: "'conn call_pc \<Rightarrow> gerr option option" where
  "call_result (RInvoke n cc chg) = None"
| "call_result (RKeep cc) = None"
| "call_result (RFind n svc ns) = None"
| "call_result (RSave n svc ns) = None"
| "call_result (RCopy n svc ns) = None"
| "call_result (RPublish n svc ns mp) = None"
| "call_result (RDial n svc ns) = None"
| "call_result (RDone r) = Some r"

lemma call_result_iff [simp]: "call_result pc = Some r \<longleftrightarrow> pc = RDone r"
  by (cases pc) auto

section \<open>A call left alone\<close>

definition dial_and_retry ::
    "('w, 'conn, 'cfg, 'cl) rpc_env \<Rightarrow> ('w, 'conn) invoker \<Rightarrow> nat \<Rightarrow> string \<Rightarrow> string \<Rightarrow>
     ('w, 'conn, 'cfg, 'cl) rpc_state \<Rightarrow> (gerr option \<times> ('w, 'conn, 'cfg, 'cl) rpc_state) go" where
  "dial_and_retry X invoker n svc ns s =
     (case dial X svc ns s of
        (Inl e, s) \<Rightarrow> Ret (Some e, s)
      | (Inr ccNew, s) \<Rightarrow> retry_loop X invoker n ccNew True s)"

fun call_rest ::
    "('w, 'conn, 'cfg, 'cl) rpc_env \<Rightarrow> ('w, 'conn) invoker \<Rightarrow> 'conn call_pc \<Rightarrow> ('w, 'conn, 'cfg, 'cl) rpc_state \<Rightarrow>
     (gerr option \<times> ('w, 'conn, 'cfg, 'cl) rpc_state) go" where
  "call_rest X invoker (RInvoke n cc chg) s = retry_loop X invoker n cc chg s"
| "call_rest X invoker (RKeep cc) s =
     Ret (None, case GetSvcNameAndNsFromTarget (re_Target X cc) of Inr (svc, _) \<Rightarrow> store_conn svc cc s | Inl _ \<Rightarrow> s)"
| "call_rest X invoker (RFind n svc ns) s =
     go_bind (new_entity X svc ns s) (\<lambda>((_, ns', e), s).
       if e \<noteq> None then Ret (e, s) else go_bind (set_namespace X svc ns' s) (dial_and_retry X invoker n svc ns'))"
| "call_rest X invoker (RSave n svc ns) s = go_bind (set_namespace X svc ns s) (dial_and_retry X invoker n svc ns)"
| "call_rest X invoker (RCopy n svc ns) s =
     dial_and_retry X invoker n svc ns (publish_map X (GetNormalMapFromSyncMap (service2NamespaceMap (rs_call s))) s)"
| "call_rest X invoker (RPublish n svc ns mp) s = dial_and_retry X invoker n svc ns (publish_map X mp s)"
| "call_rest X invoker (RDial n svc ns) s = dial_and_retry X invoker n svc ns s"
| "call_rest X invoker (RDone r) s = Ret (r, s)"

primrec call_rank :: "'conn call_pc \<Rightarrow> nat" where
  "call_rank (RInvoke n cc chg) = 6 * n + 2"
| "call_rank (RKeep cc) = 1"
| "call_rank (RFind n svc ns) = 6 * n + 7"
| "call_rank (RSave n svc ns) = 6 * n + 6"
| "call_rank (RCopy n svc ns) = 6 * n + 5"
| "call_rank (RPublish n svc ns mp) = 6 * n + 4"
| "call_rank (RDial n svc ns) = 6 * n + 3"
| "call_rank (RDone r) = 0"

lemma retry_loop_invoke:
  assumes "invoker cc (rs_world s) = (err, w)"
  shows "retry_loop X invoker (Suc n) cc chg s = call_rest X invoker (after_invoke X n cc chg err) (set_world w s)"
  using assms
  by (cases err) (auto simp: after_invoke_def is_unavailable_def dial_and_retry_def[abs_def] intro!: arg_cong2[of _ _ _ _ go_bind]
      split: sum.split)

lemma call_rest_step:
  "call_rest X invoker pc s = go_bind (call_step X invoker pc s) (\<lambda>(pc', s'). call_rest X invoker pc' s')"
proof (cases pc)
  case (RInvoke n cc chg)
  then show ?thesis
    by (cases n; cases "invoker cc (rs_world s)") (simp_all add: retry_loop_invoke del: retry_loop.simps(2))
next
  case (RFind n svc ns)
  then show ?thesis by (cases "new_entity X svc ns s") (auto split: option.split)
next
  case (RSave n svc ns)
  then show ?thesis by (cases "call_config X s") (simp_all add: set_namespace_split Let_def)
next
  case (RDial n svc ns)
  then show ?thesis by (auto simp: dial_and_retry_def split: prod.split sum.split)
qed simp_all

lemma call_rank_step:
  "call_step X invoker pc s = Ret (pc', s') \<Longrightarrow> call_result pc = None \<Longrightarrow> call_rank pc' < call_rank pc"
proof (induction X invoker pc s rule: call_step.induct)
  case (2 X invoker n cc chg s)
  then show ?case by (auto simp: after_invoke_def split: prod.splits if_splits sum.splits)
qed (auto simp: go_simps Let_def split: sum.splits prod.splits option.splits)

interpretation calling: routine "call_step X invoker" call_result "call_rest X invoker" call_rank
  by unfold_locales (use call_rest_step call_rank_step in auto)

text \<open>Left alone, a call returns what the interceptor returns and leaves the state it leaves.\<close>

lemma call_alone:
  "(own_step (call_step X invoker) call_result)\<^sup>*\<^sup>* (RInvoke 3 cc False, s) (RDone r, s') \<longleftrightarrow>
     RetryGrpcUnaryClientInterceptor X invoker cc s = Ret (r, s')"
  using calling.alone[of r X invoker "RInvoke 3 cc False" s s'] by (auto simp: RetryGrpcUnaryClientInterceptor_def)

section \<open>Many calls\<close>

text \<open>A call of \<open>calls_race\<close> has its request, which chooses the invoker, and its point.\<close>

inductive calls_race ::
    "('w, 'conn, 'cfg, 'cl) rpc_env \<Rightarrow> ('q \<Rightarrow> ('w, 'conn) invoker) \<Rightarrow>
     ('q \<times> 'conn call_pc) list \<times> ('w, 'conn, 'cfg, 'cl) rpc_state \<Rightarrow>
     ('q \<times> 'conn call_pc) list \<times> ('w, 'conn, 'cfg, 'cl) rpc_state \<Rightarrow> bool"
    for X invoker where
  moves: "i < length cs \<Longrightarrow> cs ! i = (q, pc) \<Longrightarrow> call_result pc = None \<Longrightarrow>
    call_step X (invoker q) pc s = Ret (pc', s') \<Longrightarrow> calls_race X invoker (cs, s) (cs[i := (q, pc')], s')"

definition start_calls :: "('q \<times> 'conn) list \<Rightarrow> ('q \<times> 'conn call_pc) list" where
  "start_calls calls = map (\<lambda>(q, cc). (q, RInvoke 3 cc False)) calls"

definition steps_left :: "('q \<times> 'conn call_pc) list \<Rightarrow> nat" where
  "steps_left cs = sum_list (map (call_rank \<circ> snd) cs)"

lemma steps_left_start: "steps_left (start_calls calls) = 20 * length calls"
  by (induction calls) (auto simp: steps_left_def start_calls_def)

lemma steps_left_update:
  "i < length cs \<Longrightarrow> steps_left (cs[i := c]) + call_rank (snd (cs ! i)) = steps_left cs + call_rank (snd c)"
proof (induction cs arbitrary: i)
  case (Cons a cs)
  then show ?case by (cases i) (auto simp: steps_left_def)
qed simp

lemma calls_race_steps:
  assumes "calls_race X invoker (cs, s) (cs', s')"
  shows "steps_left cs' < steps_left cs \<and> map fst cs' = map fst cs"
  using assms
proof (cases rule: calls_race.cases)
  case (moves i q pc pc')
  have "steps_left cs' < steps_left cs"
    using steps_left_update[OF moves(2), of "(q, pc')"] moves(3) call_rank_step[OF moves(5,4)] by (simp add: moves(1))
  moreover have "map fst cs' = map fst cs" using moves(2,3) by (simp add: moves(1) map_update list_update_same_conv)
  ultimately show ?thesis ..
qed

lemma calls_races_steps:
  "(calls_race X invoker ^^ n) (cs, s) (cs', s') \<Longrightarrow> n + steps_left cs' \<le> steps_left cs \<and> map fst cs' = map fst cs"
proof (induction n arbitrary: cs' s')
  case (Suc n)
  then obtain cs1 s1 where "(calls_race X invoker ^^ n) (cs, s) (cs1, s1)" and st: "calls_race X invoker (cs1, s1) (cs', s')"
    by auto
  from Suc.IH[OF this(1)] calls_race_steps[OF st] show ?case by simp
qed simp

section \<open>Calls to a service that has moved\<close>

text \<open>
  Kubernetes reports the service in the namespaces \<open>nss\<close>, the first of which, as \<open>sortNamespaces\<close> has them, is \<open>new\<close>,
  and no longer in \<open>old\<close>. \<open>asked\<close>: its answer is remembered.
\<close>

definition moved_away ::
    "('w, 'conn, 'cfg, 'cl) rpc_env \<Rightarrow> string \<Rightarrow> string \<Rightarrow> string \<Rightarrow> bool" where
  "moved_away X svc old new \<longleftrightarrow> (\<exists>services. (\<forall>cl w. \<exists>w'. re_list X cl w = (Inr (Some services), w')) \<and>
     old \<notin> set (namespaces_of svc services) \<and>
     (\<exists>nss. sortNamespaces (namespaces_of svc services) [] = new # nss))"

definition asked :: "string \<Rightarrow> string \<Rightarrow> string \<Rightarrow> ('w, 'conn, 'cfg, 'cl) rpc_state \<Rightarrow> bool" where
  "asked svc old new s \<longleftrightarrow>
     (\<exists>nss. service2NamespacesMp (rs_k8s s) svc = Some (new # nss) \<and> old \<notin> set (new # nss))"

definition outdated :: "string \<Rightarrow> string \<Rightarrow> ('w, 'conn, 'cfg, 'cl) rpc_state \<Rightarrow> bool" where
  "outdated svc old s \<longleftrightarrow> (case service2NamespacesMp (rs_k8s s) svc of None \<Rightarrow> True | Some nss \<Rightarrow> nss = [] \<or> old \<in> set nss)"

lemma lookup_moved:
  assumes "\<And>cl w. \<exists>w'. k8s_list cl w = (Inr (Some services), w')" and "old \<notin> set (namespaces_of svc services)"
    and "sortNamespaces (namespaces_of svc services) [] = new # nss" and "ns \<in> {old, new}"
    and "lookup_services api k8s_list svc ns st w = Ret ((chg, ns', err), st', w')"
  shows "err \<noteq> None \<and> service2NamespacesMp st' = service2NamespacesMp st \<or>
    err = None \<and> ns' = new \<and>
    (\<exists>nss. service2NamespacesMp st' = (service2NamespacesMp st)(svc \<mapsto> new # nss) \<and> old \<notin> set (new # nss))"
proof -
  let ?nss = "namespaces_of svc services"
  define h where "h = (if ns \<in> set ?nss then ns else [])"
  have new: "new \<in> set ?nss" using assms(3) by (metis list.set_intros(1) set_sort_Slice sortNamespaces_def)
  then have ne: "?nss \<noteq> []" by auto
  have "hd (sortNamespaces ?nss h) = new"
  proof (cases "h = []")
    case False
    then have "h = new" using assms(2,4) by (auto simp: h_def split: if_splits)
    with sortNamespaces_hd[OF ne refl, of h] False new show ?thesis by simp
  qed (simp add: assms(3))
  then obtain nss' where sorted: "sortNamespaces ?nss h = new # nss'"
    using ne by (metis list.collapse sort_Slice_Nil_iff sortNamespaces_def)
  then have "set (new # nss') = set ?nss" by (metis set_sort_Slice sortNamespaces_def)
  then have old: "old \<notin> set (new # nss')" using assms(2) by simp
  obtain cl st1 where c: "GetK8sClient api st = (cl, st1)" by fastforce
  note keep = GetK8sClient_keeps[OF c]
  show ?thesis
  proof (cases cl)
    case None
    with assms(5) c keep show ?thesis by (auto simp: lookup_services_def)
  next
    case (Some clientset)
    obtain w1 where "k8s_list clientset w = (Inr (Some services), w1)" using assms(1) by blast
    with assms(5) sorted old keep show ?thesis
      by (simp add: lookup_services_def c Some Let_def h_def[symmetric]) auto
  qed
qed

lemma new_entity_moved:
  assumes "moved_away X svc old new" and "asked svc old new s \<or> outdated svc old s"
    and "ns = old \<or> ns = new \<and> asked svc old new s" and "new_entity X svc ns s = Ret ((chg, ns', err), s')"
  shows "err = None \<and> ns' = new \<and> asked svc old new s' \<or>
    err \<noteq> None \<and> service2NamespacesMp (rs_k8s s') = service2NamespacesMp (rs_k8s s)"
proof -
  obtain k w where e: "GetNewServiceEntity (re_k8s X) (re_list X) svc ns (rs_k8s s) (rs_world s) = Ret ((chg, ns', err), k, w)"
    and s': "rs_k8s s' = k"
    using assms(4) by (auto simp: new_entity_def go_simps)
  show ?thesis
  proof (cases "asked svc old new s \<and> ns = old")
    case True
    then obtain nss where "service2NamespacesMp (rs_k8s s) svc = Some (new # nss)" "old \<notin> set (new # nss)"
      by (auto simp: asked_def)
    then have "err = None \<and> ns' = new \<and> k = rs_k8s s" using e True by (simp add: GetNewServiceEntity_def)
    with True s' show ?thesis by (simp add: asked_def)
  next
    case False
    then have "lookup_services (re_k8s X) (re_list X) svc ns (rs_k8s s) (rs_world s) = Ret ((chg, ns', err), k, w)"
      using assms(2,3) e by (auto simp: asked_def outdated_def GetNewServiceEntity_def split: option.splits list.splits if_splits)
    then show ?thesis
      using assms(1,3) lookup_moved[of "re_list X" _ old svc new _ ns "re_k8s X" "rs_k8s s" "rs_world s" chg ns' err k w]
      unfolding moved_away_def s' asked_def by fastforce
  qed
qed

text \<open>What has happened to the service: its namespace is recorded, its connection replaced.\<close>

definition recorded :: "string \<Rightarrow> string \<Rightarrow> ('w, 'conn, 'cfg, 'cl) rpc_state \<Rightarrow> bool" where
  "recorded svc new s \<longleftrightarrow> ns_view (rs_call s) svc = Some new"

definition replaced :: "('conn \<Rightarrow> string) \<Rightarrow> string \<Rightarrow> string \<Rightarrow> ('w, 'conn, 'cfg, 'cl) rpc_state \<Rightarrow> bool" where
  "replaced T svc new s \<longleftrightarrow> (\<exists>cc. conn_lookup (rs_conns s) svc = Some cc \<and> T cc = GetTarget svc new)"

primrec at_point ::
    "('conn \<Rightarrow> string) \<Rightarrow> string \<Rightarrow> string \<Rightarrow> string \<Rightarrow> ('w, 'conn, 'cfg, 'cl) rpc_state \<Rightarrow> 'conn call_pc \<Rightarrow> bool" where
  "at_point T svc old new s (RInvoke n cc chg) =
     (if chg then T cc = GetTarget svc new \<and> asked svc old new s \<and> recorded svc new s else T cc = GetTarget svc old)"
| "at_point T svc old new s (RKeep cc) = (T cc = GetTarget svc new \<and> asked svc old new s \<and> recorded svc new s)"
| "at_point T svc old new s (RFind n v ns) = (v = svc \<and> (ns = old \<or> ns = new \<and> asked svc old new s))"
| "at_point T svc old new s (RSave n v ns) = (v = svc \<and> ns = new \<and> asked svc old new s)"
| "at_point T svc old new s (RCopy n v ns) = (v = svc \<and> ns = new \<and> asked svc old new s \<and> recorded svc new s)"
| "at_point T svc old new s (RPublish n v ns mp) = (v = svc \<and> ns = new \<and> asked svc old new s \<and> recorded svc new s)"
| "at_point T svc old new s (RDial n v ns) = (v = svc \<and> ns = new \<and> asked svc old new s \<and> recorded svc new s)"
| "at_point T svc old new s (RDone r) = (r = None \<longrightarrow> recorded svc new s \<and> replaced T svc new s)"

text \<open>\<open>v0\<close> and \<open>c0\<close> are the namespaces and the connections at the start; nothing of other services changes.\<close>

definition common_ok ::
    "('conn \<Rightarrow> string) \<Rightarrow> string \<Rightarrow> string \<Rightarrow> string \<Rightarrow> 'conn directory \<Rightarrow> ('w, 'conn, 'cfg, 'cl) rpc_state \<Rightarrow> bool" where
  "common_ok T svc old new d0 s \<longleftrightarrow> client_ok s \<and> (asked svc old new s \<or> outdated svc old s) \<and>
     ns_view (rs_call s) \<in> {dir_ns d0, (dir_ns d0)(svc \<mapsto> new)} \<and>
     (conn_lookup (rs_conns s) = dir_conn d0 \<or>
      (\<exists>cc. conn_lookup (rs_conns s) = (dir_conn d0)(svc \<mapsto> cc) \<and> T cc = GetTarget svc new \<and> recorded svc new s))"

definition keeps ::
    "('conn \<Rightarrow> string) \<Rightarrow> string \<Rightarrow> string \<Rightarrow> string \<Rightarrow> ('w, 'conn, 'cfg, 'cl) rpc_state \<Rightarrow> ('w, 'conn, 'cfg, 'cl) rpc_state \<Rightarrow> bool" where
  "keeps T svc old new s s' \<longleftrightarrow> (asked svc old new s \<longrightarrow> asked svc old new s') \<and>
     (recorded svc new s \<longrightarrow> recorded svc new s') \<and> (replaced T svc new s \<longrightarrow> replaced T svc new s')"

lemma at_point_keeps: "keeps T svc old new s s' \<Longrightarrow> at_point T svc old new s pc \<Longrightarrow> at_point T svc old new s' pc"
  by (cases pc) (auto simp: keeps_def split: if_splits)

lemma same_shared:
  assumes "rs_call s' = rs_call s" and "service2NamespacesMp (rs_k8s s') = service2NamespacesMp (rs_k8s s)"
  shows "common_ok T svc old new d0 s' = common_ok T svc old new d0 s" and "keeps T svc old new s s'"
    and "asked svc old new s' = asked svc old new s" and "recorded svc new s' = recorded svc new s"
proof -
  show a: "asked svc old new s' = asked svc old new s" and r: "recorded svc new s' = recorded svc new s"
    using assms by (simp_all add: asked_def recorded_def)
  have p: "replaced T svc new s' = replaced T svc new s" using assms(1) by (simp add: replaced_def)
  show "common_ok T svc old new d0 s' = common_ok T svc old new d0 s"
    using assms by (simp add: common_ok_def a r client_ok_def outdated_def)
  show "keeps T svc old new s s'" by (simp add: keeps_def a r p)
qed

lemma saved_shared:
  assumes "common_ok T svc old new d0 s"
  shows "common_ok T svc old new d0 (save_namespace svc new s) \<and> keeps T svc old new s (save_namespace svc new s) \<and>
    recorded svc new (save_namespace svc new s)"
proof -
  let ?s = "save_namespace svc new s"
  have k: "rs_k8s ?s = rs_k8s s" "rs_conns ?s = rs_conns s" by (simp_all add: save_namespace_def)
  have ok: "client_ok ?s" and v: "ns_view (rs_call ?s) = (ns_view (rs_call s))(svc \<mapsto> new)"
    using assms by (auto simp: common_ok_def client_ok_def call_ok_def save_namespace_def sm.inv_store ns_view_def
        str_view_def fun_eq_iff sm_Load_Store)
  have r: "recorded svc new ?s" by (simp add: recorded_def v)
  have "asked svc old new ?s = asked svc old new s" "outdated svc old ?s = outdated svc old s"
    by (simp_all add: asked_def outdated_def k)
  moreover have "replaced T svc new ?s = replaced T svc new s" by (simp add: replaced_def k)
  moreover have "ns_view (rs_call ?s) = (dir_ns d0)(svc \<mapsto> new)" using assms by (auto simp: common_ok_def v)
  ultimately show ?thesis using assms ok r by (auto simp: common_ok_def keeps_def k)
qed

lemma stored_shared:
  assumes "common_ok T svc old new d0 s" and "T cc = GetTarget svc new" and "recorded svc new s"
  shows "common_ok T svc old new d0 (store_conn svc cc s) \<and> keeps T svc old new s (store_conn svc cc s) \<and>
    replaced T svc new (store_conn svc cc s)"
proof -
  let ?s = "store_conn svc cc s"
  have ok: "client_ok s" using assms(1) by (simp add: common_ok_def)
  then have c: "conn_lookup (rs_conns ?s) = (conn_lookup (rs_conns s))(svc \<mapsto> cc)"
    by (simp add: conns.lookup_store client_ok_def call_ok_def)
  then have p: "replaced T svc new ?s" using assms(2) by (simp add: replaced_def)
  have "asked svc old new ?s = asked svc old new s" "outdated svc old ?s = outdated svc old s"
    "recorded svc new ?s = recorded svc new s"
    by (simp_all add: asked_def outdated_def recorded_def)
  then show ?thesis
    using assms p c store_conn_directory(2)[OF ok, of svc cc] by (auto simp: common_ok_def keeps_def)
qed

text \<open>One step of one call. No name has a dot, and \<open>old\<close> is dead: every call of the invoker there is \<open>Unavailable\<close>.\<close>

definition dead :: "('w, 'conn, 'cfg, 'cl) rpc_env \<Rightarrow> ('q \<Rightarrow> ('w, 'conn) invoker) \<Rightarrow> string \<Rightarrow> bool" where
  "dead X invoker target \<longleftrightarrow> (\<forall>q cc w. re_Target X cc = target \<longrightarrow> is_unavailable X (fst (invoker q cc w)))"

lemma after_invoke_ok:
  assumes "at_point (re_Target X) svc old new s (RInvoke (Suc n) cc chg)"
    and dots: "CHR ''.'' \<notin> set svc" "CHR ''.'' \<notin> set old" "CHR ''.'' \<notin> set new"
    and "re_Target X cc = GetTarget svc old \<Longrightarrow> is_unavailable X err"
  shows "at_point (re_Target X) svc old new s (after_invoke X n cc chg err)"
proof (cases chg)
  case True
  with assms(1) show ?thesis by (auto simp: after_invoke_def target_roundtrip dots split: sum.split)
next
  case False
  then have t: "re_Target X cc = GetTarget svc old" using assms(1) by simp
  with assms(5) have "is_unavailable X err" by simp
  with t False show ?thesis by (auto simp: after_invoke_def is_unavailable_def target_roundtrip dots)
qed

lemma call_step_ok:
  assumes "dial_law X" and "moved_away X svc old new"
    and dots: "CHR ''.'' \<notin> set svc" "CHR ''.'' \<notin> set old" "CHR ''.'' \<notin> set new"
    and dead: "dead X invoker (GetTarget svc old)"
    and ok: "common_ok (re_Target X) svc old new d0 s" and pc: "at_point (re_Target X) svc old new s pc"
    and st: "call_step X (invoker q) pc s = Ret (pc', s')"
  shows "common_ok (re_Target X) svc old new d0 s' \<and> at_point (re_Target X) svc old new s' pc' \<and>
    keeps (re_Target X) svc old new s s'"
proof -
  have once: "call_config X s = Ret s" using ok by (simp add: common_ok_def client_ok_def call_config_once)
  have same: "keeps (re_Target X) svc old new s s" by (simp add: keeps_def)
  show ?thesis
  proof (cases pc)
    case (RInvoke m cc chg)
    show ?thesis
    proof (cases m)
      case 0
      with RInvoke st ok same show ?thesis by auto
    next
      case (Suc n)
      obtain err w where i: "invoker q cc (rs_world s) = (err, w)" by fastforce
      with st have s': "s' = set_world w s" "pc' = after_invoke X n cc chg err" by (simp_all add: RInvoke Suc)
      have "at_point (re_Target X) svc old new s pc'"
        unfolding s'(2) using dead i
        by (intro after_invoke_ok[OF pc[unfolded RInvoke Suc] dots]) (metis dead_def fst_conv)
      moreover have k: "rs_call s' = rs_call s" "service2NamespacesMp (rs_k8s s') = service2NamespacesMp (rs_k8s s)"
        by (simp_all add: s'(1))
      ultimately show ?thesis using same_shared(1,2)[OF k] ok at_point_keeps by blast
    qed
  next
    case (RKeep cc)
    with pc st have "s' = store_conn svc cc s" "pc' = RDone None" by (simp_all add: target_roundtrip dots)
    moreover have t: "re_Target X cc = GetTarget svc new" "recorded svc new s" using pc by (simp_all add: RKeep)
    ultimately show ?thesis using stored_shared[OF ok t] t(2) by (auto simp: keeps_def)
  next
    case (RFind n v ns)
    then have v: "v = svc" "ns = old \<or> ns = new \<and> asked svc old new s" using pc by simp_all
    then obtain chg ns' err where e: "new_entity X svc ns s = Ret ((chg, ns', err), s')"
      and pc': "pc' = (case err of Some e \<Rightarrow> RDone (Some e) | None \<Rightarrow> RSave n svc ns')"
      using st RFind by (auto simp: go_simps)
    have ask: "asked svc old new s \<or> outdated svc old s" using ok by (simp add: common_ok_def)
    have calls: "rs_call s' = rs_call s" by (rule new_entity_keeps[OF e])
    from new_entity_moved[OF assms(2) ask v(2) e] consider
        "err = None" "ns' = new" "asked svc old new s'"
      | e where "err = Some e" "service2NamespacesMp (rs_k8s s') = service2NamespacesMp (rs_k8s s)"
      by auto
    then show ?thesis
    proof cases
      case 1
      then show ?thesis using ok calls by (simp add: pc' common_ok_def client_ok_def keeps_def recorded_def replaced_def)
    next
      case 2
      with same_shared(1,2)[OF calls 2(2)] ok show ?thesis by (simp add: pc')
    qed
  next
    case (RSave n v ns)
    with pc st have "s' = save_namespace svc new s" "pc' = RCopy n svc new" by (simp_all add: once)
    then show ?thesis using saved_shared[OF ok] pc by (auto simp: RSave keeps_def)
  next
    case (RCopy n v ns)
    with pc st ok same show ?thesis by auto
  next
    case (RPublish n v ns mp)
    then have s': "s' = publish_map X mp s" "pc' = RDial n v ns" using st by simp_all
    then have k: "rs_call s' = rs_call s" "service2NamespacesMp (rs_k8s s') = service2NamespacesMp (rs_k8s s)"
      by (simp_all add: publish_map_def)
    show ?thesis using same_shared[OF k] ok pc by (simp add: s'(2) RPublish)
  next
    case (RDial n v ns)
    then obtain r where d: "dial X svc new s = (r, s')" and pc': "pc' = (case r of Inl e \<Rightarrow> RDone (Some e) | Inr cc \<Rightarrow> RInvoke n cc True)"
      using st pc by (auto split: prod.splits)
    have k: "rs_call s' = rs_call s" "service2NamespacesMp (rs_k8s s') = service2NamespacesMp (rs_k8s s)"
      using dial_keeps[OF d] by simp_all
    show ?thesis using same_shared[OF k] ok pc dial_target[OF assms(1)] d by (auto simp: pc' RDial split: sum.split)
  next
    case (RDone r)
    with st pc ok same show ?thesis by auto
  qed
qed

definition calls_ok_at ::
    "('conn \<Rightarrow> string) \<Rightarrow> string \<Rightarrow> string \<Rightarrow> string \<Rightarrow> 'conn directory \<Rightarrow>
     ('q \<times> 'conn call_pc) list \<times> ('w, 'conn, 'cfg, 'cl) rpc_state \<Rightarrow> bool" where
  "calls_ok_at T svc old new d0 = (\<lambda>(cs, s). common_ok T svc old new d0 s \<and> (\<forall>(q, pc) \<in> set cs. at_point T svc old new s pc))"

lemma calls_race_ok:
  assumes "dial_law X" and "moved_away X svc old new"
    and dots: "CHR ''.'' \<notin> set svc" "CHR ''.'' \<notin> set old" "CHR ''.'' \<notin> set new"
    and "dead X invoker (GetTarget svc old)"
    and "calls_race X invoker c c'" and "calls_ok_at (re_Target X) svc old new d0 c"
  shows "calls_ok_at (re_Target X) svc old new d0 c'"
  using assms(7)
proof (cases rule: calls_race.cases)
  case (moves i cs q pc s pc' s')
  then have "(q, pc) \<in> set cs" by (metis nth_mem)
  with assms(8) moves(1) have "common_ok (re_Target X) svc old new d0 s" "at_point (re_Target X) svc old new s pc"
    by (auto simp: calls_ok_at_def)
  from call_step_ok[OF assms(1,2) dots assms(6) this moves(6)]
  have r: "common_ok (re_Target X) svc old new d0 s'" "at_point (re_Target X) svc old new s' pc'"
    "keeps (re_Target X) svc old new s s'" by auto
  have "at_point (re_Target X) svc old new s' p" if "(k, p) \<in> set (cs[i := (q, pc')])" for k p
  proof -
    have "(k, p) = (q, pc') \<or> (k, p) \<in> set cs" using that set_update_subset_insert by fastforce
    then show ?thesis using r(2) assms(8) by (auto simp: calls_ok_at_def moves(1) intro: at_point_keeps[OF r(3)])
  qed
  with r(1) show ?thesis by (auto simp: calls_ok_at_def moves(2))
qed

lemma calls_races_ok:
  assumes "dial_law X" and "moved_away X svc old new"
    and dots: "CHR ''.'' \<notin> set svc" "CHR ''.'' \<notin> set old" "CHR ''.'' \<notin> set new"
    and "dead X invoker (GetTarget svc old)"
    and "(calls_race X invoker ^^ n) c c'" and "calls_ok_at (re_Target X) svc old new d0 c"
  shows "calls_ok_at (re_Target X) svc old new d0 c'"
  using assms(7)
proof (induction n arbitrary: c')
  case (Suc n)
  then obtain c1 where "(calls_race X invoker ^^ n) c c1" and "calls_race X invoker c1 c'" by auto
  with Suc.IH show ?case using calls_race_ok[OF assms(1,2) dots assms(6)] by blast
qed (use assms(8) in simp)

text \<open>
  C9: Any number of calls over connections to a service that has left their namespace, interleaved in any way, agree.
  All of them together take at most twenty steps a call. At every moment the map has for the service what it had or
  where Kubernetes says it is now; a connection that replaces the old one leads there, and is put in only after the
  namespace was recorded; no other service is touched. Once any of the calls has succeeded, the map and the table
  both have the new place, whatever the other calls still do.
\<close>

theorem concurrent_failovers_agree:
  assumes "dial_law X" and "moved_away X svc old new"
    and dots: "CHR ''.'' \<notin> set svc" "CHR ''.'' \<notin> set old" "CHR ''.'' \<notin> set new"
    and "dead X invoker (GetTarget svc old)" and "client_ok s" and "outdated svc old s"
    and calls: "\<forall>(q, cc) \<in> set calls. re_Target X cc = GetTarget svc old"
    and run: "(calls_race X invoker ^^ n) (start_calls calls, s) (cs, s')"
  shows "n \<le> 20 * length calls \<and>
    ns_view (rs_call s') \<in> {ns_view (rs_call s), (ns_view (rs_call s))(svc \<mapsto> new)} \<and>
    (\<forall>k cc. conn_lookup (rs_conns s') k = Some cc \<longrightarrow> conn_lookup (rs_conns s) k = Some cc \<or>
       k = svc \<and> re_Target X cc = GetTarget svc new \<and> ns_view (rs_call s') svc = Some new) \<and>
    (\<forall>q. (q, RDone None) \<in> set cs \<longrightarrow> ns_view (rs_call s') svc = Some new \<and>
       (\<exists>cc. conn_lookup (rs_conns s') svc = Some cc \<and> re_Target X cc = GetTarget svc new))"
proof -
  have "calls_ok_at (re_Target X) svc old new (directory_of s) (start_calls calls, s)"
    using assms(7,8) calls by (auto simp: calls_ok_at_def common_ok_def start_calls_def)
  from calls_races_ok[OF assms(1,2) dots assms(6) run this]
  have ok: "common_ok (re_Target X) svc old new (directory_of s) s'"
    and pcs: "\<forall>(q, pc) \<in> set cs. at_point (re_Target X) svc old new s' pc"
    by (simp_all add: calls_ok_at_def)
  have "n \<le> 20 * length calls" using calls_races_steps[OF run] by (simp add: steps_left_start)
  moreover have "ns_view (rs_call s') svc = Some new \<and>
      (\<exists>cc. conn_lookup (rs_conns s') svc = Some cc \<and> re_Target X cc = GetTarget svc new)" if "(q, RDone None) \<in> set cs" for q
    using bspec[OF pcs that] by (simp add: recorded_def replaced_def)
  ultimately show ?thesis
    using ok by (auto simp: common_ok_def recorded_def split: if_splits)
qed

section \<open>Calls to two services that have moved\<close>

text \<open>The steps of one call among the others.\<close>

lemma call_among_others:
  assumes "(own_step (call_step X (invoker q)) call_result)\<^sup>*\<^sup>* (pc, s) (pc', s')"
    and "i < length cs" and "cs ! i = (q, pc)"
  shows "(calls_race X invoker)\<^sup>*\<^sup>* (cs, s) (cs[i := (q, pc')], s')"
  using assms(1)
proof (induction rule: rtranclp_induct2)
  case refl
  have "cs[i := (q, pc)] = cs" by (metis assms(3) list_update_id)
  then show ?case by simp
next
  case (step pc1 s1 pc2 s2)
  then have "call_result pc1 = None" "call_step X (invoker q) pc1 s1 = Ret (pc2, s2)" by (auto elim: own_stepE)
  then have "calls_race X invoker (cs[i := (q, pc1)], s1) (cs[i := (q, pc1), i := (q, pc2)], s2)"
    by (intro moves[where pc = pc1]) (simp_all add: assms(2))
  with step.IH show ?case by (simp add: rtranclp.rtrancl_into_rtrancl)
qed

lemma own_stepI: "call_result pc = None \<Longrightarrow> call_step X invoker pc s = Ret (pc', s') \<Longrightarrow>
    (own_step (call_step X invoker) call_result)\<^sup>*\<^sup>* (pc', s') t \<Longrightarrow>
    (own_step (call_step X invoker) call_result)\<^sup>*\<^sup>* (pc, s) t"
  by (meson converse_rtranclp_into_rtranclp own_step)

text \<open>From the failing call to the publication.\<close>

definition client_ready :: "('w, 'conn, 'cfg, 'cl) rpc_state \<Rightarrow> bool" where
  "client_ready s \<longleftrightarrow> client_ok s \<and> k8s_once (rs_k8s s) \<and> k8sClient (rs_k8s s) \<noteq> None"

lemma new_entity_asks:
  assumes "moved_away X svc old new" and "outdated svc old s" and "client_ready s"
  obtains chg nss w where "new_entity X svc old s = Ret ((chg, new, None), set_world w
      (s\<lparr>rs_k8s := (rs_k8s s)\<lparr>service2NamespacesMp := (service2NamespacesMp (rs_k8s s))(svc \<mapsto> nss)\<rparr>\<rparr>))"
proof -
  obtain services nss where l: "\<And>cl w. \<exists>w'. re_list X cl w = (Inr (Some services), w')"
    and old: "old \<notin> set (namespaces_of svc services)" and sorted: "sortNamespaces (namespaces_of svc services) [] = new # nss"
    using assms(1) by (auto simp: moved_away_def)
  obtain cl where cl: "k8s_once (rs_k8s s)" "k8sClient (rs_k8s s) = Some cl" using assms(3) by (auto simp: client_ready_def)
  obtain w where w: "re_list X cl (rs_world s) = (Inr (Some services), w)" using l by blast
  have "GetNewServiceEntity (re_k8s X) (re_list X) svc old (rs_k8s s) (rs_world s) =
      lookup_services (re_k8s X) (re_list X) svc old (rs_k8s s) (rs_world s)"
    using assms(2) by (auto simp: GetNewServiceEntity_def outdated_def split: option.split list.split)
  also have "\<dots> = Ret ((True, new, None),
      (rs_k8s s)\<lparr>service2NamespacesMp := (service2NamespacesMp (rs_k8s s))(svc \<mapsto> new # nss)\<rparr>, w)"
    using cl w old by (simp add: lookup_services_def GetK8sClient_def Let_def sorted)
  finally show thesis by (intro that[of True w "new # nss"]) (simp add: new_entity_def)
qed

lemma call_until_publish:
  assumes "moved_away X svc old new" and "outdated svc old s" and "client_ready s"
    and dots: "CHR ''.'' \<notin> set svc" "CHR ''.'' \<notin> set old"
    and cc: "re_Target X cc = GetTarget svc old" and un: "\<And>w. is_unavailable X (fst (invoker cc w))"
  obtains mp s' where "(own_step (call_step X invoker) call_result)\<^sup>*\<^sup>* (RInvoke (Suc n) cc chg, s) (RPublish n svc new mp, s')"
    and "client_ready s'" and "ns_view (rs_call s') = (ns_view (rs_call s))(svc \<mapsto> new)"
    and "map_of mp = ns_view (rs_call s')" and "distinct (map fst mp)" and "rs_conns s' = rs_conns s"
    and "GrpcCallRelationKey (rs_call s') = GrpcCallRelationKey (rs_call s)"
    and "\<And>k. k \<noteq> svc \<Longrightarrow> service2NamespacesMp (rs_k8s s') k = service2NamespacesMp (rs_k8s s) k"
proof -
  obtain err w where i: "invoker cc (rs_world s) = (err, w)" by fastforce
  with un[of "rs_world s"] have after: "after_invoke X n cc chg err = RFind n svc old"
    by (auto simp: after_invoke_def is_unavailable_def cc target_roundtrip dots)
  let ?s1 = "set_world w s"
  have "outdated svc old ?s1" "client_ready ?s1" using assms(2,3) by (simp_all add: outdated_def client_ready_def)
  then obtain c nss w2 where e: "new_entity X svc old ?s1 = Ret ((c, new, None), set_world w2
      (?s1\<lparr>rs_k8s := (rs_k8s s)\<lparr>service2NamespacesMp := (service2NamespacesMp (rs_k8s s))(svc \<mapsto> nss)\<rparr>\<rparr>))"
    by (rule new_entity_asks[OF assms(1)]) (simp add: set_world_def)
  define s2 where "s2 = set_world w2
      (?s1\<lparr>rs_k8s := (rs_k8s s)\<lparr>service2NamespacesMp := (service2NamespacesMp (rs_k8s s))(svc \<mapsto> nss)\<rparr>\<rparr>)"
  have c2: "rs_call s2 = rs_call s" and k2: "rs_k8s s2 = (rs_k8s s)\<lparr>service2NamespacesMp := (service2NamespacesMp (rs_k8s s))(svc \<mapsto> nss)\<rparr>"
    by (simp_all add: s2_def set_world_def)
  have ok2: "client_ok s2" using assms(3) by (simp add: client_ready_def client_ok_def c2)
  define s' where "s' = save_namespace svc new s2"
  have view: "ns_view (rs_call s') = (ns_view (rs_call s))(svc \<mapsto> new)" and ok: "client_ok s'"
    using ok2 by (auto simp: s'_def save_namespace_def client_ok_def call_ok_def ns_view_def str_view_def sm_Load_Store
        sm.inv_store fun_eq_iff c2)
  let ?mp = "GetNormalMapFromSyncMap (service2NamespaceMap (rs_call s'))"
  have "(own_step (call_step X invoker) call_result)\<^sup>*\<^sup>* (RInvoke (Suc n) cc chg, s) (RPublish n svc new ?mp, s')"
  proof (rule own_stepI)
    show "call_step X invoker (RInvoke (Suc n) cc chg) s = Ret (RFind n svc old, ?s1)" by (simp add: i after)
    show "(own_step (call_step X invoker) call_result)\<^sup>*\<^sup>* (RFind n svc old, ?s1) (RPublish n svc new ?mp, s')"
    proof (rule own_stepI)
      show "call_step X invoker (RFind n svc old) ?s1 = Ret (RSave n svc new, s2)" by (simp add: e s2_def)
      show "(own_step (call_step X invoker) call_result)\<^sup>*\<^sup>* (RSave n svc new, s2) (RPublish n svc new ?mp, s')"
      proof (rule own_stepI)
        show "call_step X invoker (RSave n svc new) s2 = Ret (RCopy n svc new, s')"
          using ok2 by (simp add: client_ok_def call_config_once s'_def)
        show "(own_step (call_step X invoker) call_result)\<^sup>*\<^sup>* (RCopy n svc new, s') (RPublish n svc new ?mp, s')"
          by (rule own_stepI[OF _ _ rtranclp.rtrancl_refl]) simp_all
      qed simp
    qed simp
  qed simp
  moreover have "client_ready s'" using ok assms(3) by (simp add: client_ready_def s'_def save_namespace_def k2)
  moreover have "map_of ?mp = ns_view (rs_call s')" using ok by (simp add: client_ok_def call_ok_def GetNormalMap_lookup ns_view_def)
  moreover have "rs_conns s' = rs_conns s" "GrpcCallRelationKey (rs_call s') = GrpcCallRelationKey (rs_call s)"
    by (simp_all add: s'_def save_namespace_def c2)
  ultimately show thesis using that[of ?mp s'] view by (simp add: GetNormalMap_distinct s'_def save_namespace_def k2)
qed

text \<open>
  From the publication to the end. \<open>stored\<close> reads the content under the shared key, as in \<open>Cluster\<close>; only
  publications write it, the new place answers, and \<open>grpc.Dial\<close>, which does not wait for the connection, succeeds.
\<close>

definition shared_env ::
    "('w, 'conn, 'cfg, 'cl) rpc_env \<Rightarrow> ('w \<Rightarrow> string) \<Rightarrow> string \<Rightarrow> ('w, 'conn) cluster_env" where
  "shared_env X stored key = \<lparr>cx_retry = re_publish X, cx_nacos = re_nacos X, cx_md5 = re_md5 X, cx_sdk = re_sdk X,
     cx_enc = re_enc X, cx_dec = re_dec X, cx_param = zero_ConfigParam, cx_key = key, cx_stored = stored\<rparr>"

definition only_publications ::
    "('w, 'conn, 'cfg, 'cl) rpc_env \<Rightarrow> ('q \<Rightarrow> ('w, 'conn) invoker) \<Rightarrow> ('w \<Rightarrow> string) \<Rightarrow> bool" where
  "only_publications X invoker stored \<longleftrightarrow> (\<forall>q cc w. stored (snd (invoker q cc w)) = stored w) \<and>
     (\<forall>t w. stored (snd (re_Dial X t w)) = stored w)"

definition alive :: "('w, 'conn, 'cfg, 'cl) rpc_env \<Rightarrow> ('q \<Rightarrow> ('w, 'conn) invoker) \<Rightarrow> string \<Rightarrow> bool" where
  "alive X invoker target \<longleftrightarrow> (\<forall>w. \<exists>cc. fst (re_Dial X target w) = Inr cc) \<and>
     (\<forall>q cc w. re_Target X cc = target \<longrightarrow> fst (invoker q cc w) = None)"

lemma call_after_publish:
  assumes "dial_law X" and "client_ready s" and dots: "CHR ''.'' \<notin> set svc" "CHR ''.'' \<notin> set new"
    and key: "GrpcCallRelationKey (rs_call s) = key" and "server_law (shared_env X stored key)"
    and "reliable (shared_env X stored key)" and only: "only_publications X invoker stored"
    and al: "alive X invoker (GetTarget svc new)" and "mp \<noteq> []"
  obtains s' cc where "(own_step (call_step X (invoker q)) call_result)\<^sup>*\<^sup>* (RPublish (Suc n) svc new mp, s) (RDone None, s')"
    and "client_ready s'" and "ns_view (rs_call s') = ns_view (rs_call s)" and "rs_k8s s' = rs_k8s s"
    and "conn_lookup (rs_conns s') = (conn_lookup (rs_conns s))(svc \<mapsto> cc)" and "re_Target X cc = GetTarget svc new"
    and "stored (rs_world s') = re_enc X mp" and "GrpcCallRelationKey (rs_call s') = key"
proof -
  define s1 where "s1 = publish_map X mp s"
  have c1: "rs_call s1 = rs_call s" "rs_k8s s1 = rs_k8s s" by (simp_all add: s1_def publish_map_def)
  have st1: "stored (rs_world s1) = re_enc X mp"
    using publish_stored[OF assms(6), of "zero_ConfigParam\<lparr>cp_DataId := key, cp_Content := re_enc X mp\<rparr>" "rs_world s1" "rs_world s"]
      assms(7,10) key
    by (simp add: s1_def publish_map_def shared_env_def zero_ConfigParam_def)
  obtain cc w2 where d: "re_Dial X (GetTarget svc new) (rs_world s1) = (Inr cc, w2)"
    using al by (metis alive_def prod.collapse)
  then have T: "re_Target X cc = GetTarget svc new" using assms(1) by (auto simp: dial_law_def)
  obtain w3 where i: "invoker q cc w2 = (None, w3)" using al T by (metis alive_def prod.collapse)
  define s3 where "s3 = set_world w3 s1"
  have c3: "rs_call s3 = rs_call s" "rs_k8s s3 = rs_k8s s" by (simp_all add: s3_def c1)
  have ok3: "client_ok s3" using assms(2) by (simp add: client_ready_def client_ok_def c3)
  define s' where "s' = store_conn svc cc s3"
  have "(own_step (call_step X (invoker q)) call_result)\<^sup>*\<^sup>* (RPublish (Suc n) svc new mp, s) (RDone None, s')"
  proof (rule own_stepI)
    show "call_step X (invoker q) (RPublish (Suc n) svc new mp) s = Ret (RDial (Suc n) svc new, s1)" by (simp add: s1_def)
    show "(own_step (call_step X (invoker q)) call_result)\<^sup>*\<^sup>* (RDial (Suc n) svc new, s1) (RDone None, s')"
    proof (rule own_stepI)
      show "call_step X (invoker q) (RDial (Suc n) svc new) s1 = Ret (RInvoke (Suc n) cc True, set_world w2 s1)"
        by (simp add: dial_def d)
      show "(own_step (call_step X (invoker q)) call_result)\<^sup>*\<^sup>* (RInvoke (Suc n) cc True, set_world w2 s1) (RDone None, s')"
      proof (rule own_stepI)
        show "call_step X (invoker q) (RInvoke (Suc n) cc True) (set_world w2 s1) = Ret (RKeep cc, s3)"
          by (simp add: i after_invoke_def s3_def)
        show "(own_step (call_step X (invoker q)) call_result)\<^sup>*\<^sup>* (RKeep cc, s3) (RDone None, s')"
          by (rule own_stepI[OF _ _ rtranclp.rtrancl_refl]) (simp_all add: T target_roundtrip dots s'_def)
      qed simp
    qed simp
  qed simp
  moreover have "client_ready s'"
    using assms(2) store_conn_directory(2)[OF ok3, of svc cc] by (simp add: client_ready_def s'_def c3)
  moreover have "conn_lookup (rs_conns s') = (conn_lookup (rs_conns s))(svc \<mapsto> cc)"
    using ok3 by (simp add: s'_def client_ok_def call_ok_def conns.lookup_store c3)
  moreover have "rs_world s' = w3" "GrpcCallRelationKey (rs_call s') = key"
    by (simp_all add: s'_def s3_def store_conn_def c1 key)
  moreover have "stored w3 = re_enc X mp"
    using only d i st1 unfolding only_publications_def by (metis snd_conv)
  ultimately show thesis using that[of s' cc] T by (simp add: s'_def c3)
qed

text \<open>
  C11: \<open>SetServiceNamespace\<close> records, copies and publishes without a lock. So when two calls of one instance fail over at
  once, each for a service of its own, the copy of the first can be made before the namespace of the second is recorded, and be published
  after it. Both calls succeed, and map and table have both new places; but what the instance has published last is
  outdated, and when the watch delivers it, as it does to every instance, this one takes the dead namespace of the
  second service back and drops the good connection.
\<close>

theorem failover_undone_by_publication:
  assumes laws: "dial_law X" "codec_law (shared_env X stored key)" "server_law (shared_env X stored key)"
      "reliable (shared_env X stored key)" "only_publications X invoker stored"
    and moved: "moved_away X a oldA newA" "moved_away X b oldB newB" and "a \<noteq> b"
    and dots: "CHR ''.'' \<notin> set a" "CHR ''.'' \<notin> set oldA" "CHR ''.'' \<notin> set newA"
      "CHR ''.'' \<notin> set b" "CHR ''.'' \<notin> set oldB" "CHR ''.'' \<notin> set newB"
    and dead: "dead X invoker (GetTarget a oldA)" "dead X invoker (GetTarget b oldB)"
    and alive: "alive X invoker (GetTarget a newA)" "alive X invoker (GetTarget b newB)"
    and s: "client_ready s" "outdated a oldA s" "outdated b oldB s" "GrpcCallRelationKey (rs_call s) = key"
    and known: "ns_view (rs_call s) b = Some oldB" and "oldB \<noteq> newB"
    and conns: "re_Target X c1 = GetTarget a oldA" "re_Target X c2 = GetTarget b oldB"
  shows "\<exists>s' told. (calls_race X invoker)\<^sup>*\<^sup>* (start_calls [(q1, c1), (q2, c2)], s) ([(q1, RDone None), (q2, RDone None)], s') \<and>
    ns_view (rs_call s') = (ns_view (rs_call s))(a \<mapsto> newA, b \<mapsto> newB) \<and>
    (\<exists>cc. conn_lookup (rs_conns s') b = Some cc \<and> re_Target X cc = GetTarget b newB) \<and>
    call_handler (re_dec X) k (stored (rs_world s')) (rs_call s') = Ret told \<and>
    ns_view told b = Some oldB \<and> conn_lookup (serviceName2ConnMap told) b = None"
proof -
  let ?run = "\<lambda>q. (own_step (call_step X (invoker q)) call_result)\<^sup>*\<^sup>*"
  have un: "is_unavailable X (fst (invoker q1 c1 w))" "is_unavailable X (fst (invoker q2 c2 w))" for w
    using dead conns by (simp_all add: dead_def)
  obtain mp1 s1 where r1: "?run q1 (RInvoke (Suc 2) c1 False, s) (RPublish 2 a newA mp1, s1)"
    and s1: "client_ready s1" "ns_view (rs_call s1) = (ns_view (rs_call s))(a \<mapsto> newA)"
      "map_of mp1 = ns_view (rs_call s1)" "distinct (map fst mp1)" "GrpcCallRelationKey (rs_call s1) = key"
      "\<And>k. k \<noteq> a \<Longrightarrow> service2NamespacesMp (rs_k8s s1) k = service2NamespacesMp (rs_k8s s) k"
    by (rule call_until_publish[where n = 2 and chg = False and invoker = "invoker q1",
          OF moved(1) s(2,1) dots(1,2) conns(1) un(1)]) (use s(4) in auto)
  have "outdated b oldB s1" using s(3) s1(6)[of b] \<open>a \<noteq> b\<close> by (simp add: outdated_def)
  then obtain mp2 s2 where r2: "?run q2 (RInvoke (Suc 2) c2 False, s1) (RPublish 2 b newB mp2, s2)"
    and s2: "client_ready s2" "ns_view (rs_call s2) = (ns_view (rs_call s1))(b \<mapsto> newB)"
      "map_of mp2 = ns_view (rs_call s2)" "GrpcCallRelationKey (rs_call s2) = key"
    by (rule call_until_publish[where n = 2 and chg = False and invoker = "invoker q2",
          OF moved(2) _ s1(1) dots(4,5) conns(2) un(2)]) (use s1(5) in auto)
  have ne: "mp1 \<noteq> []" "mp2 \<noteq> []" using s1(2,3) s2(2,3) by (metis fun_upd_same map_of.simps(1) option.distinct(1))+
  have two: "Suc 1 = (2 :: nat)" by simp
  obtain s3 cc2 where r3: "?run q2 (RPublish 2 b newB mp2, s2) (RDone None, s3)"
    and s3: "client_ready s3" "ns_view (rs_call s3) = ns_view (rs_call s2)" "GrpcCallRelationKey (rs_call s3) = key"
      "conn_lookup (rs_conns s3) b = Some cc2" "re_Target X cc2 = GetTarget b newB"
    by (rule call_after_publish[where n = 1 and q = q2, unfolded two,
          OF laws(1) s2(1) dots(4,6) s2(4) laws(3-5) alive(2) ne(2)]) auto
  obtain s4 cc1 where r4: "?run q1 (RPublish 2 a newA mp1, s3) (RDone None, s4)"
    and s4: "client_ready s4" "ns_view (rs_call s4) = ns_view (rs_call s3)" "stored (rs_world s4) = re_enc X mp1"
      "conn_lookup (rs_conns s4) = (conn_lookup (rs_conns s3))(a \<mapsto> cc1)"
    by (rule call_after_publish[where n = 1 and q = q1, unfolded two,
          OF laws(1) s3(1) dots(1,3) s3(3) laws(3-5) alive(1) ne(1)]) auto
  let ?p1 = "(q1, RPublish 2 a newA mp1)" and ?p2 = "(q2, RPublish 2 b newB mp2)"
  have "(calls_race X invoker)\<^sup>*\<^sup>* (start_calls [(q1, c1), (q2, c2)], s) ([?p1, (q2, RInvoke 3 c2 False)], s1)"
    using call_among_others[where X = X and invoker = invoker, OF r1, of 0 "start_calls [(q1, c1), (q2, c2)]"] by (simp add: start_calls_def)
  also have "(calls_race X invoker)\<^sup>*\<^sup>* \<dots> ([?p1, (q2, RDone None)], s3)"
    using call_among_others[where X = X and invoker = invoker, OF rtranclp_trans[OF r2 r3], of 1 "[?p1, (q2, RInvoke 3 c2 False)]"] by simp
  also have "(calls_race X invoker)\<^sup>*\<^sup>* \<dots> ([(q1, RDone None), (q2, RDone None)], s4)"
    using call_among_others[where X = X and invoker = invoker, OF r4, of 0 "[?p1, (q2, RDone None)]"] by simp
  finally have run: "(calls_race X invoker)\<^sup>*\<^sup>* (start_calls [(q1, c1), (q2, c2)], s) ([(q1, RDone None), (q2, RDone None)], s4)" .
  have dec: "re_enc X mp1 \<noteq> []" "map_of (fst (re_dec X (re_enc X mp1))) = ns_view (rs_call s1)"
      "distinct (map fst (fst (re_dec X (re_enc X mp1))))"
    using laws(2) s1(3,4) by (auto simp: codec_law_def shared_env_def)
  obtain told where "call_handler (re_dec X) k (re_enc X mp1) (rs_call s4) = Ret told"
    and "ns_view told = ns_view (rs_call s4) ++ ns_view (rs_call s1)"
    and "conn_lookup (serviceName2ConnMap told) = conn_lookup (rs_conns s4) |` {svc. ns_view told svc = ns_view (rs_call s4) svc}"
    using call_handler_effect[of "rs_call s4" "re_dec X" "re_enc X mp1" _ _ k, OF _ surjective_pairing dec(3)] s4(1) dec(1,2)
    by (auto simp: client_ready_def client_ok_def)
  moreover have "ns_view (rs_call s1) b = Some oldB" using known \<open>a \<noteq> b\<close> by (simp add: s1(2))
  moreover have "ns_view (rs_call s4) = (ns_view (rs_call s))(a \<mapsto> newA, b \<mapsto> newB)" by (simp add: s4(2) s3(2) s2(2) s1(2))
  ultimately show ?thesis
    using run s3(4,5) s4(3,4) \<open>a \<noteq> b\<close> \<open>oldB \<noteq> newB\<close>
    by (intro exI[of _ s4] exI[of _ told]) (simp add: restrict_map_def map_add_def)
qed

section \<open>Examples\<close>

fun calls_sched ::
    "('w, 'conn, 'cfg, 'cl) rpc_env \<Rightarrow> ('q \<Rightarrow> ('w, 'conn) invoker) \<Rightarrow> nat list \<Rightarrow>
     ('q \<times> 'conn call_pc) list \<Rightarrow> ('w, 'conn, 'cfg, 'cl) rpc_state \<Rightarrow>
     (('q \<times> 'conn call_pc) list \<times> ('w, 'conn, 'cfg, 'cl) rpc_state) option" where
  "calls_sched X invoker [] cs s = Some (cs, s)"
| "calls_sched X invoker (i # is) cs s =
     (if i < length cs \<and> call_result (snd (cs ! i)) = None
      then case call_step X (invoker (fst (cs ! i))) (snd (cs ! i)) s of
             Ret (pc', s') \<Rightarrow> calls_sched X invoker is (cs[i := (fst (cs ! i), pc')]) s'
           | _ \<Rightarrow> None
      else None)"

lemma calls_sched_race:
  "calls_sched X invoker sched cs s = Some (cs', s') \<Longrightarrow> (calls_race X invoker ^^ length sched) (cs, s) (cs', s')"
proof (induction sched arbitrary: cs s)
  case (Cons i sched)
  then obtain pc1 s1 where i: "i < length cs" "call_result (snd (cs ! i)) = None"
    and st: "call_step X (invoker (fst (cs ! i))) (snd (cs ! i)) s = Ret (pc1, s1)"
    and rest: "calls_sched X invoker sched (cs[i := (fst (cs ! i), pc1)]) s1 = Some (cs', s')"
    by (auto split: if_splits go.splits)
  have "calls_race X invoker (cs, s) (cs[i := (fst (cs ! i), pc1)], s1)"
    using i st by (intro moves[where pc = "snd (cs ! i)"]) simp_all
  with Cons.IH[OF rest] show ?case unfolding length_Cons by (blast intro: relpowp_Suc_I2)
qed simp

definition gone_state :: "(nat, string, unit, unit) rpc_state" where
  "gone_state = moved_state\<lparr>rs_k8s := (rs_k8s moved_state)\<lparr>service2NamespacesMp := Map.empty\<rparr>\<rparr>"

definition two_calls :: "(bool \<times> string) list" where
  "two_calls = [(False, ''kafka.old:50051''), (True, ''kafka.old:50051'')]"

lemma two_failovers:
  "case calls_sched named_env (\<lambda>_. moved_invoker) [0, 1, 0, 1, 0, 1, 0, 1, 0, 1, 0, 1, 0, 1, 0] (start_calls two_calls) gone_state of
     Some (cs, s') \<Rightarrow> cs = [(False, RDone None), (True, RKeep ''kafka.common:50051'')] | None \<Rightarrow> False"
  by code_simp

lemma gone_laws:
  "dial_law named_env" "moved_away named_env ''kafka'' ''old'' ''common''" "client_ok gone_state"
  "outdated ''kafka'' ''old'' gone_state" "dead named_env (\<lambda>_. moved_invoker) (GetTarget ''kafka'' ''old'')"
proof -
  let ?services = "[\<lparr>ks_Name = ''kafka'', ks_Namespace = ''common''\<rparr>, \<lparr>ks_Name = ''kafka'', ks_Namespace = ''dev''\<rparr>]"
  have "sortNamespaces (namespaces_of ''kafka'' ?services) [] = [''common'', ''dev'']" by code_simp
  moreover have "''old'' \<notin> set (namespaces_of ''kafka'' ?services)" by code_simp
  ultimately show "moved_away named_env ''kafka'' ''old'' ''common''"
    by (auto simp: moved_away_def named_env_def news_env_def moved_env_def intro!: exI[of _ ?services])
  show "dead named_env (\<lambda>_. moved_invoker) (GetTarget ''kafka'' ''old'')"
    by (simp add: dead_def is_unavailable_def moved_invoker_def GetTarget_def named_env_def news_env_def moved_env_def
        ParseRPCErrorCode_def)
qed (auto simp: dial_law_def client_ok_def call_ok_def sm_ok_def named_env_def news_env_def moved_env_def gone_state_def
    moved_state_def outdated_def)

lemma concurrent_failovers_agree_witness:
  "\<exists>s'. (calls_race named_env (\<lambda>_. moved_invoker) ^^ 15) (start_calls two_calls, gone_state)
      ([(False, RDone None), (True, RKeep ''kafka.common:50051'')], s') \<and>
    (\<exists>cc. conn_lookup (rs_conns s') ''kafka'' = Some cc \<and> re_Target named_env cc = GetTarget ''kafka'' ''common'')"
proof -
  let ?cs = "[(False, RDone None), (True, RKeep ''kafka.common:50051'')]"
  obtain s' where "calls_sched named_env (\<lambda>_. moved_invoker) [0, 1, 0, 1, 0, 1, 0, 1, 0, 1, 0, 1, 0, 1, 0]
      (start_calls two_calls) gone_state = Some (?cs, s')"
    using two_failovers by (auto split: option.splits)
  note run = calls_sched_race[OF this]
  have "length [0, 1, 0, 1, 0, 1, 0, 1, 0, 1, 0, 1, 0, 1, 0 :: nat] = 15" by simp
  with run have run: "(calls_race named_env (\<lambda>_. moved_invoker) ^^ 15) (start_calls two_calls, gone_state) (?cs, s')"
    by (rule back_subst[of "\<lambda>n. (_ ^^ n) _ _"])
  have "\<forall>(q, cc) \<in> set two_calls. re_Target named_env cc = GetTarget ''kafka'' ''old''"
    by (simp add: two_calls_def named_env_def news_env_def moved_env_def GetTarget_def)
  with concurrent_failovers_agree[OF gone_laws(1,2) _ _ _ gone_laws(5,3,4) this run]
  have "\<exists>cc. conn_lookup (rs_conns s') ''kafka'' = Some cc \<and> re_Target named_env cc = GetTarget ''kafka'' ''common''"
    by auto
  with run show ?thesis by blast
qed

definition pair_env :: "(string, string, unit, unit) rpc_env" where
  "pair_env = \<lparr>re_get = retry_twice, re_watch = retry_twice, re_publish = retry_twice,
     re_nacos = example_env, re_md5 = rev,
     re_sdk = \<lparr>cc_PublishConfig = (\<lambda>p w. ((True, None), vo_Content p)), cc_ListenConfig = (\<lambda>p w. (None, w)),
        cc_GetConfig = (\<lambda>p w. ((w, None), w))\<rparr>,
     re_dec = example_dec, re_enc = example_enc, re_service_name = [], re_k8s = K8s.example_k8s,
     re_list = (\<lambda>_ w. (Inr (Some [\<lparr>ks_Name = ''kafka'', ks_Namespace = ''common''\<rparr>,
       \<lparr>ks_Name = ''panda-auth'', ks_Namespace = ''dev''\<rparr>]), w)),
     re_Dial = (\<lambda>t w. (Inr t, w)), re_Target = (\<lambda>t. t),
     re_fmt_status = (\<lambda>c d. d), re_gjson_code = (\<lambda>_. None)\<rparr>"

definition pair_state :: "(string, string, unit, unit) rpc_state" where
  "pair_state = \<lparr>rs_nacos = \<lparr>nc_world = [], ConfigCacheMap = [], ConfigWatchHandleMap = [],
       nc_app = \<lparr>call_once = True, GrpcCallRelationKey = initial_key,
         service2NamespaceMap = [(StrVal ''kafka'', StrVal ''old''), (StrVal ''panda-auth'', StrVal ''old'')],
         serviceName2ConnMap = [(''kafka'', ''kafka.old:50051''), (''panda-auth'', ''panda-auth.old:50051'')]\<rparr>\<rparr>,
     rs_k8s = example_k8s_state\<lparr>k8s_once := True, k8sClient := Some ()\<rparr>\<rparr>"

definition pair_invoker :: "bool \<Rightarrow> (string, string) invoker" where
  "pair_invoker q cc w =
     (if cc \<in> {''kafka.old:50051'', ''panda-auth.old:50051''} then Some (StatusErr 14 ''unavailable'') else None, w)"

lemma pair_laws:
  "dial_law pair_env" "codec_law (shared_env pair_env id initial_key)" "server_law (shared_env pair_env id initial_key)"
  "reliable (shared_env pair_env id initial_key)" "only_publications pair_env pair_invoker id"
  by (auto simp: dial_law_def codec_law_def server_law_def reliable_def only_publications_def shared_env_def pair_env_def
      pair_invoker_def retry_twice_law example_dec_def example_enc_def dec_enc_nat dec_enc_pairs map_of_clearjunk
      distinct_clearjunk enc_nat_nonempty)

lemma pair_moved:
  "moved_away pair_env ''kafka'' ''old'' ''common''" "moved_away pair_env ''panda-auth'' ''old'' ''dev''"
proof -
  let ?services = "[\<lparr>ks_Name = ''kafka'', ks_Namespace = ''common''\<rparr>, \<lparr>ks_Name = ''panda-auth'', ks_Namespace = ''dev''\<rparr>]"
  have "namespaces_of ''kafka'' ?services = [''common'']" "namespaces_of ''panda-auth'' ?services = [''dev'']"
    "sortNamespaces [''common''] [] = [''common'']" "sortNamespaces [''dev''] [] = [''dev'']" by code_simp+
  then show "moved_away pair_env ''kafka'' ''old'' ''common''" "moved_away pair_env ''panda-auth'' ''old'' ''dev''"
    by (auto simp: moved_away_def pair_env_def intro!: exI[of _ ?services])
qed

lemma pair_targets:
  "dead pair_env pair_invoker (GetTarget ''kafka'' ''old'')" "dead pair_env pair_invoker (GetTarget ''panda-auth'' ''old'')"
  "alive pair_env pair_invoker (GetTarget ''kafka'' ''common'')" "alive pair_env pair_invoker (GetTarget ''panda-auth'' ''dev'')"
  by (simp_all add: dead_def alive_def is_unavailable_def pair_invoker_def GetTarget_def pair_env_def ParseRPCErrorCode_def)

lemma pair_ready:
  "client_ready pair_state" "outdated ''kafka'' ''old'' pair_state" "outdated ''panda-auth'' ''old'' pair_state"
  "GrpcCallRelationKey (rs_call pair_state) = initial_key" "ns_view (rs_call pair_state) ''panda-auth'' = Some ''old''"
  by (simp_all add: client_ready_def client_ok_def call_ok_def sm_ok_def outdated_def pair_state_def example_k8s_state_def
      ns_view_def str_view_def sm_Load_map_of)

lemma failover_undone_by_publication_witness:
  "\<exists>s' told. (calls_race pair_env pair_invoker)\<^sup>*\<^sup>*
      (start_calls [(False, ''kafka.old:50051''), (True, ''panda-auth.old:50051'')], pair_state)
      ([(False, RDone None), (True, RDone None)], s') \<and>
    ns_view (rs_call s') ''panda-auth'' = Some ''dev'' \<and>
    call_handler example_dec ''k'' (rs_world s') (rs_call s') = Ret told \<and> ns_view told ''panda-auth'' = Some ''old''"
proof -
  have c: "re_Target pair_env ''kafka.old:50051'' = GetTarget ''kafka'' ''old''"
      "re_Target pair_env ''panda-auth.old:50051'' = GetTarget ''panda-auth'' ''old''" "re_dec pair_env = example_dec"
    by (simp_all add: pair_env_def GetTarget_def)
  show ?thesis
    using failover_undone_by_publication[where ?q1.0 = False and ?q2.0 = True and k = "''k''",
        OF pair_laws pair_moved _ _ _ _ _ _ _ pair_targets pair_ready _ c(1,2)]
    by (fastforce simp: c(3))
qed

end
