(* ===== verification/KafkaFlow.thy ===== *)
theory KafkaFlow
  imports Kafka "HOL-Library.Sublist"
begin

text \<open>
  From the partitions of the metric topic to the gauges: the goroutine that \<open>GetTopicMessageChan\<close> starts, the
  \<open>ConsumerHandler\<close> it hands to the consumer group, the channel of ten messages between them and the collector of
  \<open>prometheus.go\<close>. The group, a library object, calls \<open>ConsumeClaim\<close> once for every partition it is given, each
  call in a goroutine of its own; messages reach a partition at any time. Every send, receive and mark is one step.
\<close>

section \<open>Starting to consume\<close>

text \<open>
  The goroutine of a new channel. \<open>Consume\<close> is the call of the group, which returns an error or nil when the
  session ends; either way the goroutine ends. The error is only logged.
\<close>

definition consume_topic ::
    "('w, 'a) get_retry \<Rightarrow> nacos_env \<Rightarrow> ('w, 'a) config_client \<Rightarrow> (string \<Rightarrow> string \<Rightarrow> gerr + 'grp) \<Rightarrow>
     ('grp \<Rightarrow> string list \<Rightarrow> chan_id \<Rightarrow> 'w \<Rightarrow> gerr option \<times> 'w) \<Rightarrow> string \<times> bool \<times> chan_id \<Rightarrow>
     ('w, 'a) nacos_client \<times> ('cons, 'grp, 'prod) kafka_state \<Rightarrow>
     (('w, 'a) nacos_client \<times> ('cons, 'grp, 'prod) kafka_state) go" where
  "consume_topic R E C NewConsumerGroup Consume = (\<lambda>(topic, isNeedDiffGroup, myTopicChan) ck.
     go_bind (GetKafkaConsumer R E C NewConsumerGroup isNeedDiffGroup ck) (\<lambda>(g, c, k).
       case g of
         None \<Rightarrow> Panic NilDeref
       | Some g \<Rightarrow> let (err, w) = Consume g [topic] myTopicChan (nc_world c) in Ret (c\<lparr>nc_world := w\<rparr>, k)))"

definition Setup :: "gerr option" where
  "Setup = None"

definition Cleanup :: "gerr option" where
  "Cleanup = None"

section \<open>The claims, the channel and the collector\<close>

datatype 'm claim_pc =
    CNext         \<comment> \<open>at the \<open>range\<close> over the messages of the claim\<close>
  | CSend 'm      \<comment> \<open>at the send into the channel\<close>
  | CMark 'm      \<comment> \<open>at \<open>MarkMessage\<close>\<close>
  | CEnd

text \<open>\<open>kc_arrived\<close> is everything the broker has delivered to the claim, \<open>kc_queue\<close> what is not yet read.\<close>

record 'm claim =
  kc_arrived :: "'m list"
  kc_queue :: "'m list"
  kc_pc :: "'m claim_pc"
  kc_marked :: "'m list"

definition new_claim :: "'m claim" where
  "new_claim = \<lparr>kc_arrived = [], kc_queue = [], kc_pc = CNext, kc_marked = []\<rparr>"

definition topic_chan_cap :: nat where
  "topic_chan_cap = 10"

text \<open>
  Messages in the channel carry the number of their claim, which no step looks at. \<open>fl_taken\<close> is what the
  collector has received.
\<close>

record 'f flow =
  fl_claims :: "kafka_message claim list"
  fl_buf :: "(nat \<times> kafka_message) list"
  fl_taken :: "(nat \<times> kafka_message) list"
  fl_gauges :: "string \<times> string \<rightharpoonup> 'f"
  fl_running :: bool

definition start_flow :: "(string \<times> string \<rightharpoonup> 'f) \<Rightarrow> 'f flow" where
  "start_flow g = \<lparr>fl_claims = [], fl_buf = [], fl_taken = [], fl_gauges = g, fl_running = True\<rparr>"

text \<open>One message in the loop of the collector: the new gauges, unless the loop returns.\<close>

definition collect_message ::
    "(string \<Rightarrow> gerr + 'f) \<Rightarrow> kafka_message \<Rightarrow> (string \<times> string \<rightharpoonup> 'f) \<Rightarrow> (string \<times> string \<rightharpoonup> 'f) option" where
  "collect_message parse msg gauges =
     (case parse (km_Value msg) of
        Inl err \<Rightarrow> None
      | Inr count \<Rightarrow>
          let keys = split_byte (CHR ''/'') (km_Key msg)
          in Some (if length keys = 2 then gauges((keys ! 0, keys ! 1) \<mapsto> count) else gauges))"

definition set_claim :: "nat \<Rightarrow> kafka_message claim \<Rightarrow> 'f flow \<Rightarrow> 'f flow" where
  "set_claim i c s = s\<lparr>fl_claims := (fl_claims s)[i := c]\<rparr>"

inductive flow_step :: "(string \<Rightarrow> gerr + 'f) \<Rightarrow> 'f flow \<Rightarrow> 'f flow \<Rightarrow> bool" for parse where
  claim_begins: "flow_step parse s (s\<lparr>fl_claims := fl_claims s @ [new_claim]\<rparr>)"
| arrives: "i < length (fl_claims s) \<Longrightarrow> c = fl_claims s ! i \<Longrightarrow>
    flow_step parse s (set_claim i (c\<lparr>kc_arrived := kc_arrived c @ [m], kc_queue := kc_queue c @ [m]\<rparr>) s)"
| reads: "i < length (fl_claims s) \<Longrightarrow> c = fl_claims s ! i \<Longrightarrow> kc_pc c = CNext \<Longrightarrow> kc_queue c = m # ms \<Longrightarrow>
    flow_step parse s (set_claim i (c\<lparr>kc_queue := ms, kc_pc := CSend m\<rparr>) s)"
| claim_ends: "i < length (fl_claims s) \<Longrightarrow> c = fl_claims s ! i \<Longrightarrow> kc_pc c = CNext \<Longrightarrow> kc_queue c = [] \<Longrightarrow>
    flow_step parse s (set_claim i (c\<lparr>kc_pc := CEnd\<rparr>) s)"
| sends: "i < length (fl_claims s) \<Longrightarrow> c = fl_claims s ! i \<Longrightarrow> kc_pc c = CSend m \<Longrightarrow> length (fl_buf s) < topic_chan_cap \<Longrightarrow>
    flow_step parse s ((set_claim i (c\<lparr>kc_pc := CMark m\<rparr>) s)\<lparr>fl_buf := fl_buf s @ [(i, m)]\<rparr>)"
| marks: "i < length (fl_claims s) \<Longrightarrow> c = fl_claims s ! i \<Longrightarrow> kc_pc c = CMark m \<Longrightarrow>
    flow_step parse s (set_claim i (c\<lparr>kc_pc := CNext, kc_marked := kc_marked c @ [m]\<rparr>) s)"
| collects: "fl_running s \<Longrightarrow> fl_buf s = (i, m) # rest \<Longrightarrow> collect_message parse m (fl_gauges s) = Some g \<Longrightarrow>
    flow_step parse s (s\<lparr>fl_buf := rest, fl_taken := fl_taken s @ [(i, m)], fl_gauges := g\<rparr>)"
| stops: "fl_running s \<Longrightarrow> fl_buf s = (i, m) # rest \<Longrightarrow> collect_message parse m (fl_gauges s) = None \<Longrightarrow>
    flow_step parse s (s\<lparr>fl_buf := rest, fl_taken := fl_taken s @ [(i, m)], fl_running := False\<rparr>)"

abbreviation flow_run where "flow_run parse \<equiv> (flow_step parse)\<^sup>*\<^sup>*"

text \<open>The loop of the collector, message by message.\<close>

lemma collector_loop:
  "updateGoroutineCount parse (MsgEvent m # evs) g =
     (case collect_message parse m g of None \<Rightarrow> g | Some g' \<Rightarrow> updateGoroutineCount parse evs g')"
  by (simp add: collect_message_def Let_def split: sum.split)

lemma collector_snoc:
  assumes "list_all (\<lambda>m. \<exists>v. parse (km_Value m) = Inr v) ms"
  shows "updateGoroutineCount parse (map MsgEvent (ms @ [m])) g =
    (case collect_message parse m (updateGoroutineCount parse (map MsgEvent ms) g) of
       None \<Rightarrow> updateGoroutineCount parse (map MsgEvent ms) g | Some g' \<Rightarrow> g')"
  using assms
proof (induction ms arbitrary: g)
  case Nil
  then show ?case by (simp add: collector_loop del: updateGoroutineCount.simps(3) split: option.split)
next
  case (Cons a ms)
  then obtain v where "parse (km_Value a) = Inr v" by auto
  then obtain g' where "collect_message parse a g = Some g'" by (simp add: collect_message_def Let_def)
  then have "updateGoroutineCount parse (MsgEvent a # evs) g = updateGoroutineCount parse evs g'" for evs
    by (simp add: collector_loop del: updateGoroutineCount.simps(3))
  with Cons show ?case by (simp del: updateGoroutineCount.simps(3) cong: option.case_cong)
qed

lemma collect_message_None: "collect_message parse m g = None \<longleftrightarrow> (\<exists>e. parse (km_Value m) = Inl e)"
  by (simp add: collect_message_def Let_def split: sum.split)

section \<open>The invariant\<close>

text \<open>The messages of one claim, in the order in which they went into the channel.\<close>

definition from_claim :: "nat \<Rightarrow> (nat \<times> 'm) list \<Rightarrow> 'm list" where
  "from_claim i xs = map snd (filter (\<lambda>x. fst x = i) xs)"

lemma from_claim_simps [simp]:
  "from_claim i [] = []"
  "from_claim i (x # xs) = (if fst x = i then snd x # from_claim i xs else from_claim i xs)"
  "from_claim i (xs @ ys) = from_claim i xs @ from_claim i ys"
  by (simp_all add: from_claim_def)

lemma from_claim_none: "\<forall>x \<in> set xs. fst x < n \<Longrightarrow> from_claim n xs = []"
  by (induction xs) auto

lemma from_claim_sum: "\<forall>x \<in> set xs. fst x < n \<Longrightarrow> (\<Sum>i<n. length (from_claim i xs)) = length xs"
proof (induction xs)
  case (Cons x xs)
  have "(\<Sum>i<n. length (from_claim i (x # xs))) = (\<Sum>i<n. length (from_claim i xs) + (if fst x = i then 1 else 0))"
    by (intro sum.cong) simp_all
  with Cons show ?case by (simp add: sum.distrib)
qed simp

primrec in_hand :: "'m claim_pc \<Rightarrow> 'm list" where
  "in_hand CNext = []"
| "in_hand (CSend m) = [m]"
| "in_hand (CMark m) = []"
| "in_hand CEnd = []"

primrec unmarked :: "'m claim_pc \<Rightarrow> 'm list" where
  "unmarked CNext = []"
| "unmarked (CSend m) = []"
| "unmarked (CMark m) = [m]"
| "unmarked CEnd = []"

definition claim_ok :: "(nat \<times> kafka_message) list \<Rightarrow> nat \<Rightarrow> kafka_message claim \<Rightarrow> bool" where
  "claim_ok sent i c \<longleftrightarrow> kc_arrived c = from_claim i sent @ in_hand (kc_pc c) @ kc_queue c \<and>
     from_claim i sent = kc_marked c @ unmarked (kc_pc c)"

definition claims_ok :: "'f flow \<Rightarrow> bool" where
  "claims_ok s \<longleftrightarrow> (\<forall>i < length (fl_claims s). claim_ok (fl_taken s @ fl_buf s) i (fl_claims s ! i)) \<and>
     (\<forall>x \<in> set (fl_taken s @ fl_buf s). fst x < length (fl_claims s)) \<and> length (fl_buf s) \<le> topic_chan_cap"

definition collector_ok :: "(string \<Rightarrow> gerr + 'f) \<Rightarrow> (string \<times> string \<rightharpoonup> 'f) \<Rightarrow> 'f flow \<Rightarrow> bool" where
  "collector_ok parse g s \<longleftrightarrow>
     fl_gauges s = updateGoroutineCount parse (map MsgEvent (map snd (fl_taken s))) g \<and>
     (fl_running s \<longrightarrow> list_all (\<lambda>m. \<exists>v. parse (km_Value m) = Inr v) (map snd (fl_taken s)))"

lemma claims_ok_set:
  assumes "claims_ok s" and "claim_ok (fl_taken s @ fl_buf s) i c"
  shows "claims_ok (set_claim i c s)"
  using assms by (cases "i < length (fl_claims s)") (auto simp: claims_ok_def set_claim_def nth_list_update list_update_beyond)

lemma claims_ok_step:
  assumes "flow_step parse s s'" and "claims_ok s"
  shows "claims_ok s'"
proof -
  have here: "claim_ok (fl_taken s @ fl_buf s) i (fl_claims s ! i)" if "i < length (fl_claims s)" for i
    using assms(2) that by (simp add: claims_ok_def)
  show ?thesis
    using assms(1)
  proof (cases rule: flow_step.cases)
    case claim_begins
    have "from_claim (length (fl_claims s)) (fl_taken s @ fl_buf s) = []"
      using assms(2) by (intro from_claim_none) (simp add: claims_ok_def)
    with assms(2) show ?thesis
      by (auto simp: claims_ok_def claim_begins nth_append less_Suc_eq claim_ok_def new_claim_def)
  next
    case (arrives i c m)
    show ?thesis unfolding arrives(1)
      using here[OF arrives(2)] arrives(3-) by (intro claims_ok_set[OF assms(2)]) (simp add: claim_ok_def)
  next
    case (reads i c m ms)
    show ?thesis unfolding reads(1)
      using here[OF reads(2)] reads(3-) by (intro claims_ok_set[OF assms(2)]) (simp add: claim_ok_def)
  next
    case (claim_ends i c)
    show ?thesis unfolding claim_ends(1)
      using here[OF claim_ends(2)] claim_ends(3-) by (intro claims_ok_set[OF assms(2)]) (simp add: claim_ok_def)
  next
    case (sends i c m)
    have "claim_ok (fl_taken s' @ fl_buf s') j (fl_claims s' ! j)" if j: "j < length (fl_claims s)" for j
    proof (cases "j = i")
      case True
      with here[OF j] sends(3,4) j show ?thesis by (simp add: sends(1) set_claim_def claim_ok_def)
    next
      case False
      with here[OF j] j show ?thesis by (simp add: sends(1) set_claim_def claim_ok_def)
    qed
    moreover have "length (fl_claims s') = length (fl_claims s)" by (simp add: sends(1) set_claim_def)
    moreover have "length (fl_buf s') \<le> topic_chan_cap" using sends(5) by (simp add: sends(1))
    moreover have "\<forall>x \<in> set (fl_taken s' @ fl_buf s'). fst x < length (fl_claims s)"
      using assms(2) sends(2) by (auto simp: claims_ok_def sends(1) set_claim_def)
    ultimately show ?thesis by (simp add: claims_ok_def)
  next
    case (marks i c m)
    show ?thesis unfolding marks(1)
      using here[OF marks(2)] marks(3-) by (intro claims_ok_set[OF assms(2)]) (simp add: claim_ok_def)
  next
    case (collects i m rest g)
    with assms(2) show ?thesis by (auto simp: claims_ok_def)
  next
    case (stops i m rest)
    with assms(2) show ?thesis by (auto simp: claims_ok_def)
  qed
qed

lemma collector_ok_step:
  assumes "flow_step parse s s'" and "collector_ok parse g s"
  shows "collector_ok parse g s'"
  using assms(1)
proof (cases rule: flow_step.cases)
  case (collects i m rest g')
  with assms(2) have "\<exists>v. parse (km_Value m) = Inr v"
    using collect_message_None[of parse m "fl_gauges s"] by (cases "parse (km_Value m)") auto
  with assms(2) collects show ?thesis
    using collector_snoc[of parse "map snd (fl_taken s)" m g] by (simp add: collector_ok_def)
next
  case (stops i m rest)
  with assms(2) show ?thesis
    using collector_snoc[of parse "map snd (fl_taken s)" m g] by (simp add: collector_ok_def)
qed (use assms(2) in \<open>simp_all add: collector_ok_def set_claim_def\<close>)

lemma flow_start_ok: "claims_ok (start_flow g) \<and> collector_ok parse g (start_flow g)"
  by (simp add: claims_ok_def collector_ok_def start_flow_def)

lemma flow_run_ok:
  assumes "flow_run parse (start_flow g) s"
  shows "claims_ok s \<and> collector_ok parse g s"
  using assms
  by (induction rule: rtranclp_induct) (use flow_start_ok claims_ok_step collector_ok_step in blast)+

section \<open>What reaches the gauges\<close>

definition marked_total :: "'f flow \<Rightarrow> nat" where
  "marked_total s = (\<Sum>i < length (fl_claims s). length (kc_marked (fl_claims s ! i)))"

lemma marked_total_le: "claims_ok s \<Longrightarrow> marked_total s \<le> length (fl_taken s) + topic_chan_cap"
proof -
  assume ok: "claims_ok s"
  let ?sent = "fl_taken s @ fl_buf s"
  have "length (kc_marked (fl_claims s ! i)) \<le> length (from_claim i ?sent)" if "i < length (fl_claims s)" for i
  proof -
    have "from_claim i ?sent = kc_marked (fl_claims s ! i) @ unmarked (kc_pc (fl_claims s ! i))"
      using ok that unfolding claims_ok_def claim_ok_def by blast
    then show ?thesis by simp
  qed
  then have "marked_total s \<le> (\<Sum>i < length (fl_claims s). length (from_claim i ?sent))"
    unfolding marked_total_def by (intro sum_mono) simp
  also have "\<dots> = length ?sent" using ok by (intro from_claim_sum) (simp add: claims_ok_def)
  also have "\<dots> \<le> length (fl_taken s) + topic_chan_cap" using ok by (simp add: claims_ok_def)
  finally show ?thesis .
qed

text \<open>
  C7: However the claims, the channel and the collector interleave, the gauges are those of the messages the
  collector has received, one after the other; of every claim it has received a prefix of what the broker delivered,
  in that order; and no more than ten messages of all claims have been marked without having reached it.
\<close>

theorem gauges_follow_claims:
  assumes "flow_run parse (start_flow g) s"
  shows "fl_gauges s = updateGoroutineCount parse (map MsgEvent (map snd (fl_taken s))) g \<and>
    (\<forall>i < length (fl_claims s). prefix (from_claim i (fl_taken s)) (kc_arrived (fl_claims s ! i))) \<and>
    marked_total s \<le> length (fl_taken s) + 10"
proof (intro conjI allI impI)
  have ok: "claims_ok s" and col: "collector_ok parse g s" using flow_run_ok[OF assms] by blast+
  show "fl_gauges s = updateGoroutineCount parse (map MsgEvent (map snd (fl_taken s))) g"
    using col by (simp add: collector_ok_def)
  show "marked_total s \<le> length (fl_taken s) + 10" using marked_total_le[OF ok] by (simp add: topic_chan_cap_def)
  fix i assume "i < length (fl_claims s)"
  with ok show "prefix (from_claim i (fl_taken s)) (kc_arrived (fl_claims s ! i))"
    by (simp add: claims_ok_def claim_ok_def prefix_def)
qed

section \<open>After the collector has stopped\<close>

definition stalled :: "'f flow \<Rightarrow> 'f flow \<Rightarrow> bool" where
  "stalled s s' \<longleftrightarrow> \<not> fl_running s' \<and> fl_gauges s' = fl_gauges s \<and> fl_taken s' = fl_taken s \<and>
     prefix (fl_buf s) (fl_buf s') \<and> length (fl_claims s) \<le> length (fl_claims s') \<and>
     (\<forall>i < length (fl_claims s). \<forall>m. length (fl_buf s) = topic_chan_cap \<longrightarrow> kc_pc (fl_claims s ! i) = CSend m \<longrightarrow>
        kc_pc (fl_claims s' ! i) = CSend m \<and> kc_marked (fl_claims s' ! i) = kc_marked (fl_claims s ! i))"

lemma stalled_step:
  assumes "flow_step parse s1 s2" and "stalled s s1" and "claims_ok s1"
  shows "stalled s s2"
  using assms(1)
proof (cases rule: flow_step.cases)
  case (sends i c m)
  have "length (fl_buf s) \<le> length (fl_buf s1)" using assms(2) by (simp add: stalled_def prefix_length_le)
  with sends(5) have "length (fl_buf s) \<noteq> topic_chan_cap" by simp
  with assms(2) show ?thesis by (auto simp: stalled_def sends(1) set_claim_def)
qed (use assms(2) in \<open>auto simp: stalled_def set_claim_def nth_append nth_list_update\<close>)

lemma stalled_run:
  assumes "flow_run parse s s'" and "claims_ok s" and "\<not> fl_running s"
  shows "stalled s s' \<and> claims_ok s'"
  using assms(1)
proof (induction rule: rtranclp_induct)
  case base
  then show ?case using assms(2,3) by (simp add: stalled_def)
next
  case (step s1 s2)
  then show ?case using stalled_step claims_ok_step by blast
qed

text \<open>
  C12: One message whose value is no number stops the whole topic: nothing that happens afterwards changes a gauge,
  at most ten more messages are ever marked beyond those the collector received, and once the channel is full, every
  \<open>ConsumeClaim\<close> at its send stays there for ever, so that the session of the consumer group cannot end either.
\<close>

theorem stopped_collector_stalls_topic:
  assumes "flow_run parse (start_flow g) s" and "fl_running s" and "fl_buf s = (i, bad) # rest"
    and "parse (km_Value bad) = Inl e"
  shows "\<exists>s1. flow_step parse s s1 \<and> (\<forall>s2. flow_run parse s1 s2 \<longrightarrow>
    fl_gauges s2 = fl_gauges s \<and> fl_taken s2 = fl_taken s @ [(i, bad)] \<and> marked_total s2 \<le> length (fl_taken s) + 11 \<and>
    (length (fl_buf s2) = 10 \<longrightarrow> (\<forall>s3 j m. flow_run parse s2 s3 \<longrightarrow> j < length (fl_claims s2) \<longrightarrow>
       kc_pc (fl_claims s2 ! j) = CSend m \<longrightarrow>
       kc_pc (fl_claims s3 ! j) = CSend m \<and> kc_marked (fl_claims s3 ! j) = kc_marked (fl_claims s2 ! j))))"
proof -
  let ?s1 = "s\<lparr>fl_buf := rest, fl_taken := fl_taken s @ [(i, bad)], fl_running := False\<rparr>"
  have "collect_message parse bad (fl_gauges s) = None" using assms(4) by (simp add: collect_message_None)
  with assms(2,3) have step: "flow_step parse s ?s1" by (rule stops)
  have ok1: "claims_ok ?s1" using claims_ok_step[OF step] flow_run_ok[OF assms(1)] by blast
  show ?thesis
  proof (intro exI[of _ ?s1] conjI allI impI)
    show "flow_step parse s ?s1" by (rule step)
  next
    fix s2 assume run: "flow_run parse ?s1 s2"
    have st: "stalled ?s1 s2" and ok2: "claims_ok s2" using stalled_run[OF run ok1] by simp_all
    show "fl_gauges s2 = fl_gauges s" and t: "fl_taken s2 = fl_taken s @ [(i, bad)]" using st by (simp_all add: stalled_def)
    show "marked_total s2 \<le> length (fl_taken s) + 11" using marked_total_le[OF ok2] t by (simp add: topic_chan_cap_def)
    fix s3 j m
    assume "length (fl_buf s2) = 10" and run3: "flow_run parse s2 s3" and j: "j < length (fl_claims s2)" "kc_pc (fl_claims s2 ! j) = CSend m"
    moreover have "stalled s2 s3" using stalled_run[OF run3 ok2] st by (simp add: stalled_def)
    ultimately show "kc_pc (fl_claims s3 ! j) = CSend m" and "kc_marked (fl_claims s3 ! j) = kc_marked (fl_claims s2 ! j)"
      unfolding stalled_def topic_chan_cap_def by blast+
  qed
qed

section \<open>Examples\<close>

definition sent_state :: "(string \<times> string \<rightharpoonup> 'f) \<Rightarrow> kafka_message \<Rightarrow> 'f flow" where
  "sent_state g m = \<lparr>fl_claims = [\<lparr>kc_arrived = [m], kc_queue = [], kc_pc = CMark m, kc_marked = []\<rparr>],
     fl_buf = [(0, m)], fl_taken = [], fl_gauges = g, fl_running = True\<rparr>"

lemma one_message: "flow_run parse (start_flow g) (sent_state g m)"
proof -
  define c1 where "c1 = new_claim\<lparr>kc_arrived := [m], kc_queue := [m]\<rparr>"
  define c2 where "c2 = c1\<lparr>kc_queue := [], kc_pc := CSend m\<rparr>"
  define s1 where "s1 = (start_flow g)\<lparr>fl_claims := [new_claim]\<rparr>"
  have "flow_step parse (start_flow g) s1"
    using claim_begins[of parse "start_flow g"] by (simp add: s1_def start_flow_def)
  moreover have "flow_step parse s1 (set_claim 0 c1 s1)"
    using arrives[of 0 s1 new_claim parse m] by (simp add: s1_def c1_def new_claim_def)
  moreover have "flow_step parse (set_claim 0 c1 s1) (set_claim 0 c2 s1)"
    using reads[of 0 "set_claim 0 c1 s1" c1 m "[]" parse] by (simp add: s1_def c2_def c1_def set_claim_def new_claim_def)
  moreover have "flow_step parse (set_claim 0 c2 s1) (sent_state g m)"
    using sends[of 0 "set_claim 0 c2 s1" c2 m parse]
    by (simp add: s1_def c2_def c1_def set_claim_def new_claim_def sent_state_def start_flow_def topic_chan_cap_def)
  ultimately show ?thesis by (meson r_into_rtranclp rtranclp.rtrancl_into_rtrancl)
qed

definition count_message :: kafka_message where
  "count_message = \<lparr>km_Topic = ''panda_goroutine_count'', km_Key = ''panda-auth/pod-1'', km_Value = ''42''\<rparr>"

definition example_parse :: "string \<Rightarrow> gerr + nat" where
  "example_parse t = (if t = ''42'' then Inr 42 else Inl (PlainErr ''syntax''))"

lemma gauges_follow_claims_witness:
  "\<exists>s. flow_run example_parse (start_flow Map.empty) s \<and> fl_gauges s = [(''panda-auth'', ''pod-1'') \<mapsto> 42] \<and>
    marked_total s \<le> 11"
proof -
  let ?s = "sent_state Map.empty count_message"
  let ?g = "[(''panda-auth'', ''pod-1'') \<mapsto> 42] :: string \<times> string \<rightharpoonup> nat"
  let ?s1 = "?s\<lparr>fl_buf := [], fl_taken := [(0, count_message)], fl_gauges := ?g\<rparr>"
  have "split_byte (CHR ''/'') ''panda-auth/pod-1'' = [''panda-auth'', ''pod-1'']" by code_simp
  then have "collect_message example_parse count_message Map.empty = Some ?g"
    by (simp add: collect_message_def count_message_def example_parse_def)
  then have "flow_step example_parse ?s ?s1"
    using collects[of ?s 0 count_message "[]" example_parse ?g] by (simp add: sent_state_def)
  with one_message have run: "flow_run example_parse (start_flow Map.empty) ?s1"
    by (rule rtranclp.rtrancl_into_rtrancl)
  have "marked_total ?s1 \<le> length (fl_taken ?s1) + 10" using gauges_follow_claims[OF run] by blast
  then have "marked_total ?s1 \<le> 11" by simp
  with run show ?thesis by (intro exI[of _ ?s1]) simp
qed

lemma stopped_collector_stalls_topic_witness:
  "\<exists>s. flow_step example_parse (sent_state Map.empty (count_message\<lparr>km_Value := ''NaN?''\<rparr>)) s \<and>
    (\<forall>s'. flow_run example_parse s s' \<longrightarrow> fl_gauges s' = Map.empty \<and> marked_total s' \<le> 11)"
proof -
  have "example_parse (km_Value (count_message\<lparr>km_Value := ''NaN?''\<rparr>)) = Inl (PlainErr ''syntax'')"
    by (simp add: example_parse_def)
  note stop = stopped_collector_stalls_topic[where parse = example_parse and g = Map.empty and i = 0 and rest = "[]"
      and s = "sent_state Map.empty (count_message\<lparr>km_Value := ''NaN?''\<rparr>)", OF one_message _ _ this]
  show ?thesis using stop by (fastforce simp: sent_state_def)
qed

end
