(* ===== verification/Spec2Isabelle.thy ===== *)
theory Spec2Isabelle
  imports NacosApi NacosRace EndToEnd Requests PubSub Buckets Sprintf Typing Cluster Startup JsonWrapper Experiments Tracing
    LevelChain Informer ConnRace FailRace KafkaFlow
begin

text \<open>
  A verification library of \<open>panda-go\<close>: micro-services in Go that find each other through Kubernetes,
  share their configuration through Nacos, call each other over gRPC with retries and tracing, and are
  reached from outside through an HTTP gateway.

  \<^bold>\<open>How the parts work together.\<close> A call of a service goes through \<open>GetConn\<close>, which looks into the connection
  table and otherwise dials. The target needs the namespace of the service: it is in the map that all instances
  share under one Nacos key, and when it is not, Kubernetes is asked and the answer is published. The
  call itself runs inside two interceptors: one traces it, one retries it and, when the connection is
  \<open>Unavailable\<close>, looks the namespace up again, publishes it, dials anew and replaces the connection. A change
  published by another instance arrives through the Nacos watch, overrides the namespaces it names and drops
  their connections.

  \<^bold>\<open>Theories and the code they model.\<close> Paths are relative to \<open>src/\<close>.

  \<^item> \<open>GoPrelude\<close>, \<open>GoStrings\<close>, \<open>SyncMap\<close>: what is used of Go and its library: outcomes with panics and exits
    (\<open>go\<close>), errors (\<open>gerr\<close>), maps as association lists in the order of one \<open>range\<close>, string functions with UTF-8
    decoding and encoding, \<open>sync.Map\<close>.
  \<^item> \<open>NacosClient\<close>, \<open>NacosApi\<close>: \<open>component/nacos/base/nacos-client.go\<close>. The first has \<open>PublishConfig\<close>, \<open>GetConfig\<close>,
    \<open>WatchConfig\<close>, \<open>GetAndWatchConfig\<close> and \<open>RefreshConfig\<close> with their retries, and the locales of the handlers
    that a watch runs; the second the fourteen management calls and the singleton \<open>GetNacosClient\<close>. \<open>NacosRace\<close>
    has \<open>RefreshConfig\<close> and the \<open>OnChange\<close> callback as two goroutines, a step relation \<open>race_step\<close> over the shared maps.
  \<^item> \<open>Utils\<close>, \<open>Reflect\<close>, \<open>TraceMd\<close>: \<open>common/utils/utils.go\<close>: targets, masking, error codes, kebab case; deep copies
    and JSON by reflection over a type of values (\<open>gval\<close>); trace identifiers in gRPC metadata.
  \<^item> \<open>K8s\<close>: \<open>component/k8s/k8s.go\<close>. \<open>ConnStorage\<close>: \<open>conn-storage/conn.go\<close>. \<open>GrpcCall\<close>:
    \<open>component/nacos/config/grpc-call/config.go\<close>, the shared map. \<open>GrpcClient\<close>: \<open>grpc-client-wrapper.go\<close> and
    the retry of \<open>grpc-client-interceptor/interceptor.go\<close>, over the state of all of these.
  \<^item> \<open>Directory\<close>, \<open>Cluster\<close>: compositions of these. The first is what the client side promises, an abstract directory of
    services (\<open>dir_act\<close>), with the runs of connection requests, retried calls and deliveries that implement it. The
    second has any number of instances that set namespaces and receive the shared map over one Nacos server,
    in every order of these events. \<open>ConnRace\<close> has the goroutines of one instance: any number of them in \<open>GetConn\<close> beside
    the delivery of the shared map, the step relations \<open>get_race\<close> and \<open>conn_race\<close>, with the proof that each of them alone
    is \<open>GetConn\<close> and the handler. \<open>Routine\<close> is what both need of code in steps. \<open>FailRace\<close> has any number of calls inside the retry interceptor, the step
    relation \<open>calls_race\<close>, over the same shared state; each of them alone is the interceptor.
  \<^item> \<open>Interceptors\<close>: the tracing interceptors of client, server and HTTP under \<open>common/interceptor\<close>.
  \<^item> \<open>Desensitize\<close>, \<open>Logger\<close>: masking of logged fields, levels and the logging functions. \<open>Typing\<close>: the typing of
    reflected values, which copying and masking keep, and what becomes of a logged struct by its shape. \<open>Sprintf\<close>: the formatter with numbered placeholders of
    \<open>utils.go\<close>. \<open>JsonWrapper\<close>: \<open>json-wrapper.go\<close>.
  \<^item> \<open>Holmes\<close>: the profiling manager. \<open>Kafka\<close>: consumer, producer and the goroutine metric of
    \<open>prometheus.go\<close>. Both take their configuration from Nacos. \<open>KafkaFlow\<close>: the claims of a consumer group, the
    channel of ten messages and the collector as a step relation \<open>flow_step\<close>, with the invariants \<open>claims_ok\<close> (what was
    delivered, sent and marked) and \<open>collector_ok\<close> (the gauges are those of the messages received).
  \<^item> \<open>PubSub\<close>: the two servers under \<open>publish/\<close>; the second is a step relation \<open>v2_step\<close> whose events are
    the start and end of \<open>Subscribe\<close>, a \<open>Publish\<close> and a delivery, in every interleaving that the mutex allows.
  \<^item> \<open>Server\<close>: the handlers of the gRPC servers. \<open>Gateway\<close>: client creation, the hand-written routes and the
    middlewares of \<open>panda-grpc-gw/main.go\<close>. \<open>GatewayRpc\<close>: the generated requests, handlers and registrations under
    \<open>proto/pb/*.pb.gw.go\<close>. \<open>Engine\<close>: the gateway's engine with the \<open>http.ServeMux\<close> behind it. \<open>Requests\<close>: readers of
    HTTP requests, the remaining helpers and the closing of the clients at a signal.
  \<^item> \<open>EndToEnd\<close>: a call through both client interceptors, and gateway requests through the HTTP interceptor.
    \<open>Tracing\<close>: the trace of a request through the services that it calls.
    \<open>Startup\<close>: \<open>NewServer\<close>, the main functions and the tracer's \<open>init\<close>, with what a server does around a
    handler; it joins the gateway's route, the server and its handler.
  \<^item> \<open>Stubs\<close>: the generated gRPC code under \<open>proto/pb\<close> and \<open>publish/*/pb\<close>: messages, client stubs, server interfaces,
    handlers, typed streams and service descriptors. \<open>GrpcPath\<close>: a call from a stub, or from the gateway's route
    over the stubs, to a registered method and back. \<open>HelloChain\<close>: \<open>GET /test\<close> through both services.
  \<^item> \<open>Routing\<close>: the compiled and the textual path patterns, the table of routes that the gateway builds, and where every
    request goes. \<open>LevelChain\<close>: a log-level request from the engine to the logger of the service it names.
  \<^item> \<open>Buckets\<close>, \<open>Experiments\<close>: the rate limiters and the functions that stand for themselves of \<open>base/main.go\<close>.
    \<open>Informer\<close>: the event handlers of \<open>base/job-informer/main.go\<close>, and the index test and the goroutine
    number of \<open>base/main.go\<close>.

  \<^bold>\<open>How state and operations correspond.\<close> Package variables and receivers are records passed and returned
  (\<open>nacos_client\<close>, \<open>k8s_state\<close>, \<open>call_state\<close>, \<open>rpc_state\<close>, \<open>holmes_state\<close>, \<open>kafka_state\<close>, \<open>logger_state\<close>,
  \<open>v2_server\<close>). Each operation keeps its Go name and has a branch for every return, panic and exit of the
  source. Packages that are not in the repository (the Nacos SDK, the Kubernetes client, gRPC, sarama, zap, gin,
  Jaeger, Holmes, json-iterator and gob) are arguments, and where a theorem needs their documented
  behaviour it is a named law (\<open>md_laws\<close>, \<open>zap_law\<close>, \<open>read_law\<close>, \<open>send_law\<close>, \<open>float_law\<close>, \<open>round_law\<close>, \<open>codec_law\<close>, \<open>server_law\<close>, \<open>tracer_law\<close>, \<open>invoke_law\<close>, \<open>route_law\<close>, \<open>indexer_law\<close>, \<open>list_law\<close> and others), which the witnesses
  establish for a concrete instance. What the world outside does is a state \<open>'w\<close> that those arguments change.

  \<^bold>\<open>What the lemmas show.\<close> Each component has lemmas for the effect of its operations on every
  branch, an invariant where it keeps one (\<open>sm_ok\<close>, \<open>call_ok\<close>, \<open>holmes_ok\<close>, \<open>chans_ok\<close>, \<open>v2_inv\<close>, \<open>lb_ok\<close>, \<open>client_ok\<close>, \<open>cl_ok\<close>,
  \<open>mux_ok\<close>, \<open>race_ok\<close>, \<open>claims_ok\<close>, \<open>collector_ok\<close>, \<open>calls_ok_at\<close>) with its
  preservation, and the properties numbered C1, C2 and so on, each stated in words before its theorem. Locales
  hold the contracts between components: \<open>kv_store\<close> for the maps, \<open>config_handler\<close> and
  \<open>total_config_handler\<close> for the handlers of configuration changes, interpreted for the shared map, for Holmes and for
  the absence of a connection, \<open>rate_limiter\<close> for the two buckets, and \<open>routine\<close> for
  code cut into steps, which is interpreted for \<open>GetConn\<close> and for the retry interceptor. Several properties state
  that the code does something other than it means to; those are theorems about the code as it is.

  \<^bold>\<open>Loops and bounds.\<close> The retry interceptor recurses on its three attempts; the retries around the SDK are made by
  the package \<open>retry-go\<close>, an argument whose law \<open>retry_law\<close> states that two attempts run the body once more after an error. The loops of the
  metric, of publishing and of reflection recurse on their data. Matching of
  placeholders, splitting into segments and merging of spaces are functions with a measure on what is left of the text. The
  three loops that need not end, \<open>v1_send_loop\<close>, \<open>read_send_loop\<close> and \<open>upload_loop\<close>, are partial functions whose
  value \<open>None\<close> is not returning: the first is proved never to return, the second to return for every file and stream that
  keep \<open>read_law\<close> and \<open>send_law\<close>, under which every read and every sending may fail, the third for every body that ends (\<open>body_is\<close>). No fuel is used. Durations saturate at 64 bits;
  floats are finite and rounded by a parameter, monotone (\<open>float_law\<close>) or with a bound on the error of each operation
  (\<open>round_law\<close>).

  \<^bold>\<open>What is not modelled.\<close> Of the generated messages the raw descriptors, the reflection methods and the registration with
  the protobuf runtime: tables and calls for that runtime. Listening, serving, the routing of gin, the
  proxy to Kubernetes and the static assets: library calls, of which the model has the arguments; of the routing of the
  gateway's runtime only what \<open>route_law\<close> states. Log
  messages, except in \<open>Logger\<close>. The parts of \<open>base/main.go\<close> that try out libraries (gorm, redis, gin, the profiler), the
  set-up of the informer in \<open>base/job-informer\<close>, and \<open>base/tmp.go\<close>, \<open>operator\<close> and \<open>trace\<close>, which only set up libraries. Data
  races outside the interleavings above are not modelled.
\<close>

end
